(* ===== verification/Prelude.thy ===== *)
theory Prelude
  imports Main "HOL-Library.Word"
begin

text \<open>
  Shared vocabulary of the citron development.

  \<^item> The machine integers of the target (\<open>riscv64\<close>, \<open>usize\<close> is 64 bits wide). Arithmetic
    wraps: the kernel is built in release mode (\<open>BUILD=release\<close> in the Makefile), where Rust
    does not check overflow.
  \<^item> \<open>result\<close>: the three ways a call of the kernel ends, a value, an \<open>Err\<close> that is
    propagated by \<open>?\<close>, and a panic.
  \<^item> \<open>prog\<close>: a kernel call as a resumption. A call runs up to its end (\<open>Done\<close>) or up to a
    \<open>context_switch\<close> (\<open>Switch\<close>), where the process that called it loses the processor; the
    continuation takes the state in which the process is switched to again.
  \<^item> \<open>sat\<close>: total correctness of resumptions under a rely condition on what the other
    processes do while this one is switched out, with one equation per combinator, so that
    \<open>simp\<close> computes the verification condition of a whole call.
  \<^item> word and list lemmas used by several components.
\<close>

unbundle bit_operations_syntax

section \<open>Machine integers\<close>

type_synonym u8 = "8 word"
type_synonym u16 = "16 word"
type_synonym u32 = "32 word"
type_synonym u64 = "64 word"
type_synonym usize = "64 word"
type_synonym isize = "64 word"

named_theorems op_defs \<open>the definitions of the kernel operations\<close>
named_theorems sat_simps \<open>verification-condition equations of the combinators\<close>

section \<open>Results and resumptions\<close>

datatype ('e, 'a) result = Ok 'a | Err 'e | Panic string

text \<open>\<open>Switch p s k\<close>: process \<open>p\<close> has called \<open>context_switch\<close>; \<open>s\<close> is the state with which the
  other process goes on, \<open>k\<close> what is left of the call of \<open>p\<close>.\<close>

datatype ('s, 'e, 'a) prog =
    Done "('e, 'a) result" 's
  | Switch usize 's "'s \<Rightarrow> ('s, 'e, 'a) prog"

type_synonym ('s, 'e, 'a) kop = "'s \<Rightarrow> ('s, 'e, 'a) prog"

primrec bind_prog ::
  "('s, 'e, 'a) prog \<Rightarrow> ('a \<Rightarrow> ('s, 'e, 'b) kop) \<Rightarrow> ('s, 'e, 'b) prog" where
  "bind_prog (Done r s) f =
     (case r of Ok a \<Rightarrow> f a s | Err e \<Rightarrow> Done (Err e) s | Panic m \<Rightarrow> Done (Panic m) s)"
| "bind_prog (Switch p s k) f = Switch p s (\<lambda>s'. bind_prog (k s') f)"

definition bind :: "('s, 'e, 'a) kop \<Rightarrow> ('a \<Rightarrow> ('s, 'e, 'b) kop) \<Rightarrow> ('s, 'e, 'b) kop" where
  "bind m f = (\<lambda>s. bind_prog (m s) f)"

definition seq :: "('s, 'e, 'a) kop \<Rightarrow> ('s, 'e, 'b) kop \<Rightarrow> ('s, 'e, 'b) kop" where
  "seq m n = bind m (\<lambda>_. n)"

definition ret :: "'a \<Rightarrow> ('s, 'e, 'a) kop" where
  "ret a = (\<lambda>s. Done (Ok a) s)"

definition throw :: "'e \<Rightarrow> ('s, 'e, 'a) kop" where
  "throw e = (\<lambda>s. Done (Err e) s)"

definition panic :: "string \<Rightarrow> ('s, 'e, 'a) kop" where
  "panic m = (\<lambda>s. Done (Panic m) s)"

definition gets :: "('s \<Rightarrow> 'a) \<Rightarrow> ('s, 'e, 'a) kop" where
  "gets f = (\<lambda>s. Done (Ok (f s)) s)"

definition modify :: "('s \<Rightarrow> 's) \<Rightarrow> ('s, 'e, unit) kop" where
  "modify f = (\<lambda>s. Done (Ok ()) (f s))"

text \<open>A state-passing function with a result, as a kernel call without a switch.\<close>

definition lift :: "('s \<Rightarrow> ('e, 'a) result \<times> 's) \<Rightarrow> ('s, 'e, 'a) kop" where
  "lift f = (\<lambda>s. case f s of (r, s') \<Rightarrow> Done r s')"

text \<open>The switch itself: \<open>p\<close> stops here with the state changed by \<open>f\<close> and goes on, when it is
  switched to again, with whatever state there is then.\<close>

definition switch :: "usize \<Rightarrow> ('s \<Rightarrow> 's) \<Rightarrow> ('s, 'e, unit) kop" where
  "switch p f = (\<lambda>s. Switch p (f s) (\<lambda>s'. Done (Ok ()) s'))"

text \<open>\<open>expect\<close>/\<open>unwrap\<close> on the result of a call: an error becomes a panic.\<close>

primrec expect_prog :: "string \<Rightarrow> ('s, 'e, 'a) prog \<Rightarrow> ('s, 'f, 'a) prog" where
  "expect_prog m (Done r s) =
     (case r of Ok a \<Rightarrow> Done (Ok a) s | Err e \<Rightarrow> Done (Panic m) s | Panic m' \<Rightarrow> Done (Panic m') s)"
| "expect_prog m (Switch p s k) = Switch p s (\<lambda>s'. expect_prog m (k s'))"

definition expect :: "string \<Rightarrow> ('s, 'e, 'a) kop \<Rightarrow> ('s, 'f, 'a) kop" where
  "expect m f = (\<lambda>s. expect_prog m (f s))"

text \<open>A \<open>for\<close> loop over a list.\<close>

primrec for_each :: "('a \<Rightarrow> ('s, 'e, unit) kop) \<Rightarrow> 'a list \<Rightarrow> ('s, 'e, unit) kop" where
  "for_each f [] = ret ()"
| "for_each f (x # xs) = seq (f x) (for_each f xs)"

lemmas kop_defs = bind_def seq_def ret_def throw_def panic_def gets_def modify_def lift_def
  switch_def expect_def

lemma bind_prog_assoc:
  "bind_prog (bind_prog p f) g = bind_prog p (\<lambda>a s. bind_prog (f a s) g)"
  by (induction p) (auto split: result.splits)

lemma bind_prog_Done: "bind_prog p (\<lambda>a s. Done (Ok a) s) = p"
  by (induction p) (auto split: result.splits)

text \<open>Sequencing of state-passing functions that do not switch.\<close>

definition and_then ::
  "('e, 'a) result \<times> 's \<Rightarrow> ('a \<Rightarrow> 's \<Rightarrow> ('e, 'b) result \<times> 's) \<Rightarrow> ('e, 'b) result \<times> 's" where
  "and_then p f =
     (case p of (Ok a, s) \<Rightarrow> f a s | (Err e, s) \<Rightarrow> (Err e, s) | (Panic msg, s) \<Rightarrow> (Panic msg, s))"

lemma and_then_simps [simp]:
  "and_then (Ok a, s) f = f a s" "and_then (Err e, s) f = (Err e, s)"
  "and_then (Panic msg, s) f = (Panic msg, s)"
  by (simp_all add: and_then_def)

section \<open>Correctness of resumptions\<close>

text \<open>
  \<open>sat R G Q p\<close>: whenever \<open>p\<close> stops at a switch of process \<open>i\<close> with state \<open>s\<close>, \<open>G i s\<close> holds, and
  from every state \<open>s'\<close> with \<open>R i s s'\<close> (the rely condition) its rest is correct again; where it
  ends, the result and the state satisfy \<open>Q\<close>. Every call is finite, so this is total.
\<close>

primrec sat ::
  "(usize \<Rightarrow> 's \<Rightarrow> 's \<Rightarrow> bool) \<Rightarrow> (usize \<Rightarrow> 's \<Rightarrow> bool) \<Rightarrow> (('e, 'a) result \<Rightarrow> 's \<Rightarrow> bool) \<Rightarrow>
   ('s, 'e, 'a) prog \<Rightarrow> bool" where
  "sat R G Q (Done r s) = Q r s"
| "sat R G Q (Switch p s k) = (G p s \<and> (\<forall>s'. R p s s' \<longrightarrow> sat R G Q (k s')))"

definition post_bind ::
  "(usize \<Rightarrow> 's \<Rightarrow> 's \<Rightarrow> bool) \<Rightarrow> (usize \<Rightarrow> 's \<Rightarrow> bool) \<Rightarrow> (('e, 'b) result \<Rightarrow> 's \<Rightarrow> bool) \<Rightarrow>
   ('a \<Rightarrow> ('s, 'e, 'b) kop) \<Rightarrow> ('e, 'a) result \<Rightarrow> 's \<Rightarrow> bool" where
  "post_bind R G Q f r s =
     (case r of Ok a \<Rightarrow> sat R G Q (f a s) | Err e \<Rightarrow> Q (Err e) s | Panic m \<Rightarrow> Q (Panic m) s)"

lemma post_bind_simps [simp]:
  "post_bind R G Q f (Ok a) s = sat R G Q (f a s)"
  "post_bind R G Q f (Err e) s = Q (Err e) s"
  "post_bind R G Q f (Panic m) s = Q (Panic m) s"
  by (simp_all add: post_bind_def)

lemma sat_bind_prog: "sat R G Q (bind_prog p f) = sat R G (post_bind R G Q f) p"
  by (induction p) (auto simp: post_bind_def split: result.splits)

lemma sat_bind [sat_simps]: "sat R G Q (bind m f s) = sat R G (post_bind R G Q f) (m s)"
  by (simp add: bind_def sat_bind_prog)

lemma sat_seq [sat_simps]:
  "sat R G Q (seq m n s) = sat R G (post_bind R G Q (\<lambda>_. n)) (m s)"
  by (simp add: seq_def sat_bind)

lemma sat_ret [sat_simps]: "sat R G Q (ret a s) = Q (Ok a) s"
  by (simp add: ret_def)

lemma sat_throw [sat_simps]: "sat R G Q (throw e s) = Q (Err e) s"
  by (simp add: throw_def)

lemma sat_panic [sat_simps]: "sat R G Q (panic m s) = Q (Panic m) s"
  by (simp add: panic_def)

lemma sat_gets [sat_simps]: "sat R G Q (gets f s) = Q (Ok (f s)) s"
  by (simp add: gets_def)

lemma sat_modify [sat_simps]: "sat R G Q (modify f s) = Q (Ok ()) (f s)"
  by (simp add: modify_def)

lemma sat_lift [sat_simps]: "sat R G Q (lift f s) = (case f s of (r, s') \<Rightarrow> Q r s')"
  by (simp add: lift_def split: prod.split)

lemma sat_switch [sat_simps]:
  "sat R G Q (switch p f s) = (G p (f s) \<and> (\<forall>s'. R p (f s) s' \<longrightarrow> Q (Ok ()) s'))"
  by (simp add: switch_def)

lemma sat_expect_prog:
  "sat R G Q (expect_prog m p) =
   sat R G (\<lambda>r s. case r of Ok a \<Rightarrow> Q (Ok a) s | Err e \<Rightarrow> Q (Panic m) s
                  | Panic m' \<Rightarrow> Q (Panic m') s) p"
  by (induction p) (auto split: result.splits)

lemma sat_expect [sat_simps]:
  "sat R G Q (expect m f s) =
   sat R G (\<lambda>r s. case r of Ok a \<Rightarrow> Q (Ok a) s | Err e \<Rightarrow> Q (Panic m) s
                  | Panic m' \<Rightarrow> Q (Panic m') s) (f s)"
  by (simp add: expect_def sat_expect_prog)

lemma sat_mono:
  assumes "sat R G Q p"
    and "\<And>i s s'. R' i s s' \<Longrightarrow> R i s s'"
    and "\<And>i s. G i s \<Longrightarrow> G' i s"
    and "\<And>r s. Q r s \<Longrightarrow> Q' r s"
  shows "sat R' G' Q' p"
  using assms(1) by (induction p) (use assms(2-4) in auto)

lemma sat_post: "sat R G Q p \<Longrightarrow> (\<And>r s. Q r s \<Longrightarrow> Q' r s) \<Longrightarrow> sat R G Q' p"
  by (erule sat_mono) auto

lemma sat_conj:
  "sat R G Q p \<Longrightarrow> sat R G' Q' p \<Longrightarrow> sat R (\<lambda>i s. G i s \<and> G' i s) (\<lambda>r s. Q r s \<and> Q' r s) p"
  by (induction p) auto

section \<open>Words\<close>

lemma small_bit: "(d :: 'a::len word) < 2 ^ k \<Longrightarrow> bit d n \<Longrightarrow> n < k"
  using less_mask_eq [of d k] by (metis bit_and_iff bit_mask_iff)

lemma mask_numerals:
  "(0xfff :: usize) = mask 12" "(0x1ff :: usize) = mask 9" "(0x3ff :: usize) = mask 10"
  "(0x3ffffff :: usize) = mask 26"
  by (simp_all add: mask_eq_exp_minus_1)

text \<open>\<open>pg a\<close>: the address of the 4 KiB page that holds \<open>a\<close>.\<close>

abbreviation pg :: "usize \<Rightarrow> usize" where
  "pg a \<equiv> a AND NOT (mask 12)"

lemma pg_iff: "pg q = q \<longleftrightarrow> (\<forall>n < 12. \<not> bit q n)"
proof
  assume "pg q = q"
  then show "\<forall>n < 12. \<not> bit q n"
    by (metis bit_and_iff bit_mask_iff bit_not_iff bit_imp_le_length)
next
  assume "\<forall>n < 12. \<not> bit q n"
  then show "pg q = q" by (auto intro!: bit_word_eqI simp: bit_simps)
qed

lemma pg_0 [simp]: "pg 0 = 0"
  by simp

lemma page_eqI:
  assumes "\<forall>n < 12. \<not> bit x n" "\<forall>n < 12. \<not> bit y n"
    and "\<And>k. k < 52 \<Longrightarrow> bit x (12 + k) = bit y (12 + k)"
  shows "x = (y :: usize)"
proof (rule bit_word_eqI)
  fix n assume "n < LENGTH(64)"
  then show "bit x n = bit y n"
    using assms(1,2) assms(3) [of "n - 12"] by (cases "n < 12") auto
qed

lemma pg_add:
  assumes "pg p = p" "d < 4096"
  shows "pg (p + d) = p"
proof -
  have p: "\<forall>n < 12. \<not> bit p n" using assms by (simp only: pg_iff)
  have d: "bit d n \<Longrightarrow> n < 12" for n using small_bit [of d 12 n] assms(2) by simp
  have "p AND d = 0" using p d by (auto intro!: bit_word_eqI simp: bit_simps)
  then have "p + d = p OR d" by (simp add: disjunctive_add_eq_or)
  then show ?thesis using p d by (auto intro!: bit_word_eqI simp: bit_simps)
qed

lemma pg_block: "pg q = q \<Longrightarrow> a - q < 0x1000 \<longleftrightarrow> pg a = q"
proof
  assume "pg q = q" and "a - q < 0x1000"
  then show "pg a = q" using pg_add [of q "a - q"] by simp
next
  assume "pg a = q"
  moreover have "a = pg a + (a AND mask 12)"
    by (subst disjunctive_add_eq_or) (auto intro!: bit_word_eqI simp: bit_simps)
  ultimately have "a - q = a AND mask 12" by (metis add_diff_cancel_left')
  moreover have "a AND mask 12 \<le> mask 12" by (rule word_and_le1)
  ultimately show "a - q < 0x1000"
    by (simp add: mask_eq_exp_minus_1 word_le_nat_alt word_less_nat_alt)
qed

end
