(* ===== verification/Machine.thy ===== *)
theory Machine
  imports Prelude
begin

text \<open>
  The hart as the kernel sees it (\<open>src/src/arch/riscv64/csr.rs\<close>, \<open>interrupt.rs\<close> and
  \<open>src/src/allocator.rs\<close>): the control and status registers, the operations that switch supervisor
  interrupts off and on, physical memory as cells of eight bytes, and the global allocator.

  The allocator's backing heap (\<open>linked_list_allocator\<close>) is a parameter: \<open>heap_script\<close> is the
  sequence of answers of its \<open>allocate_first_fit\<close>, whatever they are, and \<open>heap_log\<close> records what was
  handed out and given back.
\<close>

section \<open>Control and status registers (csr.rs)\<close>

datatype Csr =
    Misa | Mvendorid | Marchid | Mimpid | Mhartid | Mstatus | Mtvec | Medeleg | Mideleg | Mip
  | Mie | Mcounteren | Mcountinhibit | Mscratch | Mepc | Mcause | Mtval
  | Sstatus | Stvec | Sip | Sie | Scounteren | Sscratch | Sepc | Scause | Stval | Satp

type_synonym csr_file = "Csr \<Rightarrow> usize"

text \<open>\<open>Csr::read\<close> is the instruction \<open>csrr\<close>, \<open>Csr::write\<close> is \<open>csrw\<close>: every register is a cell that
  holds what was written to it.\<close>

definition csr_read :: "Csr \<Rightarrow> csr_file \<Rightarrow> usize" where
  "csr_read c f = f c"

definition csr_write :: "Csr \<Rightarrow> usize \<Rightarrow> csr_file \<Rightarrow> csr_file" where
  "csr_write c v f = f(c := v)"

section \<open>Interrupt control (interrupt.rs)\<close>

definition timer_interrupt_on :: "csr_file \<Rightarrow> csr_file" where
  "timer_interrupt_on f = csr_write Sie (csr_read Sie f OR push_bit 1 1) f"

definition timer_interrupt_off :: "csr_file \<Rightarrow> csr_file" where
  "timer_interrupt_off f = csr_write Sie (csr_read Sie f AND NOT (push_bit 1 1)) f"

definition interrupt_off :: "csr_file \<Rightarrow> csr_file" where
  "interrupt_off f = csr_write Sstatus (csr_read Sstatus f AND NOT (push_bit 1 1)) f"

definition interrupt_on :: "csr_file \<Rightarrow> csr_file" where
  "interrupt_on f = csr_write Sstatus (csr_read Sstatus f OR push_bit 1 1) f"

definition interrupt_disable :: "csr_file \<Rightarrow> usize \<times> csr_file" where
  "interrupt_disable f =
     (let msk = csr_read Sstatus f AND push_bit 1 1
      in (msk, interrupt_off f))"

definition interrupt_restore :: "usize \<Rightarrow> csr_file \<Rightarrow> csr_file" where
  "interrupt_restore msk f = csr_write Sstatus (csr_read Sstatus f OR msk) f"

definition is_interrupt_enable :: "csr_file \<Rightarrow> bool" where
  "is_interrupt_enable f =
     (let sstatus = csr_read Sstatus f;
          enable = drop_bit 1 (sstatus AND push_bit 1 1)
      in enable \<noteq> 0)"

lemmas irq_defs = csr_read_def csr_write_def timer_interrupt_on_def timer_interrupt_off_def
  interrupt_off_def interrupt_on_def interrupt_disable_def interrupt_restore_def
  is_interrupt_enable_def Let_def

lemma bit_sie: "bit (2 :: usize) n \<longleftrightarrow> n = 1"
proof -
  have "(2 :: usize) = push_bit 1 1" by simp
  then have "bit (2 :: usize) n = bit (push_bit 1 1 :: usize) n" by metis
  then show ?thesis by (auto simp: bit_simps)
qed

lemma bit_not_sie: "bit (- 3 :: usize) n \<longleftrightarrow> n < 64 \<and> n \<noteq> 1"
proof -
  have "(- 3 :: usize) = NOT 2" by simp
  then have "bit (- 3 :: usize) n = bit (NOT 2 :: usize) n" by metis
  then show ?thesis by (auto simp: bit_simps bit_sie)
qed

lemma is_interrupt_enable_bit: "is_interrupt_enable f = bit (f Sstatus) 1"
proof -
  have "drop_bit 1 (w AND 2) = (if bit w 1 then 1 else 0)" for w :: usize
    by (rule bit_word_eqI) (auto simp: bit_simps bit_sie intro!: gr0I)
  then show ?thesis by (simp add: irq_defs)
qed

lemma sie_split: "(w AND - 3) OR (w AND 2) = (w :: usize)"
  by (rule bit_word_eqI) (auto simp: bit_simps bit_sie bit_not_sie)

lemma sie_cleared: "\<not> bit w (Suc 0) \<Longrightarrow> w AND - 3 = (w :: usize)"
  by (rule bit_word_eqI) (auto simp: bit_simps bit_sie bit_not_sie)

lemma sie_zero: "\<not> bit w (Suc 0) \<Longrightarrow> w AND 2 = (0 :: usize)"
  by (rule bit_word_eqI) (auto simp: bit_simps bit_sie)

lemma interrupt_disable_off: "\<not> is_interrupt_enable (snd (interrupt_disable f))"
  by (simp add: is_interrupt_enable_bit) (simp add: irq_defs bit_simps)

text \<open>A critical section inside another one changes nothing: the inner mask is 0 and restoring it
  leaves interrupts off.\<close>

lemma interrupt_disable_nested:
  "\<not> is_interrupt_enable f \<Longrightarrow> interrupt_disable f = (0, f)"
  by (simp add: is_interrupt_enable_bit)
    (simp add: irq_defs sie_cleared sie_zero)

lemma interrupt_restore_0 [simp]: "interrupt_restore 0 f = f"
  by (simp add: irq_defs)

lemma interrupt_restore_disable:
  "interrupt_restore (fst (interrupt_disable f)) (snd (interrupt_disable f)) = f"
  by (simp add: irq_defs sie_split)

section \<open>Registers, memory and the heap\<close>

datatype Reg =
    Ra | Sp | Gp | Tp | T0 | T1 | T2 | S0 | S1 | A0 | A1 | A2 | A3 | A4 | A5 | A6 | A7
  | S2 | S3 | S4 | S5 | S6 | S7 | S8 | S9 | S10 | S11 | T3 | T4 | T5 | T6

text \<open>\<open>core::alloc::Layout\<close>: a size and an alignment.\<close>

type_synonym layout = "usize \<times> usize"

datatype heap_event = Allocated usize layout | Deallocated usize layout

record machine =
  regs :: "Reg \<Rightarrow> usize"
  csrs :: csr_file
  mem :: "usize \<Rightarrow> usize"
  heap_script :: "nat \<Rightarrow> usize option"
  n_alloc :: nat
  heap_log :: "heap_event list"

section \<open>The global allocator (allocator.rs)\<close>

definition allocate_first_fit :: "layout \<Rightarrow> machine \<Rightarrow> usize option \<times> machine" where
  "allocate_first_fit l m =
     (let r = heap_script m (n_alloc m)
      in (r, m\<lparr>n_alloc := Suc (n_alloc m),
             heap_log := (case r of None \<Rightarrow> heap_log m
                          | Some p \<Rightarrow> heap_log m @ [Allocated p l])\<rparr>))"

text \<open>\<open>Allocator::alloc\<close>: the null pointer when the heap has no room.\<close>

definition alloc :: "layout \<Rightarrow> machine \<Rightarrow> usize \<times> machine" where
  "alloc l m =
     (case interrupt_disable (csrs m) of (msk, f) \<Rightarrow>
        (case allocate_first_fit l (m\<lparr>csrs := f\<rparr>) of (r, m1) \<Rightarrow>
           (case r of None \<Rightarrow> 0 | Some p \<Rightarrow> p,
            m1\<lparr>csrs := interrupt_restore msk (csrs m1)\<rparr>)))"

definition dealloc :: "usize \<Rightarrow> layout \<Rightarrow> machine \<Rightarrow> machine" where
  "dealloc p l m =
     (case interrupt_disable (csrs m) of (msk, f) \<Rightarrow>
        let m1 = m\<lparr>csrs := f, heap_log := heap_log m @ [Deallocated p l]\<rparr>
        in m1\<lparr>csrs := interrupt_restore msk (csrs m1)\<rparr>)"

text \<open>\<open>GlobalAlloc::alloc_zeroed\<close>, the default method: \<open>alloc\<close>, and the block is cleared unless the
  pointer is null.\<close>

definition alloc_zeroed :: "layout \<Rightarrow> machine \<Rightarrow> usize \<times> machine" where
  "alloc_zeroed l m =
     (case alloc l m of (p, m1) \<Rightarrow>
        (p, if p = 0 then m1
            else m1\<lparr>mem := (\<lambda>a. if a - p < fst l then 0 else mem m1 a)\<rparr>))"

lemma alloc_eq:
  "alloc l m =
     (case heap_script m (n_alloc m) of
        None \<Rightarrow> (0, m\<lparr>n_alloc := Suc (n_alloc m)\<rparr>)
      | Some p \<Rightarrow> (p, m\<lparr>n_alloc := Suc (n_alloc m),
                        heap_log := heap_log m @ [Allocated p l]\<rparr>))"
  using interrupt_restore_disable [of "csrs m"]
  by (auto simp: alloc_def allocate_first_fit_def Let_def split: prod.splits option.splits)

lemma dealloc_eq: "dealloc p l m = m\<lparr>heap_log := heap_log m @ [Deallocated p l]\<rparr>"
  using interrupt_restore_disable [of "csrs m"]
  by (auto simp: dealloc_def Let_def split: prod.splits)

end
