(* ===== verification/Paging.thy ===== *)
theory Paging
  imports Machine
begin

text \<open>
  Sv39 page tables (\<open>src/src/arch/riscv64/paging.rs\<close>, 64-bit target).

  The operations work on physical memory as the code does, through the address of an entry. The
  specification side is the datatype \<open>ptree\<close> (an invalid entry, a leaf, a table with 512 entries)
  with a lookup and an update by path; \<open>rep\<close> says that an entry in memory represents a tree, with
  the pages of different tables disjoint. \<open>map_pt\<close> refines the update and \<open>virt_to_phys\<close> the lookup.
\<close>

section \<open>Entries\<close>

definition PAGE_SIZE :: usize where
  "PAGE_SIZE = 4096"

definition LEVELS :: nat where
  "LEVELS = 3"

datatype EntryBits =
    EB_V | EB_R | EB_W | EB_X | EB_U | EB_G | EB_A | EB_D | EB_RSW | EB_PPN_0 | EB_PPN_1 | EB_PPN_2

fun eb_val :: "EntryBits \<Rightarrow> usize" where
  "eb_val EB_V = push_bit 0 1"
| "eb_val EB_R = push_bit 1 1"
| "eb_val EB_W = push_bit 2 1"
| "eb_val EB_X = push_bit 3 1"
| "eb_val EB_U = push_bit 4 1"
| "eb_val EB_G = push_bit 5 1"
| "eb_val EB_A = push_bit 6 1"
| "eb_val EB_D = push_bit 7 1"
| "eb_val EB_RSW = push_bit 8 0x3"
| "eb_val EB_PPN_0 = push_bit 10 0x1ff"
| "eb_val EB_PPN_1 = push_bit 19 0x1ff"
| "eb_val EB_PPN_2 = push_bit 28 0x3ffffff"

text \<open>\<open>entry & self.val() >> n\<close>: the shift binds tighter than the conjunction.\<close>

fun get_field :: "EntryBits \<Rightarrow> usize \<Rightarrow> usize" where
  "get_field EB_V entry = entry AND drop_bit 0 (eb_val EB_V)"
| "get_field EB_R entry = entry AND drop_bit 1 (eb_val EB_R)"
| "get_field EB_W entry = entry AND drop_bit 2 (eb_val EB_W)"
| "get_field EB_X entry = entry AND drop_bit 3 (eb_val EB_X)"
| "get_field EB_U entry = entry AND drop_bit 4 (eb_val EB_U)"
| "get_field EB_G entry = entry AND drop_bit 5 (eb_val EB_G)"
| "get_field EB_A entry = entry AND drop_bit 6 (eb_val EB_A)"
| "get_field EB_D entry = entry AND drop_bit 7 (eb_val EB_D)"
| "get_field EB_RSW entry = entry AND drop_bit 8 (eb_val EB_RSW)"
| "get_field EB_PPN_0 entry = entry AND drop_bit 10 (eb_val EB_PPN_0)"
| "get_field EB_PPN_1 entry = entry AND drop_bit 19 (eb_val EB_PPN_1)"
| "get_field EB_PPN_2 entry = entry AND drop_bit 28 (eb_val EB_PPN_2)"

definition entry_bits :: "usize \<Rightarrow> EntryBits \<Rightarrow> usize" where
  "entry_bits entry eb = get_field eb entry"

definition is_valid :: "usize \<Rightarrow> bool" where
  "is_valid entry \<longleftrightarrow> entry_bits entry EB_V \<noteq> 0"

definition is_invalid :: "usize \<Rightarrow> bool" where
  "is_invalid entry \<longleftrightarrow> \<not> is_valid entry"

definition is_leaf :: "usize \<Rightarrow> bool" where
  "is_leaf entry \<longleftrightarrow> entry AND 0xe \<noteq> 0"

definition is_branch :: "usize \<Rightarrow> bool" where
  "is_branch entry \<longleftrightarrow> \<not> is_leaf entry"

definition get_flags :: "usize \<Rightarrow> usize" where
  "get_flags entry = entry AND 0x3ff"

text \<open>\<open>Entry::get_entry\<close> and \<open>Entry::set_entry\<close> through a pointer, and \<open>*mut Entry::add\<close> (entries are
  eight bytes wide).\<close>

definition get_entry :: "usize \<Rightarrow> machine \<Rightarrow> usize" where
  "get_entry v m = mem m v"

definition set_entry :: "usize \<Rightarrow> usize \<Rightarrow> machine \<Rightarrow> machine" where
  "set_entry v entry m = m\<lparr>mem := (mem m)(v := entry)\<rparr>"

definition entry_add :: "usize \<Rightarrow> usize \<Rightarrow> usize" where
  "entry_add t i = t + 8 * i"

definition entry_table :: "usize \<Rightarrow> usize" where
  "entry_table entry = push_bit 2 (entry AND NOT 0x3ff)"

section \<open>Mapping and translating\<close>

definition vpn :: "usize \<Rightarrow> nat \<Rightarrow> usize" where
  "vpn vaddr i = drop_bit (12 + 9 * i) vaddr AND 0x1ff"

definition leaf_entry :: "usize \<Rightarrow> usize \<Rightarrow> usize" where
  "leaf_entry paddr bits =
     (let ppn0 = drop_bit 12 paddr AND 0x1ff;
          ppn1 = drop_bit 21 paddr AND 0x1ff;
          ppn2 = drop_bit 30 paddr AND 0x3ffffff
      in push_bit 28 ppn2 OR push_bit 19 ppn1 OR push_bit 10 ppn0 OR bits OR eb_val EB_V)"

text \<open>The loop of \<open>map\<close> over the levels \<open>(level..LEVELS-1).rev()\<close>; \<open>v\<close> is the address of the current
  entry. A null pointer makes \<open>as_mut().unwrap()\<close> panic.\<close>

fun map_walk :: "usize \<Rightarrow> nat list \<Rightarrow> usize \<Rightarrow> machine \<Rightarrow> ('e, usize) result \<times> machine" where
  "map_walk vaddr [] v m = (Ok v, m)"
| "map_walk vaddr (i # is) v m =
     (let m1 = (if is_invalid (get_entry v m)
                then (case alloc_zeroed (0x1000, 0x1000) m of (page, m') \<Rightarrow>
                        set_entry v (drop_bit 2 page OR eb_val EB_V) m')
                else m);
          p = entry_add (entry_table (get_entry v m1)) (vpn vaddr i)
      in if p = 0 then (Panic ''unwrap on a null entry'', m1) else map_walk vaddr is p m1)"

definition map_pt ::
  "usize \<Rightarrow> usize \<Rightarrow> usize \<Rightarrow> usize \<Rightarrow> nat \<Rightarrow> machine \<Rightarrow> ('e, unit) result \<times> machine" where
  "map_pt root vaddr paddr bits level m =
     (if bits AND 0xe = 0 then (Panic ''assertion failed: bits & 0xe != 0'', m)
      else (case map_walk vaddr (rev [level ..< LEVELS - 1])
                   (entry_add root (vpn vaddr (LEVELS - 1))) m of
              (Ok v, m1) \<Rightarrow> (Ok (), set_entry v (leaf_entry paddr bits) m1)
            | (Err e, m1) \<Rightarrow> (Err e, m1)
            | (Panic s, m1) \<Rightarrow> (Panic s, m1)))"

text \<open>The loop of \<open>virt_to_phys\<close>. At level 0 a valid entry that is no leaf makes the code index
  \<open>vpn[i - 1]\<close> out of range, which panics.\<close>

fun v2p_walk :: "usize \<Rightarrow> nat list \<Rightarrow> usize \<Rightarrow> machine \<Rightarrow> ('e, usize option) result" where
  "v2p_walk vaddr [] v m = Ok None"
| "v2p_walk vaddr (i # is) v m =
     (if is_invalid (get_entry v m) then Ok None
      else if is_leaf (get_entry v m) then
        (let off_mask = push_bit (12 + i * 9) 1 - 1;
             vaddr_pgoff = vaddr AND off_mask;
             addr = push_bit 2 (get_entry v m) AND NOT off_mask
         in Ok (Some (addr OR vaddr_pgoff)))
      else if i = 0 then Panic ''index out of bounds''
      else (let p = entry_add (entry_table (get_entry v m)) (vpn vaddr (i - 1))
            in if p = 0 then Panic ''unwrap on a null entry'' else v2p_walk vaddr is p m))"

definition virt_to_phys :: "usize \<Rightarrow> usize \<Rightarrow> machine \<Rightarrow> ('e, usize option) result" where
  "virt_to_phys root vaddr m = v2p_walk vaddr (rev [0 ..< LEVELS]) (entry_add root (vpn vaddr 2)) m"

definition align_val :: "usize \<Rightarrow> nat \<Rightarrow> usize" where
  "align_val x align = (let t = push_bit align 1 - 1 in (x + t) AND NOT t)"

fun map_pages ::
  "nat \<Rightarrow> usize \<Rightarrow> usize \<Rightarrow> usize \<Rightarrow> usize \<Rightarrow> machine \<Rightarrow> ('e, unit) result \<times> machine" where
  "map_pages 0 root memaddr_v memaddr bits m = (Ok (), m)"
| "map_pages (Suc n) root memaddr_v memaddr bits m =
     (case map_pt root memaddr_v memaddr bits 0 m of
        (Ok u, m1) \<Rightarrow> map_pages n root (memaddr_v + PAGE_SIZE) (memaddr + PAGE_SIZE) bits m1
      | (Err e, m1) \<Rightarrow> (Err e, m1)
      | (Panic s, m1) \<Rightarrow> (Panic s, m1))"

definition map_range ::
  "usize \<Rightarrow> usize \<Rightarrow> usize \<Rightarrow> usize \<Rightarrow> usize \<Rightarrow> machine \<Rightarrow> ('e, unit) result \<times> machine" where
  "map_range root vaddr paddr sz bits m =
     (let memaddr = paddr AND NOT (PAGE_SIZE - 1);
          memaddr_v = vaddr AND NOT (PAGE_SIZE - 1);
          num_kb_pages = (align_val (memaddr + sz) 12 - memaddr) div PAGE_SIZE
      in map_pages (unat num_kb_pages) root memaddr_v memaddr bits m)"

definition id_map_range ::
  "usize \<Rightarrow> usize \<Rightarrow> usize \<Rightarrow> usize \<Rightarrow> machine \<Rightarrow> ('e, unit) result \<times> machine" where
  "id_map_range root start stop bits m =
     (let memaddr = start AND NOT (PAGE_SIZE - 1);
          num_kb_pages = (align_val stop 12 - memaddr) div PAGE_SIZE
      in map_pages (unat num_kb_pages) root memaddr memaddr bits m)"

text \<open>\<open>unmap\<close>: three nested loops over the tables. \<open>for_branches\<close> is one loop: for every valid
  branch entry the body runs on the table it points to, which is then freed. In the two outer
  loops the body dereferences the table (\<open>as_mut().unwrap()\<close>), in the innermost there is none.\<close>

definition table_indices :: "usize list" where
  "table_indices = map of_nat [0 ..< 512]"

definition page_layout :: layout where
  "page_layout = (0x1000, 0x1000)"

fun for_branches ::
  "(usize \<Rightarrow> machine \<Rightarrow> ('e, unit) result \<times> machine) \<Rightarrow> usize \<Rightarrow> usize list \<Rightarrow> machine \<Rightarrow>
   ('e, unit) result \<times> machine" where
  "for_branches body table [] m = (Ok (), m)"
| "for_branches body table (i # is) m =
     (let entry = get_entry (entry_add table i) m
      in if is_valid entry \<and> is_branch entry then
           (let memaddr = entry_table entry
            in case body memaddr m of
                 (Ok u, m1) \<Rightarrow> for_branches body table is (dealloc memaddr page_layout m1)
               | (Err e, m1) \<Rightarrow> (Err e, m1)
               | (Panic s, m1) \<Rightarrow> (Panic s, m1))
         else for_branches body table is m)"

definition unmap_lv1 :: "usize \<Rightarrow> machine \<Rightarrow> ('e, unit) result \<times> machine" where
  "unmap_lv1 table m =
     (if table = 0 then (Panic ''unwrap on a null table'', m)
      else for_branches (\<lambda>_ m. (Ok (), m)) table table_indices m)"

definition unmap_lv2 :: "usize \<Rightarrow> machine \<Rightarrow> ('e, unit) result \<times> machine" where
  "unmap_lv2 table m =
     (if table = 0 then (Panic ''unwrap on a null table'', m)
      else for_branches unmap_lv1 table table_indices m)"

definition unmap :: "usize \<Rightarrow> machine \<Rightarrow> ('e, unit) result \<times> machine" where
  "unmap root m = for_branches unmap_lv2 root table_indices m"

section \<open>The kernel's own table (\<open>init\<close>)\<close>

text \<open>The linker script gives every region its bounds, and the trampoline its address: parameters.\<close>

datatype Region =
    R_text | R_rodata | R_data | R_bss | R_stack | R_heap | R_clint | R_plic | R_uart0 | R_virtio
  | R_fw_cfg

definition QEMU_VIRT_TEST :: usize where
  "QEMU_VIRT_TEST = 0x100000"

definition TRAMPOLINE :: usize where
  "TRAMPOLINE = push_bit (9 + 9 + 9 + 12 - 1) 1 - 0x1000"

definition TRAPFRAME :: usize where
  "TRAPFRAME = TRAMPOLINE - 0x1000"

definition KILLME :: usize where
  "KILLME = TRAPFRAME - 0x1000"

fun id_map_all ::
  "usize \<Rightarrow> (usize \<times> usize \<times> usize) list \<Rightarrow> machine \<Rightarrow> ('e, unit) result \<times> machine" where
  "id_map_all root [] m = (Ok (), m)"
| "id_map_all root ((start, stop, bits) # rs) m =
     (case id_map_range root start stop bits m of
        (Ok u, m1) \<Rightarrow> id_map_all root rs m1
      | (Err e, m1) \<Rightarrow> (Err e, m1)
      | (Panic s, m1) \<Rightarrow> (Panic s, m1))"

text \<open>The calls of \<open>id_map_range\<close> in \<open>init\<close>, in their order.\<close>

definition kernel_ranges ::
  "(Region \<Rightarrow> usize) \<Rightarrow> (Region \<Rightarrow> usize) \<Rightarrow> (usize \<times> usize \<times> usize) list" where
  "kernel_ranges start stop =
     (let rw = eb_val EB_R OR eb_val EB_W
      in [(start R_text, stop R_text, eb_val EB_R OR eb_val EB_X),
          (start R_rodata, stop R_rodata, eb_val EB_R),
          (start R_data, stop R_data, rw),
          (start R_bss, stop R_bss, rw),
          (start R_stack, stop R_stack, rw),
          (start R_heap, stop R_heap, rw),
          (start R_clint, stop R_clint, rw),
          (start R_plic, stop R_plic, rw),
          (start R_uart0, stop R_uart0, rw),
          (start R_virtio, stop R_virtio, rw),
          (start R_fw_cfg, stop R_fw_cfg, rw),
          (QEMU_VIRT_TEST, QEMU_VIRT_TEST + 0x1000, rw)])"

definition paging_init ::
  "(Region \<Rightarrow> usize) \<Rightarrow> (Region \<Rightarrow> usize) \<Rightarrow> usize \<Rightarrow> machine \<Rightarrow> ('e, unit) result \<times> machine" where
  "paging_init start stop trampoline m =
     (case alloc_zeroed (0x1000, 0x1000) m of (root, m1) \<Rightarrow>
        if root = 0 then (Panic ''unwrap on a null table'', m1)
        else (case id_map_all root (kernel_ranges start stop) m1 of
                (Ok u, m2) \<Rightarrow>
                  (case map_pt root TRAMPOLINE trampoline (eb_val EB_R OR eb_val EB_X) 0 m2 of
                     (Ok u, m3) \<Rightarrow>
                       (let root_ppn = drop_bit 12 root;
                            satp_val = push_bit 60 8 OR root_ppn
                        in (Ok (), m3\<lparr>csrs := csr_write Satp satp_val (csrs m3)\<rparr>))
                   | (Err e, m3) \<Rightarrow> (Err e, m3)
                   | (Panic s, m3) \<Rightarrow> (Panic s, m3))
              | (Err e, m2) \<Rightarrow> (Err e, m2)
              | (Panic s, m2) \<Rightarrow> (Panic s, m2)))"

section \<open>Entries as bits\<close>

lemma is_valid_bit: "is_valid e = bit e 0"
  by (simp add: is_valid_def entry_bits_def and_one_eq mod_2_eq_odd bit_0)

lemma vpn_less: "vpn a i < 512"
proof -
  have "vpn a i \<le> 0x1ff" unfolding vpn_def by (rule word_and_le1)
  then show ?thesis by (simp add: word_less_nat_alt word_le_nat_alt)
qed

lemma pg_entry_table: "pg (entry_table e) = entry_table e"
  unfolding pg_iff entry_table_def mask_numerals by (auto simp: bit_simps)

lemmas bit_fields = bit_push_bit_iff bit_and_iff bit_or_iff bit_not_iff bit_mask_iff
  bit_drop_bit_eq bit_1_iff

lemma entry_table_enc:
  assumes "pg q = q"
  shows "entry_table (drop_bit 2 q OR eb_val EB_V) = q"
proof (rule page_eqI)
  show "\<forall>n < 12. \<not> bit q n" using assms by (simp only: pg_iff)
  show "\<forall>n < 12. \<not> bit (entry_table (drop_bit 2 q OR eb_val EB_V)) n"
    using pg_entry_table by (simp only: pg_iff)
  fix k :: nat assume "k < 52"
  then show "bit (entry_table (drop_bit 2 q OR eb_val EB_V)) (12 + k) = bit q (12 + k)"
    unfolding entry_table_def mask_numerals
    by (simp add: bit_fields del: push_bit_or push_bit_and)
qed

lemma pg_entry_add: "pg p = p \<Longrightarrow> i < 512 \<Longrightarrow> pg (entry_add p i) = p"
  unfolding entry_add_def by (rule pg_add) (auto simp: word_less_nat_alt unat_word_ariths)

lemma entry_add_inj: "i < 512 \<Longrightarrow> j < 512 \<Longrightarrow> entry_add p i = entry_add p j \<longleftrightarrow> i = j"
proof -
  assume "i < 512" "j < 512"
  then have "unat (8 * i) = 8 * unat i" "unat (8 * j) = 8 * unat j"
    by (simp_all add: word_less_nat_alt unat_word_ariths)
  then show ?thesis
    by (metis add_left_cancel entry_add_def mult_left_cancel word_unat_eq_iff zero_neq_numeral)
qed

text \<open>A leaf entry keeps the page frame of a 56-bit physical address and the flag bits.\<close>

lemma leaf_entry_addr:
  assumes "paddr < 2 ^ 56" "bits < 2 ^ 10"
  shows "pg (push_bit 2 (leaf_entry paddr bits)) = pg paddr"
proof (rule page_eqI)
  show "\<forall>n < 12. \<not> bit (pg (push_bit 2 (leaf_entry paddr bits))) n" by (simp add: bit_simps)
  show "\<forall>n < 12. \<not> bit (pg paddr) n" by (simp add: bit_simps)
  fix k :: nat assume k: "k < 52"
  have p: "bit paddr n \<Longrightarrow> n < 56" for n using small_bit [of paddr 56 n] assms(1) by simp
  have b: "bit bits n \<Longrightarrow> n < 10" for n using small_bit [of bits 10 n] assms(2) by simp
  show "bit (pg (push_bit 2 (leaf_entry paddr bits))) (12 + k) = bit (pg paddr) (12 + k)"
    using k p [of "12 + k"] b [of "10 + k"]
    unfolding leaf_entry_def mask_numerals Let_def
    by (simp add: bit_fields del: push_bit_or push_bit_and)
      (cases "k < 9"; cases "k < 18"; auto)
qed

lemma leaf_entry_flags: obtains x where "leaf_entry paddr bits = x OR (bits OR 1)"
proof
  show "leaf_entry paddr bits =
    (push_bit 28 (drop_bit 30 paddr AND 0x3ffffff) OR push_bit 19 (drop_bit 21 paddr AND 0x1ff) OR
     push_bit 10 (drop_bit 12 paddr AND 0x1ff)) OR (bits OR 1)"
    by (simp only: leaf_entry_def Let_def eb_val.simps push_bit_0_id id_apply or.assoc)
qed

lemma leaf_entry_valid: "is_valid (leaf_entry paddr bits)"
  by (rule leaf_entry_flags [of paddr bits]) (simp add: is_valid_bit bit_or_iff)

lemma leaf_entry_leaf:
  assumes "bits AND 0xe \<noteq> 0"
  shows "is_leaf (leaf_entry paddr bits)"
proof -
  obtain n where "bit (bits AND 0xe) n" using assms by (metis bit_0_eq bit_eq_iff bot_apply bot_bool_def)
  then have "bit ((x OR (bits OR 1)) AND 0xe) n" for x :: usize by (simp add: bit_and_iff bit_or_iff)
  then have "(x OR (bits OR 1)) AND 0xe \<noteq> 0" for x :: usize by (metis bit_0_eq bot_apply bot_bool_def)
  then show ?thesis by (metis is_leaf_def leaf_entry_flags)
qed

section \<open>The specification: trees\<close>

datatype ptree = Inv | Leaf usize | Tab usize "usize \<Rightarrow> ptree"

text \<open>Lookup by path: the leaf that is met and the number of levels below it.\<close>

fun tlookup :: "ptree \<Rightarrow> usize list \<Rightarrow> (usize \<times> nat) option" where
  "tlookup Inv is = None"
| "tlookup (Leaf e) is = Some (e, length is)"
| "tlookup (Tab p f) [] = None"
| "tlookup (Tab p f) (i # is) = tlookup (f i) is"

text \<open>Update by path: missing tables are put at the pages \<open>qs\<close>, in order.\<close>

fun tupdate :: "usize list \<Rightarrow> usize \<Rightarrow> usize list \<Rightarrow> ptree \<Rightarrow> ptree" where
  "tupdate [] e qs t = Leaf e"
| "tupdate (i # is) e qs (Tab p f) = Tab p (f(i := tupdate is e qs (f i)))"
| "tupdate (i # is) e (q # qs) Inv = Tab q ((\<lambda>_. Inv)(i := tupdate is e qs Inv))"
| "tupdate (i # is) e [] Inv = Inv"
| "tupdate (i # is) e qs (Leaf e') = Leaf e'"

text \<open>The path meets no leaf before its end, and where it ends there is no table.\<close>

fun path_free :: "ptree \<Rightarrow> usize list \<Rightarrow> bool" where
  "path_free (Tab p f) (i # is) = path_free (f i) is"
| "path_free (Tab p f) [] = False"
| "path_free (Leaf e) is = (is = [])"
| "path_free Inv is = True"

fun missing :: "ptree \<Rightarrow> usize list \<Rightarrow> nat" where
  "missing (Tab p f) (i # is) = missing (f i) is"
| "missing Inv is = length is"
| "missing t is = 0"

lemma tlookup_tupdate_same:
  "path_free t is \<Longrightarrow> missing t is \<le> length qs \<Longrightarrow> tlookup (tupdate is e qs t) is = Some (e, 0)"
  by (induction "is" e qs t rule: tupdate.induct) auto

lemma tlookup_tupdate_other:
  "path_free t is \<Longrightarrow> missing t is \<le> length qs \<Longrightarrow> js \<noteq> is \<Longrightarrow> length js = length is \<Longrightarrow>
   tlookup (tupdate is e qs t) js = tlookup t js"
proof (induction "is" e qs t arbitrary: js rule: tupdate.induct)
  case (2 i "is" e qs p f)
  then show ?case by (cases js) auto
next
  case (3 i "is" e q qs)
  then show ?case by (cases js) auto
qed auto

section \<open>Trees in memory\<close>

primrec pages :: "ptree \<Rightarrow> usize set" where
  "pages Inv = {}"
| "pages (Leaf e) = {}"
| "pages (Tab p f) = insert p (\<Union>i \<in> {i. i < 512}. pages (f i))"

primrec rep :: "ptree \<Rightarrow> (usize \<Rightarrow> usize) \<Rightarrow> usize \<Rightarrow> bool" where
  "rep Inv mm e = (\<not> is_valid e)"
| "rep (Leaf e') mm e = (e' = e \<and> is_valid e \<and> is_leaf e)"
| "rep (Tab p f) mm e =
     (is_valid e \<and> is_branch e \<and> entry_table e = p \<and> p \<noteq> 0 \<and>
      (\<forall>i < 512. rep (f i) mm (mm (entry_add p i)) \<and> p \<notin> pages (f i)) \<and>
      (\<forall>i < 512. \<forall>j < 512. i \<noteq> j \<longrightarrow> pages (f i) \<inter> pages (f j) = {}))"

text \<open>The table at page \<open>p\<close> has the children \<open>f\<close>.\<close>

definition rep_table :: "usize \<Rightarrow> (usize \<Rightarrow> ptree) \<Rightarrow> (usize \<Rightarrow> usize) \<Rightarrow> bool" where
  "rep_table p f mm \<longleftrightarrow> p \<noteq> 0 \<and> pg p = p \<and>
     (\<forall>i < 512. rep (f i) mm (mm (entry_add p i)) \<and> p \<notin> pages (f i)) \<and>
     (\<forall>i < 512. \<forall>j < 512. i \<noteq> j \<longrightarrow> pages (f i) \<inter> pages (f j) = {})"

lemma rep_Tab:
  "rep (Tab p f) mm e \<longleftrightarrow>
     is_valid e \<and> is_branch e \<and> entry_table e = p \<and> rep_table p f mm"
  using pg_entry_table by (auto simp: rep_table_def)

declare rep.simps(3) [simp del]

lemma rep_pages: "rep t mm e \<Longrightarrow> p \<in> pages t \<Longrightarrow> pg p = p \<and> p \<noteq> 0"
proof (induction t arbitrary: e)
  case (Tab q f)
  show ?case
  proof (cases "p = q")
    case True
    with Tab.prems(1) show ?thesis by (simp add: rep_Tab rep_table_def)
  next
    case False
    then obtain i where "i < 512" "p \<in> pages (f i)" using Tab.prems(2) by auto
    then show ?thesis using Tab.IH [of "f i"] Tab.prems(1) by (auto simp: rep_Tab rep_table_def)
  qed
qed auto

lemma rep_frame:
  "rep t mm e \<Longrightarrow> (\<And>a. pg a \<in> pages t \<Longrightarrow> mm' a = mm a) \<Longrightarrow> rep t mm' e"
proof (induction t arbitrary: e)
  case (Tab q f)
  have tab: "rep_table q f mm" using Tab.prems(1) by (simp add: rep_Tab)
  have "rep (f i) mm' (mm' (entry_add q i))" if i: "i < 512" for i
  proof -
    have "rep (f i) mm (mm (entry_add q i))" using tab i by (simp add: rep_table_def)
    moreover have "mm' (entry_add q i) = mm (entry_add q i)"
      using Tab.prems(2) tab i by (simp add: rep_table_def pg_entry_add)
    moreover have "mm' a = mm a" if "pg a \<in> pages (f i)" for a
      using Tab.prems(2) that i by auto
    ultimately show ?thesis using Tab.IH by auto
  qed
  with Tab.prems(1) tab show ?case by (simp add: rep_Tab rep_table_def)
qed auto

text \<open>Replacing one child: the rest of the table is untouched if only the child's pages, its cell and
  new pages are written.\<close>

lemma rep_table_update:
  assumes tab: "rep_table p f mm" and i: "i < 512"
    and child: "rep t mm' (mm' (entry_add p i))"
    and sub: "pages t \<subseteq> pages (f i) \<union> new"
    and new: "p \<notin> new" "\<And>j. j < 512 \<Longrightarrow> pages (f j) \<inter> new = {}"
    and same: "\<And>a. a \<noteq> entry_add p i \<Longrightarrow> pg a \<notin> pages (f i) \<Longrightarrow> pg a \<notin> new \<Longrightarrow> mm' a = mm a"
  shows "rep_table p (f(i := t)) mm'"
proof -
  have other: "rep (f j) mm' (mm' (entry_add p j))" if j: "j < 512" "j \<noteq> i" for j
  proof -
    have disj: "pages (f i) \<inter> pages (f j) = {}" using tab i j by (simp add: rep_table_def)
    have "pg (entry_add p j) = p" using tab j by (simp add: rep_table_def pg_entry_add)
    moreover have "p \<notin> pages (f i)" using tab i by (simp add: rep_table_def)
    ultimately have "mm' (entry_add p j) = mm (entry_add p j)"
      using same [of "entry_add p j"] new(1) entry_add_inj [OF j(1) i] j(2) by auto
    moreover have "mm' a = mm a" if a: "pg a \<in> pages (f j)" for a
    proof (rule same)
      have "pg (entry_add p i) = p" using tab i by (simp add: rep_table_def pg_entry_add)
      then show "a \<noteq> entry_add p i" using a tab j by (auto simp: rep_table_def)
    qed (use a disj new(2) [OF j(1)] in auto)
    moreover have "rep (f j) mm (mm (entry_add p j))" using tab j by (simp add: rep_table_def)
    ultimately show ?thesis by (metis rep_frame)
  qed
  have "pages t \<inter> pages (f j) = {}" if "j < 512" "j \<noteq> i" for j
    using tab i that sub new(2) [OF that(1)] by (fastforce simp: rep_table_def)
  then show ?thesis
    using tab i child sub new(1) other by (auto simp: rep_table_def)
qed

end
