(* ===== verification/Page_Map.thy ===== *)
theory Page_Map
  imports Paging
begin

text \<open>
  Correctness of the page tables: \<open>map\<close> in memory implements the update of a tree, \<open>virt_to_phys\<close> its
  lookup. The locale \<open>page_map\<close> states what the rest of the kernel relies on (a map from pages to
  frames), with the loop over consecutive pages proved once against it; the interpretation \<open>pt\<close>
  provides it by the code's \<open>map\<close> and \<open>virt_to_phys\<close>.
\<close>

section \<open>Mapping implements the update\<close>

lemma pages_tupdate: "\<forall>i \<in> set is. i < 512 \<Longrightarrow> pages (tupdate is e qs t) \<subseteq> pages t \<union> set qs"
proof (induction "is" e qs t rule: tupdate.induct)
  case (2 i "is" e qs p f)
  show ?case
  proof
    fix x assume "x \<in> pages (tupdate (i # is) e qs (Tab p f))"
    then consider "x = p" | j where "j < 512" "x \<in> pages ((f(i := tupdate is e qs (f i))) j)" by auto
    then show "x \<in> pages (Tab p f) \<union> set qs"
      using 2 by cases (auto split: if_splits)
  qed
next
  case (3 i "is" e q qs)
  show ?case
  proof
    fix x assume "x \<in> pages (tupdate (i # is) e (q # qs) Inv)"
    then consider "x = q" | j where "j < 512" "x \<in> pages (((\<lambda>_. Inv)(i := tupdate is e qs Inv)) j)"
      by auto
    then show "x \<in> pages Inv \<union> set (q # qs)"
      using 3 by cases (auto split: if_splits)
  qed
qed auto

text \<open>What the heap answers next are the pages \<open>qs\<close>: aligned, not null, distinct and not in \<open>S\<close>.\<close>

definition heap_gives :: "machine \<Rightarrow> usize list \<Rightarrow> usize set \<Rightarrow> bool" where
  "heap_gives m qs S \<longleftrightarrow>
     (\<forall>k < length qs. heap_script m (n_alloc m + k) = Some (qs ! k)) \<and> distinct qs \<and>
     (\<forall>q \<in> set qs. pg q = q \<and> q \<noteq> 0 \<and> q \<notin> S)"

text \<open>The memory and the allocator after \<open>m\<close> has become \<open>m'\<close>: only cells of \<open>C\<close> and of the pages
  \<open>P\<close> are written and \<open>n\<close> blocks are allocated.\<close>

definition writes :: "usize set \<Rightarrow> usize set \<Rightarrow> nat \<Rightarrow> machine \<Rightarrow> machine \<Rightarrow> bool" where
  "writes C P n m m' \<longleftrightarrow>
     (\<forall>a. a \<notin> C \<longrightarrow> pg a \<notin> P \<longrightarrow> mem m' a = mem m a) \<and>
     n_alloc m' = n_alloc m + n \<and> heap_script m' = heap_script m \<and> csrs m' = csrs m"

definition walk_set :: "usize \<Rightarrow> nat list \<Rightarrow> usize \<Rightarrow> usize \<Rightarrow> machine \<Rightarrow> ('e, unit) result \<times> machine" where
  "walk_set vaddr lv v e m =
     (case map_walk vaddr lv v m of
        (Ok v', m1) \<Rightarrow> (Ok (), set_entry v' e m1)
      | (Err e, m1) \<Rightarrow> (Err e, m1)
      | (Panic s, m1) \<Rightarrow> (Panic s, m1))"

lemma map_pt_walk_set:
  "bits AND 0xe \<noteq> 0 \<Longrightarrow> map_pt root vaddr paddr bits level m =
     walk_set vaddr (rev [level ..< LEVELS - 1]) (entry_add root (vpn vaddr (LEVELS - 1)))
       (leaf_entry paddr bits) m"
  by (simp add: map_pt_def walk_set_def)

lemma enc_valid_branch:
  assumes "pg q = q"
  shows "is_valid (drop_bit 2 q OR eb_val EB_V)" "is_branch (drop_bit 2 q OR eb_val EB_V)"
proof -
  have q: "\<not> bit q n" if "n < 12" for n using assms that unfolding pg_iff by blast
  show "is_valid (drop_bit 2 q OR eb_val EB_V)" by (simp add: is_valid_bit bit_or_iff)
  have x: "(0xe :: usize) = push_bit 1 (mask 3)" by (simp add: mask_eq_exp_minus_1)
  have e: "bit (0xe :: usize) n \<longleftrightarrow> 1 \<le> n \<and> n < 4" for n
    unfolding x bit_push_bit_iff bit_mask_iff by auto
  have "(drop_bit 2 q OR 1) AND 0xe = 0"
  proof (rule bit_word_eqI)
    fix n
    show "bit ((drop_bit 2 q OR 1) AND 0xe) n = bit (0 :: usize) n"
      using q [of "2 + n"] unfolding bit_and_iff bit_or_iff bit_drop_bit_eq e bit_1_iff o_apply
      by auto
  qed
  then show "is_branch (drop_bit 2 q OR eb_val EB_V)" by (simp add: is_branch_def is_leaf_def)
qed

text \<open>The allocation in an invalid entry makes an empty table.\<close>

lemma new_table:
  assumes inv: "\<not> is_valid (mem m v)" and q: "heap_script m (n_alloc m) = Some q"
    "pg q = q" "q \<noteq> 0" "pg v \<noteq> q"
  defines "m1 \<equiv> (case alloc_zeroed (0x1000, 0x1000) m of (page, m') \<Rightarrow>
             set_entry v (drop_bit 2 page OR eb_val EB_V) m')"
  shows "rep (Tab q (\<lambda>_. Inv)) (mem m1) (mem m1 v)" "writes {v} {q} 1 m m1"
proof -
  have m1: "mem m1 = (\<lambda>a. if pg a = q then 0 else mem m a)(v := drop_bit 2 q OR eb_val EB_V)"
    "n_alloc m1 = n_alloc m + 1" "heap_script m1 = heap_script m" "csrs m1 = csrs m"
    using q pg_block [OF q(2)]
    by (simp_all add: m1_def alloc_zeroed_def alloc_eq set_entry_def del: eb_val.simps cong: if_cong)
  have "mem m1 (entry_add q i) = 0" if "i < 512" for i
    using that q m1(1) pg_entry_add [OF q(2) that] by auto
  then show "rep (Tab q (\<lambda>_. Inv)) (mem m1) (mem m1 v)"
    using q m1(1) enc_valid_branch [OF q(2)] entry_table_enc [OF q(2)]
    by (simp add: rep_Tab rep_table_def is_valid_bit)
  show "writes {v} {q} 1 m m1" using m1 by (simp add: writes_def)
qed

lemma rep_Tab_cell:
  assumes "rep (Tab p f) mm e" "i < 512"
  shows "rep (f i) mm (mm (entry_add p i))" "pg (entry_add p i) = p" "entry_add p i \<noteq> 0"
    "p \<notin> pages (f i)" "entry_table e = p" "is_valid e" "is_branch e" "p \<noteq> 0" "rep_table p f mm"
  using assms pg_entry_add [of p i] by (auto simp: rep_Tab rep_table_def)

lemma writes_mono: "writes C P n m m' \<Longrightarrow> C \<subseteq> C' \<Longrightarrow> P \<subseteq> P' \<Longrightarrow> writes C' P' n m m'"
  by (auto simp: writes_def)

lemma writes_trans: "writes C P n m m' \<Longrightarrow> writes C P k m' m'' \<Longrightarrow> writes C P (n + k) m m''"
  by (auto simp: writes_def)

lemma writes_cell:
  assumes "writes {c} P n m m'" "pg c \<in> P'" "P \<subseteq> P'"
  shows "writes C P' n m m'"
proof -
  have "mem m' a = mem m a" if "pg a \<notin> P'" for a
  proof -
    have "a \<noteq> c" "pg a \<notin> P" using that assms(2,3) by auto
    then show ?thesis using assms(1) by (simp add: writes_def)
  qed
  then show ?thesis using assms(1) by (simp add: writes_def)
qed

definition path_of :: "usize \<Rightarrow> nat list \<Rightarrow> usize list" where
  "path_of vaddr lv = map (vpn vaddr) lv"

lemma path_of_simps [simp]:
  "path_of a [] = []" "path_of a (i # is) = vpn a i # path_of a is"
  "length (path_of a lv) = length lv" "\<forall>i \<in> set (path_of a lv). i < 512"
  by (auto simp: path_of_def vpn_less)


lemma map_walk_Tab:
  assumes "rep (Tab p f) (mem m) (mem m v)"
  shows "map_walk vaddr (i # is) v m = map_walk vaddr is (entry_add p (vpn vaddr i)) m"
  using rep_Tab_cell [OF assms vpn_less [of vaddr i]]
  by (simp add: get_entry_def is_invalid_def Let_def)

lemma map_walk_Inv:
  assumes "\<not> is_valid (mem m v)"
  defines "m1 \<equiv> (case alloc_zeroed (0x1000, 0x1000) m of (page, m') \<Rightarrow>
             set_entry v (drop_bit 2 page OR eb_val EB_V) m')"
  assumes "is_valid (mem m1 v)"
  shows "map_walk vaddr (i # is) v m = map_walk vaddr (i # is) v m1"
  using assms(1,3) unfolding m1_def
  by (simp add: get_entry_def is_invalid_def Let_def)

lemma heap_gives_mono: "heap_gives m qs S \<Longrightarrow> S' \<subseteq> S \<Longrightarrow> heap_gives m qs S'"
  by (auto simp: heap_gives_def)

lemma heap_gives_tl:
  assumes "heap_gives m (q # qs) S" "n_alloc m' = n_alloc m + 1" "heap_script m' = heap_script m"
  shows "heap_gives m' qs (insert q S)"
proof -
  have "heap_script m (n_alloc m + Suc k) = Some (qs ! k)" if "k < length qs" for k
    using assms(1) that by (force simp: heap_gives_def)
  then show ?thesis using assms by (auto simp: heap_gives_def)
qed

lemma heap_gives_hd:
  assumes "heap_gives m (q # qs) S"
  shows "heap_script m (n_alloc m) = Some q" "pg q = q" "q \<noteq> 0" "q \<notin> S"
proof -
  have "heap_script m (n_alloc m + 0) = Some ((q # qs) ! 0)"
    using assms(1) unfolding heap_gives_def by (metis length_greater_0_conv list.discI)
  then show "heap_script m (n_alloc m) = Some q" by simp
qed (use assms(1) in \<open>auto simp: heap_gives_def\<close>)

text \<open>The walk of \<open>map\<close> with the write of the leaf implements \<open>tupdate\<close>.\<close>

lemma walk_set_refines:
  assumes "rep t (mem m) (mem m v)" "path_free t (path_of vaddr lv)"
    "missing t (path_of vaddr lv) = length qs" "heap_gives m qs (insert (pg v) (pages t))"
    "pg v \<notin> pages t" "is_valid e" "is_leaf e"
  shows "\<exists>m'. walk_set vaddr lv v e m = (Ok () :: ('e, unit) result, m') \<and>
    rep (tupdate (path_of vaddr lv) e qs t) (mem m') (mem m' v) \<and>
    writes {v} (pages t \<union> set qs) (length qs) m m'"
  using assms(1-5)
proof (induction lv arbitrary: t m v qs)
  case Nil
  then have "qs = []" by (cases t) auto
  with assms(6,7) show ?case by (auto simp: walk_set_def set_entry_def writes_def)
next
  case (Cons i lv)
  have table: "\<exists>m'. walk_set vaddr (i # lv) v e m = (Ok () :: ('e, unit) result, m') \<and>
      rep (tupdate (path_of vaddr (i # lv)) e qs (Tab p f)) (mem m') (mem m' v) \<and>
      writes {entry_add p (vpn vaddr i)} (pages (f (vpn vaddr i)) \<union> set qs) (length qs) m m'"
    if t: "rep (Tab p f) (mem m) (mem m v)" "path_free (Tab p f) (path_of vaddr (i # lv))"
      "missing (Tab p f) (path_of vaddr (i # lv)) = length qs"
      "heap_gives m qs (insert (pg v) (pages (Tab p f)))" "pg v \<notin> pages (Tab p f)" for p f m qs
  proof -
    let ?i = "vpn vaddr i"
    let ?t = "tupdate (path_of vaddr lv) e qs (f ?i)"
    note cell = rep_Tab_cell [OF t(1) vpn_less [of vaddr i]]
    have new: "heap_gives m qs (insert (pg (entry_add p ?i)) (pages (f ?i)))"
      by (rule heap_gives_mono [OF t(4)]) (use cell(2) vpn_less in auto)
    obtain m' where m': "walk_set vaddr lv (entry_add p ?i) e m = (Ok () :: ('e, unit) result, m')"
        "rep ?t (mem m') (mem m' (entry_add p ?i))"
        "writes {entry_add p ?i} (pages (f ?i) \<union> set qs) (length qs) m m'"
      using Cons.IH [OF cell(1) _ _ new] t(2,3) cell(2,4) by auto
    have pgs: "q \<notin> set qs" if "q \<in> insert (pg v) (pages (Tab p f))" for q
      using t(4) that by (auto simp: heap_gives_def)
    have tab: "rep_table p (f(?i := ?t)) (mem m')"
    proof (rule rep_table_update [OF cell(9) vpn_less m'(2)])
      show "pages ?t \<subseteq> pages (f ?i) \<union> set qs" by (rule pages_tupdate) simp
      show "p \<notin> set qs" using pgs by auto
      show "pages (f j) \<inter> set qs = {}" if "j < 512" for j using pgs that by auto
    qed (use m'(3) in \<open>auto simp: writes_def\<close>)
    have "pg v \<notin> pages (f ?i) \<union> set qs" "pg v \<noteq> p" using t(5) pgs vpn_less by auto
    moreover from this have "v \<noteq> entry_add p ?i" using cell(2) by metis
    ultimately have "mem m' v = mem m v" using m'(3) by (simp add: writes_def)
    then have "rep (Tab p (f(?i := ?t))) (mem m') (mem m' v)"
      using cell tab by (simp add: rep_Tab)
    moreover have "walk_set vaddr (i # lv) v e m = (Ok () :: ('e, unit) result, m')"
      using m'(1) by (simp only: walk_set_def map_walk_Tab [OF t(1)])
    ultimately show ?thesis using m'(3) by auto
  qed
  show ?case
  proof (cases t)
    case (Tab p f)
    have "pages (f (vpn vaddr i)) \<union> set qs \<subseteq> pages t \<union> set qs" "pg (entry_add p (vpn vaddr i)) = p"
      using Tab vpn_less rep_Tab_cell(2) [OF _ vpn_less] Cons.prems(1) by auto
    then have "writes {v} (pages t \<union> set qs) n m m'"
      if "writes {entry_add p (vpn vaddr i)} (pages (f (vpn vaddr i)) \<union> set qs) n m m'" for n m'
      using writes_cell [OF that, of "pages t \<union> set qs" "{v}"] Tab by simp
    then show ?thesis using table [of p f m qs] Cons.prems Tab by blast
  next
    case Inv
    then obtain q qs' where qs: "qs = q # qs'" using Cons.prems(3) by (cases qs) auto
    define m1 where "m1 = (case alloc_zeroed (0x1000, 0x1000) m of (page, m') \<Rightarrow>
             set_entry v (drop_bit 2 page OR eb_val EB_V) m')"
    note q = heap_gives_hd [OF Cons.prems(4) [unfolded qs]]
    have v: "pg v \<noteq> q" using q(4) by auto
    have inv: "\<not> is_valid (mem m v)" using Cons.prems(1) Inv by simp
    have new: "rep (Tab q (\<lambda>_. Inv)) (mem m1) (mem m1 v)" "writes {v} {q} 1 m m1"
      unfolding m1_def using new_table [OF inv q(1-3) v] .
    have gives: "heap_gives m1 qs' (insert (pg v) (pages (Tab q (\<lambda>_. Inv))))"
      using heap_gives_tl [OF Cons.prems(4) [unfolded qs], of m1] new(2) Inv
      by (auto simp: writes_def insert_commute)
    obtain m' where m': "walk_set vaddr (i # lv) v e m1 = (Ok () :: ('e, unit) result, m')"
      "rep (tupdate (path_of vaddr (i # lv)) e qs' (Tab q (\<lambda>_. Inv))) (mem m') (mem m' v)"
      "writes {entry_add q (vpn vaddr i)} (set qs') (length qs') m1 m'"
      using table [OF new(1) _ _ gives] Cons.prems(3) Inv qs v by auto
    have "walk_set vaddr (i # lv) v e m = (Ok () :: ('e, unit) result, m')"
      using m'(1) rep_Tab_cell(6) [OF new(1) vpn_less] unfolding m1_def
      by (simp only: walk_set_def map_walk_Inv [OF inv])
    moreover have "pg (entry_add q (vpn vaddr i)) = q"
      using rep_Tab_cell(2) [OF new(1) vpn_less] .
    then have "writes {v} (set qs) (length qs') m1 m'"
      by (intro writes_cell [OF m'(3)]) (use qs in auto)
    then have "writes {v} (pages t \<union> set qs) (length qs) m m'"
      using new(2) qs by (auto simp: writes_def)
    ultimately show ?thesis using m'(2) Inv qs by auto
  qed (use Cons.prems in auto)
qed


section \<open>Translation implements lookup\<close>

text \<open>No table hangs below level 0.\<close>

fun shallow :: "nat \<Rightarrow> ptree \<Rightarrow> bool" where
  "shallow 0 (Tab p f) = False"
| "shallow (Suc n) (Tab p f) = (\<forall>i < 512. shallow n (f i))"
| "shallow n t = True"

lemma shallow_tupdate:
  "shallow (length is) t \<Longrightarrow> shallow (length is) (tupdate is e qs t)"
  by (induction "is" e qs t rule: tupdate.induct) auto

text \<open>The address a leaf \<open>e\<close> at level \<open>k\<close> gives for \<open>vaddr\<close>.\<close>

definition leaf_addr :: "usize \<Rightarrow> nat \<Rightarrow> usize \<Rightarrow> usize" where
  "leaf_addr e k vaddr =
     (let off_mask = push_bit (12 + k * 9) 1 - 1
      in push_bit 2 e AND NOT off_mask OR vaddr AND off_mask)"

definition translate :: "ptree \<Rightarrow> usize list \<Rightarrow> usize \<Rightarrow> usize option" where
  "translate t path vaddr = map_option (\<lambda>(e, k). leaf_addr e k vaddr) (tlookup t path)"

lemma v2p_walk_refines:
  "rep t (mem m) (mem m v) \<Longrightarrow> shallow n t \<Longrightarrow>
   v2p_walk vaddr (rev [0 ..< Suc n]) v m =
     Ok (translate t (path_of vaddr (rev [0 ..< n])) vaddr)"
proof (induction n arbitrary: t v)
  case 0
  then show ?case
    by (cases t) (auto simp: get_entry_def is_invalid_def translate_def leaf_addr_def Let_def)
next
  case (Suc n)
  show ?case
  proof (cases t)
    case (Tab p f)
    note cell = rep_Tab_cell [OF Suc.prems(1) [unfolded Tab] vpn_less [of vaddr n]]
    have "shallow n (f (vpn vaddr n))" using Suc.prems(2) Tab vpn_less by simp
    then show ?thesis
      using Suc.IH [OF cell(1)] cell Tab
      by (simp add: get_entry_def is_invalid_def is_branch_def Let_def translate_def)
  qed (use Suc.prems in \<open>auto simp: get_entry_def is_invalid_def translate_def leaf_addr_def Let_def\<close>)
qed

section \<open>A whole table\<close>

definition vpath :: "usize \<Rightarrow> usize list" where
  "vpath vaddr = path_of vaddr [2, 1, 0]"

text \<open>The table at \<open>root\<close> represents the tree \<open>t\<close>.\<close>

definition pt_rep :: "usize \<Rightarrow> ptree \<Rightarrow> machine \<Rightarrow> bool" where
  "pt_rep root t m \<longleftrightarrow> (\<exists>f. t = Tab root f \<and> rep_table root f (mem m) \<and> shallow 3 t)"

lemma virt_to_phys_refines:
  assumes "pt_rep root t m"
  shows "virt_to_phys root vaddr m = Ok (translate t (vpath vaddr) vaddr)"
proof -
  obtain f where f: "t = Tab root f" "rep_table root f (mem m)" "shallow 3 t"
    using assms by (auto simp: pt_rep_def)
  let ?i = "vpn vaddr 2"
  have i: "rep (f ?i) (mem m) (mem m (entry_add root ?i))" "shallow 2 (f ?i)"
    using f vpn_less by (auto simp: rep_table_def numeral_eq_Suc)
  have l: "rev [0 ..< Suc 2] = rev [0 ..< LEVELS]" "rev [0 ..< 2] = [1, 0 :: nat]"
    by (simp_all add: LEVELS_def upt_rec)
  show ?thesis
    using v2p_walk_refines [OF i, of vaddr] f(1) unfolding l
    by (simp add: virt_to_phys_def vpath_def translate_def)
qed

lemma map_pt_refines:
  assumes "pt_rep root t m" "path_free t (vpath vaddr)" "missing t (vpath vaddr) = length qs"
    "heap_gives m qs (pages t)" "bits AND 0xe \<noteq> 0"
  shows "\<exists>m'. map_pt root vaddr paddr bits 0 m = (Ok () :: ('e, unit) result, m') \<and>
    pt_rep root (tupdate (vpath vaddr) (leaf_entry paddr bits) qs t) m' \<and>
    writes {} (pages t \<union> set qs) (length qs) m m'"
proof -
  obtain f where f: "t = Tab root f" "rep_table root f (mem m)" "shallow 3 t"
    using assms(1) by (auto simp: pt_rep_def)
  let ?i = "vpn vaddr 2" and ?e = "leaf_entry paddr bits"
  let ?t = "tupdate (path_of vaddr [1, 0]) ?e qs (f ?i)"
  have i: "rep (f ?i) (mem m) (mem m (entry_add root ?i))" and pgi: "pg (entry_add root ?i) = root"
    and ni: "root \<notin> pages (f ?i)"
    using f vpn_less pg_entry_add [of root ?i] by (auto simp: rep_table_def)
  have new: "heap_gives m qs (insert (pg (entry_add root ?i)) (pages (f ?i)))"
    by (rule heap_gives_mono [OF assms(4)]) (use f pgi vpn_less in auto)
  have l: "rev [0 ..< LEVELS - 1] = [1, 0 :: nat]" "LEVELS - 1 = 2"
    by (simp_all add: LEVELS_def upt_rec)
  obtain m' where m': "walk_set vaddr [1, 0] (entry_add root ?i) ?e m = (Ok () :: ('e, unit) result, m')"
     "rep ?t (mem m') (mem m' (entry_add root ?i))"
     "writes {entry_add root ?i} (pages (f ?i) \<union> set qs) (length qs) m m'"
    using walk_set_refines [OF i _ _ new, of vaddr "[1, 0]" ?e] assms(2,3) f(1) pgi ni
      leaf_entry_valid leaf_entry_leaf [OF assms(5)]
    by (auto simp: vpath_def)
  have pgs: "q \<notin> set qs" if "q \<in> pages t" for q
    using assms(4) that by (auto simp: heap_gives_def)
  have "rep_table root (f(?i := ?t)) (mem m')"
  proof (rule rep_table_update [OF f(2) vpn_less m'(2)])
    show "pages ?t \<subseteq> pages (f ?i) \<union> set qs" by (rule pages_tupdate) (simp add: vpn_less)
    show "root \<notin> set qs" using pgs f(1) by auto
    show "pages (f j) \<inter> set qs = {}" if "j < 512" for j using pgs that f(1) by auto
  qed (use m'(3) in \<open>auto simp: writes_def\<close>)
  moreover have "shallow 3 (tupdate (vpath vaddr) ?e qs t)"
    using shallow_tupdate [of "vpath vaddr" t] f(3) by (simp add: vpath_def numeral_eq_Suc)
  ultimately have "pt_rep root (tupdate (vpath vaddr) ?e qs t) m'"
    using f(1) by (auto simp: pt_rep_def vpath_def)
  moreover have "map_pt root vaddr paddr bits 0 m = (Ok () :: ('e, unit) result, m')"
    using m'(1) map_pt_walk_set [OF assms(5)] l by metis
  moreover have "writes {} (pages t \<union> set qs) (length qs) m m'"
    by (rule writes_cell [OF m'(3)]) (use f(1) pgi vpn_less in auto)
  ultimately show ?thesis by blast
qed


section \<open>The interface: a map of pages\<close>

text \<open>
  What the users of the tables rely on. \<open>tr\<close> translates an address, \<open>ins v p\<close> maps the page of
  \<open>v\<close> to the frame of \<open>p\<close>, \<open>ok n\<close> says that the map is well-formed with room for \<open>n\<close> more pages
  and \<open>free v\<close> that no larger page covers \<open>v\<close>.
\<close>

locale page_map =
  fixes tr :: "'s \<Rightarrow> usize \<Rightarrow> usize option"
    and ins :: "usize \<Rightarrow> usize \<Rightarrow> 's \<Rightarrow> 's"
    and ok :: "nat \<Rightarrow> 's \<Rightarrow> bool"
    and free :: "'s \<Rightarrow> usize \<Rightarrow> bool"
    and same :: "usize \<Rightarrow> usize \<Rightarrow> bool"
  assumes ok_ins: "ok (Suc n) s \<Longrightarrow> free s v \<Longrightarrow> ok n (ins v p s)"
    and free_ins: "ok (Suc n) s \<Longrightarrow> free s v \<Longrightarrow> free s w \<Longrightarrow> free (ins v p s) w"
    and tr_same: "ok (Suc n) s \<Longrightarrow> free s v \<Longrightarrow> same v w \<Longrightarrow> p < 2 ^ 56 \<Longrightarrow>
      tr (ins v p s) w = Some (pg p OR (w AND mask 12))"
    and tr_other: "ok (Suc n) s \<Longrightarrow> free s v \<Longrightarrow> \<not> same v w \<Longrightarrow> tr (ins v p s) w = tr s w"
begin

text \<open>The loop of \<open>map_range\<close> and \<open>id_map_range\<close>: \<open>n\<close> consecutive pages.\<close>

fun ins_pages :: "nat \<Rightarrow> usize \<Rightarrow> usize \<Rightarrow> 's \<Rightarrow> 's" where
  "ins_pages 0 v p s = s"
| "ins_pages (Suc n) v p s = ins_pages n (v + 4096) (p + 4096) (ins v p s)"

lemma ins_pages_ok:
  "ok (n + k) s \<Longrightarrow> (\<And>j. j < n \<Longrightarrow> free s (v + 4096 * of_nat j)) \<Longrightarrow> ok k (ins_pages n v p s)"
proof (induction n arbitrary: v p s)
  case (Suc n)
  have v: "free s v" using Suc.prems(2) [of 0] by simp
  have "free (ins v p s) (v + 4096 + 4096 * of_nat j)" if "j < n" for j
    using free_ins [OF _ v] Suc.prems(1) Suc.prems(2) [of "Suc j"] that
    by (simp add: algebra_simps)
  then show ?case using Suc.IH [of "ins v p s"] ok_ins [OF _ v] Suc.prems(1) by simp
qed simp

lemma ins_pages_other:
  "ok n s \<Longrightarrow> (\<And>j. j < n \<Longrightarrow> free s (v + 4096 * of_nat j)) \<Longrightarrow>
   (\<And>j. j < n \<Longrightarrow> \<not> same (v + 4096 * of_nat j) w) \<Longrightarrow> tr (ins_pages n v p s) w = tr s w"
proof (induction n arbitrary: v p s)
  case (Suc n)
  have v: "free s v" "\<not> same v w" using Suc.prems(2) [of 0] Suc.prems(3) [of 0] by simp_all
  have "free (ins v p s) (v + 4096 + 4096 * of_nat j)" if "j < n" for j
    using free_ins [OF _ v(1)] Suc.prems(1) Suc.prems(2) [of "Suc j"] that
    by (simp add: algebra_simps)
  moreover have "\<not> same (v + 4096 + 4096 * of_nat j) w" if "j < n" for j
    using Suc.prems(3) [of "Suc j"] that by (simp add: algebra_simps)
  ultimately have "tr (ins_pages n (v + 4096) (p + 4096) (ins v p s)) w = tr (ins v p s) w"
    using Suc.IH [of "ins v p s"] ok_ins [OF _ v(1)] Suc.prems(1) by blast
  then show ?case using tr_other [OF Suc.prems(1) v] by simp
qed simp

text \<open>After the loop every page of the range translates to its frame.\<close>

lemma ins_pages_tr:
  "ok n s \<Longrightarrow> (\<And>j. j < n \<Longrightarrow> free s (v + 4096 * of_nat j)) \<Longrightarrow>
   (\<And>i j. i < n \<Longrightarrow> j < n \<Longrightarrow> same (v + 4096 * of_nat i) w \<Longrightarrow> same (v + 4096 * of_nat j) w \<Longrightarrow> i = j) \<Longrightarrow>
   k < n \<Longrightarrow> same (v + 4096 * of_nat k) w \<Longrightarrow> p + 4096 * of_nat k < 2 ^ 56 \<Longrightarrow>
   tr (ins_pages n v p s) w = Some (pg (p + 4096 * of_nat k) OR (w AND mask 12))"
proof (induction n arbitrary: v p s k)
  case (Suc n)
  have v: "free s v" using Suc.prems(2) [of 0] by simp
  have ok': "ok n (ins v p s)" using ok_ins [OF Suc.prems(1) v] .
  have free': "free (ins v p s) (v + 4096 + 4096 * of_nat j)" if "j < n" for j
    using free_ins [OF _ v] Suc.prems(1) Suc.prems(2) [of "Suc j"] that
    by (simp add: algebra_simps)
  have shift: "v + 4096 + 4096 * of_nat j = v + 4096 * of_nat (Suc j)" for j
    by (simp add: algebra_simps)
  show ?case
  proof (cases k)
    case 0
    have "tr (ins_pages n (v + 4096) (p + 4096) (ins v p s)) w = tr (ins v p s) w"
    proof (rule ins_pages_other [OF ok' free'])
      fix j assume "j < n"
      then show "\<not> same (v + 4096 + 4096 * of_nat j) w"
        using Suc.prems(3) [of 0 "Suc j"] Suc.prems(5) 0 unfolding shift by auto
    qed simp_all
    then show ?thesis using tr_same [OF Suc.prems(1) v] Suc.prems(5,6) 0 by simp
  next
    case (Suc k')
    have "p + 4096 + 4096 * of_nat k' = p + 4096 * of_nat k" using Suc by (simp add: algebra_simps)
    moreover have "i = j" if "i < n" "j < n" "same (v + 4096 + 4096 * of_nat i) w"
      "same (v + 4096 + 4096 * of_nat j) w" for i j
      using Suc.prems(3) [of "Suc i" "Suc j"] that unfolding shift by simp
    ultimately show ?thesis
      using Suc.IH [OF ok' free', of k' "p + 4096"] Suc.prems(4-6) Suc shift
      by (simp add: add.assoc)
  qed
qed simp

end


section \<open>The tables provide the interface\<close>

lemma rep_unique:
  "rep t mm e \<Longrightarrow> rep t' mm e \<Longrightarrow> \<forall>i \<in> set is. i < 512 \<Longrightarrow>
   path_free t is = path_free t' is \<and> tlookup t is = tlookup t' is"
proof (induction t arbitrary: e t' "is")
  case (Tab p f)
  then obtain f' where t': "t' = Tab p f'" by (cases t') (auto simp: rep_Tab is_branch_def)
  show ?case
  proof (cases "is")
    case (Cons i is')
    have "rep (f i) mm (mm (entry_add p i))" "rep (f' i) mm (mm (entry_add p i))"
      using rep_Tab_cell(1) Tab.prems t' Cons by auto
    then show ?thesis using Tab.IH [of "f i" _ "f' i" is'] Tab.prems(3) t' Cons by simp
  qed (simp add: t')
next
  case Inv
  then show ?case by (cases t') (auto simp: rep_Tab)
next
  case (Leaf x)
  then show ?case by (cases t') (auto simp: rep_Tab is_branch_def)
qed

lemma vpath_less: "\<forall>i \<in> set (vpath w). i < 512" "length (vpath w) = 3"
  by (simp_all add: vpath_def vpn_less)

lemma pt_rep_unique:
  assumes "pt_rep root t m" "pt_rep root t' m"
  shows "path_free t (vpath w) = path_free t' (vpath w)"
proof -
  obtain f f' where f: "t = Tab root f" "t' = Tab root f'" "rep_table root f (mem m)"
      "rep_table root f' (mem m)" using assms by (auto simp: pt_rep_def)
  let ?i = "vpn w 2"
  have "rep (f ?i) (mem m) (mem m (entry_add root ?i))" "rep (f' ?i) (mem m) (mem m (entry_add root ?i))"
    using f(3,4) vpn_less by (auto simp: rep_table_def)
  then show ?thesis using rep_unique [of "f ?i" "mem m" _ "f' ?i" "path_of w [1, 0]"] f(1,2)
    by (simp add: vpath_def vpn_less)
qed

lemma path_free_tupdate:
  "path_free t is \<Longrightarrow> path_free t js \<Longrightarrow> missing t is \<le> length qs \<Longrightarrow> length js = length is \<Longrightarrow>
   path_free (tupdate is e qs t) js"
proof (induction "is" e qs t arbitrary: js rule: tupdate.induct)
  case (2 i "is" e qs p f)
  then show ?case by (cases js) auto
next
  case (3 i "is" e q qs)
  then show ?case by (cases js) auto
qed auto

lemma heap_gives_append:
  assumes "heap_gives m (qs @ rs) S" "n_alloc m' = n_alloc m + length qs" "heap_script m' = heap_script m"
  shows "heap_gives m' rs (S \<union> set qs)"
proof -
  have n: "heap_script m (n_alloc m + k) = Some ((qs @ rs) ! k)" if "k < length qs + length rs" for k
    using assms(1) that by (simp add: heap_gives_def)
  have "heap_script m (n_alloc m + length qs + k) = Some (rs ! k)" if "k < length rs" for k
    using n [of "length qs + k"] that by (simp add: add.assoc)
  then show ?thesis using assms by (auto simp: heap_gives_def)
qed

lemma heap_gives_prefix: "heap_gives m (qs @ rs) S \<Longrightarrow> heap_gives m qs S"
  by (auto simp: heap_gives_def nth_append)

text \<open>A table at \<open>root\<close> with room for \<open>n\<close> more mappings (each takes at most two new pages), and an
  address that no larger page covers.\<close>

definition pt_ok :: "usize \<Rightarrow> nat \<Rightarrow> machine \<Rightarrow> bool" where
  "pt_ok root n m \<longleftrightarrow>
     (\<exists>t qs. pt_rep root t m \<and> 2 * n \<le> length qs \<and> heap_gives m qs (pages t))"

definition pt_free :: "usize \<Rightarrow> machine \<Rightarrow> usize \<Rightarrow> bool" where
  "pt_free root m v \<longleftrightarrow> (\<exists>t. pt_rep root t m \<and> path_free t (vpath v))"

definition flags_ok :: "usize \<Rightarrow> bool" where
  "flags_ok bits \<longleftrightarrow> bits AND 0xe \<noteq> 0 \<and> bits < 2 ^ 10"

lemma missing_le: "missing t is \<le> length is"
  by (induction t "is" rule: missing.induct) auto

text \<open>One call of \<open>map\<close>, with everything the interface asks for.\<close>

lemma map_pt_step:
  assumes "pt_ok root (Suc n) m" "pt_free root m v" "flags_ok bits"
  obtains t qs m' where "pt_rep root t m" "path_free t (vpath v)" "missing t (vpath v) \<le> length qs"
    "map_pt root v p bits 0 m = (Ok () :: ('e, unit) result, m')"
    "pt_rep root (tupdate (vpath v) (leaf_entry p bits) qs t) m'" "pt_ok root n m'" 
    "csrs m' = csrs m"
proof -
  obtain t qs0 where t: "pt_rep root t m" "2 * Suc n \<le> length qs0" "heap_gives m qs0 (pages t)"
    using assms(1) by (auto simp: pt_ok_def)
  have pf: "path_free t (vpath v)" using assms(2) pt_rep_unique [OF t(1)] by (auto simp: pt_free_def)
  define k where "k = missing t (vpath v)"
  define qs rs where "qs = take k qs0" and "rs = drop k qs0"
  obtain f where "t = Tab root f" using t(1) by (auto simp: pt_rep_def)
  then have "k \<le> 2"
    using missing_le [of "f (vpn v 2)" "path_of v [1, 0]"] by (simp add: k_def vpath_def)
  then have k: "length qs = k" "2 * n \<le> length rs" "qs @ rs = qs0"
    using t(2) by (simp_all add: qs_def rs_def)
  have g: "heap_gives m qs (pages t)" using heap_gives_prefix [of m qs rs] t(3) k(3) by blast
  obtain m' where m': "map_pt root v p bits 0 m = (Ok () :: ('e, unit) result, m')"
      "pt_rep root (tupdate (vpath v) (leaf_entry p bits) qs t) m'"
      "writes {} (pages t \<union> set qs) (length qs) m m'"
    using map_pt_refines [OF t(1) pf _ g] k(1) assms(3) by (auto simp: k_def flags_ok_def)
  have "heap_gives m' rs (pages t \<union> set qs)"
    using heap_gives_append [of m qs rs] t(3) k(3) m'(3) by (simp add: writes_def)
  then have "heap_gives m' rs (pages (tupdate (vpath v) (leaf_entry p bits) qs t))"
    by (rule heap_gives_mono) (rule pages_tupdate [OF vpath_less(1)])
  then have "pt_ok root n m'" using m'(2) k(2) by (auto simp: pt_ok_def)
  with t(1) pf m' k(1) show ?thesis
    using that [of t qs m'] by (simp add: k_def writes_def)
qed

lemma leaf_addr_0:
  assumes "p < 2 ^ 56" "bits < 2 ^ 10"
  shows "leaf_addr (leaf_entry p bits) 0 w = pg p OR (w AND mask 12)"
proof -
  have "(push_bit 12 1 - 1 :: usize) = mask 12" by (simp add: mask_eq_exp_minus_1)
  then show ?thesis using leaf_entry_addr [OF assms] by (simp add: leaf_addr_def Let_def)
qed

definition v2p :: "usize \<Rightarrow> machine \<Rightarrow> usize \<Rightarrow> usize option" where
  "v2p root m w = (case (virt_to_phys root w m :: (unit, usize option) result) of Ok a \<Rightarrow> a | _ \<Rightarrow> None)"

definition map1 :: "usize \<Rightarrow> usize \<Rightarrow> usize \<Rightarrow> usize \<Rightarrow> machine \<Rightarrow> machine" where
  "map1 root bits v p m = snd (map_pt root v p bits 0 m :: (unit, unit) result \<times> machine)"

interpretation pt: page_map "v2p root" "map1 root bits"
  "\<lambda>n m. flags_ok bits \<and> pt_ok root n m" "pt_free root" "\<lambda>v w. vpath v = vpath w" for root bits
proof
  fix n m v p w
  assume ok: "flags_ok bits \<and> pt_ok root (Suc n) m" and free: "pt_free root m v"
  from ok have ok': "pt_ok root (Suc n) m" "flags_ok bits" by auto
  obtain t qs m' where s: "pt_rep root t m" "path_free t (vpath v)" "missing t (vpath v) \<le> length qs"
    "map_pt root v p bits 0 m = (Ok () :: (unit, unit) result, m')"
    "pt_rep root (tupdate (vpath v) (leaf_entry p bits) qs t) m'" "pt_ok root n m'"
    using map_pt_step [OF ok'(1) free ok'(2), of p thesis] by metis
  have m': "map1 root bits v p m = m'" using s(4) by (simp add: map1_def)
  show "flags_ok bits \<and> pt_ok root n (map1 root bits v p m)" using s ok m' by simp
  show "pt_free root (map1 root bits v p m) w" if "pt_free root m w"
  proof -
    have "path_free t (vpath w)" using that pt_rep_unique [OF s(1)] by (auto simp: pt_free_def)
    then have "path_free (tupdate (vpath v) (leaf_entry p bits) qs t) (vpath w)"
      using path_free_tupdate [OF s(2) _ s(3)] vpath_less(2) by simp
    then show ?thesis using s(5) m' by (auto simp: pt_free_def)
  qed
  have tr: "v2p root m' w = translate (tupdate (vpath v) (leaf_entry p bits) qs t) (vpath w) w"
    by (simp add: v2p_def virt_to_phys_refines [OF s(5)])
  show "v2p root (map1 root bits v p m) w = Some (pg p OR (w AND mask 12))"
    if "vpath v = vpath w" "p < 2 ^ 56"
    using tlookup_tupdate_same [OF s(2,3)] that tr m' leaf_addr_0 ok'(2)
    by (simp add: translate_def flags_ok_def)
  show "v2p root (map1 root bits v p m) w = v2p root m w" if "vpath v \<noteq> vpath w"
    using tlookup_tupdate_other [OF s(2,3)] that tr m' vpath_less(2)
    by (simp add: translate_def v2p_def virt_to_phys_refines [OF s(1)])
qed

section \<open>Ranges\<close>

text \<open>The virtual page number of an address: bits 12 to 38.\<close>

definition vpno :: "usize \<Rightarrow> nat" where
  "vpno a = unat a div 4096 mod 2 ^ 27"

lemma bit_vpn: "bit (vpn a i) n \<longleftrightarrow> n < 9 \<and> bit a (12 + 9 * i + n)"
  unfolding vpn_def mask_numerals by (auto simp: bit_and_iff bit_drop_bit_eq bit_mask_iff)

lemma vpn_eq_iff:
  "vpn a i = vpn b i \<longleftrightarrow> (\<forall>n < 9. bit a (12 + 9 * i + n) = bit b (12 + 9 * i + n))"
  by (metis bit_vpn bit_eqI)

lemma vpno_eq_iff: "vpno a = vpno b \<longleftrightarrow> (\<forall>n < 27. bit a (12 + n) = bit b (12 + n))"
proof -
  have t: "vpno a = take_bit 27 (drop_bit 12 (unat a))" for a
    by (simp add: vpno_def take_bit_eq_mod drop_bit_eq_div)
  have b: "bit (vpno a) n \<longleftrightarrow> n < 27 \<and> bit a (12 + n)" for a n
    unfolding t bit_take_bit_iff bit_drop_bit_eq o_apply by (auto simp: bit_unsigned_iff bit_imp_le_length)
  show ?thesis by (auto simp: bit_eq_iff b)
qed

lemma all_less_split: "(\<forall>n < k + l. P n) \<longleftrightarrow> (\<forall>n < k. P n) \<and> (\<forall>n < l. P (k + n))" for k l :: nat
  by (metis add_less_cancel_left le_add_diff_inverse less_or_eq_imp_le linorder_not_le trans_less_add1)

lemma vpath_eq_iff: "vpath a = vpath b \<longleftrightarrow> vpno a = vpno b"
proof -
  have "vpath a = vpath b \<longleftrightarrow> vpn a 0 = vpn b 0 \<and> vpn a 1 = vpn b 1 \<and> vpn a 2 = vpn b 2"
    by (auto simp: vpath_def)
  also have "\<dots> \<longleftrightarrow> (\<forall>n < 9 + (9 + 9). bit a (12 + n) = bit b (12 + n))"
    unfolding vpn_eq_iff all_less_split by (simp add: add.assoc)
  finally show ?thesis by (simp add: vpno_eq_iff)
qed

lemma vpno_add: "vpno (v + 4096 * of_nat i) = (unat v div 4096 + i) mod 2 ^ 27"
proof -
  have "unat (v + 4096 * of_nat i) = (unat v + 4096 * i) mod 2 ^ 64"
    by (simp add: unat_word_ariths unat_of_nat mod_simps)
  also have "\<dots> div 4096 mod 2 ^ 27 = (unat v + 4096 * i) div 4096 mod 2 ^ 27"
    using mod_mult2_eq [of "unat v + 4096 * i" 4096 "2 ^ 52"]
    by (simp add: mod_mod_cancel)
  finally show ?thesis by (simp add: vpno_def add.commute)
qed

lemma vpno_inj:
  assumes "vpno (v + 4096 * of_nat i) = vpno (v + 4096 * of_nat j)" "i < 2 ^ 27" "j < 2 ^ 27"
  shows "i = j"
proof -
  have "(unat v div 4096 + i) mod 2 ^ 27 = (unat v div 4096 + j) mod 2 ^ 27"
    using assms(1) by (simp only: vpno_add)
  then have "i mod 2 ^ 27 = j mod 2 ^ 27" by (simp add: mod_eq_dvd_iff_nat nat_mod_eq_iff)
  then show ?thesis using assms(2,3) by simp
qed

text \<open>The type of errors plays no role: mapping never returns one.\<close>

lemma map_walk_any:
  "map_walk vaddr lv v m = (Ok v' :: ('e, usize) result, m') \<Longrightarrow>
   map_walk vaddr lv v m = (Ok v' :: ('f, usize) result, m')"
  by (induction vaddr lv v m rule: map_walk.induct) (auto simp: Let_def split: if_splits)

lemma map_pt_any:
  "map_pt root v p bits k m = (Ok () :: ('e, unit) result, m') \<Longrightarrow>
   map_pt root v p bits k m = (Ok () :: ('f, unit) result, m')"
proof -
  let ?w = "map_walk v (rev [k ..< LEVELS - 1]) (entry_add root (vpn v (LEVELS - 1))) m"
  assume a: "map_pt root v p bits k m = (Ok () :: ('e, unit) result, m')"
  then obtain v' m1 where w: "?w = (Ok v' :: ('e, usize) result, m1)"
    and b: "m' = set_entry v' (leaf_entry p bits) m1" "bits AND 0xe \<noteq> 0"
    by (auto simp: map_pt_def split: if_splits prod.splits result.splits)
  show ?thesis by (simp only: map_pt_def map_walk_any [OF w] b if_False) simp
qed

text \<open>The loop of the source is the loop of the interface.\<close>

lemma map_pages_ins:
  assumes "pt_ok root n m" "flags_ok bits" "\<And>j. j < n \<Longrightarrow> pt_free root m (v + 4096 * of_nat j)"
  shows "map_pages n root v p bits m = (Ok (), pt.ins_pages root bits n v p m)"
  using assms
proof (induction n arbitrary: v p m)
  case (Suc n)
  have v: "pt_free root m v" using Suc.prems(3) [of 0] by simp
  obtain m' where m': "map_pt root v p bits 0 m = (Ok () :: ('b, unit) result, m')" "pt_ok root n m'"
    using map_pt_step [OF Suc.prems(1) v Suc.prems(2)] by metis
  then have "map1 root bits v p m = m'" by (simp add: map1_def map_pt_any [OF m'(1)])
  moreover have "pt_free root m' (v + 4096 + 4096 * of_nat j)" if "j < n" for j
    using pt.free_ins [of bits root n m v "v + 4096 * of_nat (Suc j)" p] calculation that v
      Suc.prems(1,2) Suc.prems(3) [of "Suc j"] by (simp add: algebra_simps)
  ultimately show ?case
    using Suc.IH [OF m'(2) Suc.prems(2), of "v + 4096" "p + 4096"]
    by (simp add: PAGE_SIZE_def map_pt_any [OF m'(1)])
qed simp

text \<open>Number of pages and addresses of a range.\<close>

lemma map_range_eq:
  assumes "pt_ok root n m" "flags_ok bits" "\<And>j. j < n \<Longrightarrow> pt_free root m (pg vaddr + 4096 * of_nat j)"
    "n = unat ((align_val (pg paddr + sz) 12 - pg paddr) div 4096)"
  shows "map_range root vaddr paddr sz bits m =
    (Ok (), pt.ins_pages root bits n (pg vaddr) (pg paddr) m)"
proof -
  have "NOT (PAGE_SIZE - 1) = NOT (mask 12)" by (simp add: PAGE_SIZE_def mask_eq_exp_minus_1)
  then show ?thesis
    by (simp only: map_range_def Let_def PAGE_SIZE_def assms(4) [symmetric]
        map_pages_ins [OF assms(1-3)])
qed


lemma virt_to_phys_v2p: "pt_ok root n m \<Longrightarrow> virt_to_phys root w m = Ok (v2p root m w)"
  by (auto simp: pt_ok_def v2p_def virt_to_phys_refines)

text \<open>Rounding to pages, on numbers that do not wrap.\<close>

lemma unat_pg: "unat (pg x) = unat x div 4096 * 4096"
proof -
  have "pg x = push_bit 12 (drop_bit 12 x)" by (auto intro!: bit_word_eqI simp: bit_simps)
  then have x: "pg x = x div 4096 * 4096" by (simp add: push_bit_eq_mult drop_bit_eq_div)
  have "unat x < 2 ^ 64" using unsigned_less [where ?'b = 64 and ?'a = nat, of x] by simp
  then have "unat x div 4096 * 4096 < 2 ^ 64" by simp
  then show ?thesis unfolding x by (simp add: unat_word_ariths unat_div)
qed

lemma unat_align_val:
  assumes "unat x + 4095 < 2 ^ 64"
  shows "unat (align_val x 12) = (unat x + 4095) div 4096 * 4096"
proof -
  have "(push_bit 12 1 - 1 :: usize) = mask 12" by (simp add: mask_eq_exp_minus_1)
  then have "align_val x 12 = pg (x + mask 12)" by (simp only: align_val_def Let_def)
  moreover have "unat (x + mask 12) = unat x + 4095"
    using assms by (simp add: mask_eq_exp_minus_1 unat_word_ariths)
  ultimately show ?thesis by (simp only: unat_pg)
qed

lemma num_pages:
  assumes "unat a div 4096 * 4096 = unat a" "unat x + 4095 < 2 ^ 64" "a \<le> x"
  shows "unat ((align_val x 12 - a) div 4096) = (unat x - unat a + 4095) div 4096"
proof -
  have "unat a \<le> unat x" using assms(3) by (simp add: word_le_nat_alt)
  obtain k where k: "unat a = k * 4096" using assms(1) by metis
  obtain d where d: "unat x = k * 4096 + d" using \<open>unat a \<le> unat x\<close> k le_Suc_ex by metis
  have al: "unat (align_val x 12) = unat a + (d + 4095) div 4096 * 4096"
    using unat_align_val [OF assms(2)] d k by (simp add: add.assoc)
  then have "a \<le> align_val x 12" by (simp add: word_le_nat_alt)
  then show ?thesis using al d k by (simp add: unat_sub unat_div)
qed


lemma pg_mult: "unat (pg x) div 4096 * 4096 = unat (pg x)"
  unfolding unat_pg by simp

lemma pg_add_nat:
  assumes "unat (pg p) + 4096 * n \<le> 2 ^ 56" "k < n"
  shows "pg (pg p + 4096 * of_nat k) = pg p + 4096 * of_nat k" "pg p + 4096 * of_nat k < 2 ^ 56"
proof -
  have s: "unat (pg p) + 4096 * k < 2 ^ 56" using assms by simp
  then have u: "unat (pg p + 4096 * of_nat k) = unat (pg p) + 4096 * k"
    by (simp add: unat_word_ariths unat_of_nat mod_simps)
  obtain c where "unat (pg p) = 4096 * c" using pg_mult [of p] by (metis mult.commute)
  then have "unat (pg p + 4096 * of_nat k) = 4096 * (c + k)" using u by simp
  then have "unat (pg p + 4096 * of_nat k) div 4096 * 4096 = unat (pg p + 4096 * of_nat k)" by simp
  then show "pg (pg p + 4096 * of_nat k) = pg p + 4096 * of_nat k"
    unfolding word_unat_eq_iff unat_pg [of "pg p + 4096 * of_nat k"] .
  show "pg p + 4096 * of_nat k < 2 ^ 56" using s u by (simp add: word_less_nat_alt)
qed

lemma map_range_maps:
  assumes ok: "pt_ok root n m" "flags_ok bits"
    and free: "\<And>j. j < n \<Longrightarrow> pt_free root m (pg vaddr + 4096 * of_nat j)"
    and n: "n = (unat sz + 4095) div 4096" "n \<le> 2 ^ 27"
    and p: "unat (pg paddr) + 4096 * n \<le> 2 ^ 56"
  defines "m' \<equiv> pt.ins_pages root bits n (pg vaddr) (pg paddr) m"
  shows "map_range root vaddr paddr sz bits m = (Ok (), m')"
    and "\<And>k w. k < n \<Longrightarrow> vpno w = vpno (pg vaddr + 4096 * of_nat k) \<Longrightarrow>
      virt_to_phys root w m' = Ok (Some ((pg paddr + 4096 * of_nat k) OR (w AND mask 12)))"
    and "\<And>w. (\<And>k. k < n \<Longrightarrow> vpno w \<noteq> vpno (pg vaddr + 4096 * of_nat k)) \<Longrightarrow>
      virt_to_phys root w m' = virt_to_phys root w m"
proof -
  have sz: "unat sz \<le> 4096 * n" using n(1) by simp
  have s: "unat (pg paddr + sz) = unat (pg paddr) + unat sz"
    using p sz by (simp add: unat_word_ariths)
  have "n = unat ((align_val (pg paddr + sz) 12 - pg paddr) div 4096)"
    using num_pages [OF pg_mult, of "pg paddr + sz" paddr] s p sz n(1)
    by (simp add: word_le_nat_alt)
  then show "map_range root vaddr paddr sz bits m = (Ok (), m')"
    unfolding m'_def by (intro map_range_eq [OF ok free])
  have ok0: "flags_ok bits \<and> pt_ok root n m" using ok by simp
  have ok': "pt_ok root 0 m'"
    using pt.ins_pages_ok [of bits root n 0 m "pg vaddr"] ok free unfolding m'_def by simp
  show "virt_to_phys root w m' = Ok (Some ((pg paddr + 4096 * of_nat k) OR (w AND mask 12)))"
    if k: "k < n" "vpno w = vpno (pg vaddr + 4096 * of_nat k)" for k w
  proof -
    have "v2p root m' w = Some (pg (pg paddr + 4096 * of_nat k) OR (w AND mask 12))"
      unfolding m'_def
    proof (rule pt.ins_pages_tr [OF ok0 free])
      fix i j assume "i < n" "j < n" "vpath (pg vaddr + 4096 * of_nat i) = vpath w"
        "vpath (pg vaddr + 4096 * of_nat j) = vpath w"
      then show "i = j" using vpno_inj [of "pg vaddr" i j] n(2) unfolding vpath_eq_iff by simp
    qed (use k pg_add_nat(2) [OF p] in \<open>simp_all add: vpath_eq_iff\<close>)
    then show ?thesis using pg_add_nat(1) [OF p k(1)] by (simp only: virt_to_phys_v2p [OF ok'])
  qed
  show "virt_to_phys root w m' = virt_to_phys root w m"
    if "\<And>k. k < n \<Longrightarrow> vpno w \<noteq> vpno (pg vaddr + 4096 * of_nat k)" for w
  proof -
    have "v2p root m' w = v2p root m w"
      unfolding m'_def
      by (rule pt.ins_pages_other [OF ok0 free]) (use that in \<open>simp_all add: vpath_eq_iff, metis\<close>)
    then show ?thesis by (simp only: virt_to_phys_v2p [OF ok'] virt_to_phys_v2p [OF ok(1)])
  qed
qed

end
