(* ===== verification/Kernel_Space.thy ===== *)
theory Kernel_Space
  imports Page_Map
begin

text \<open>
  Address spaces built from the page tables: identity mappings and the kernel's own table
  (\<open>paging::init\<close>), the freeing of tables (\<open>unmap\<close>), and the properties of single mappings and of
  ranges over the code's own \<open>virt_to_phys\<close>.
\<close>

section \<open>Identity mappings\<close>

definition range_pages :: "usize \<Rightarrow> usize \<Rightarrow> nat" where
  "range_pages start stop = (unat stop - unat (pg start) + 4095) div 4096"

lemma same_page:
  assumes "vpno a = vpno b" "a < 2 ^ 39" "b < 2 ^ 39"
  shows "pg a = pg b"
proof -
  have "unat a div 4096 < 2 ^ 27" "unat b div 4096 < 2 ^ 27"
    using assms(2,3) by (simp_all add: word_less_nat_alt)
  then have "unat a div 4096 = unat b div 4096" using assms(1) by (simp add: vpno_def)
  then show ?thesis unfolding word_unat_eq_iff unat_pg by simp
qed

lemma pg_or_mask: "pg w OR (w AND mask 12) = w"
  by (auto intro!: bit_word_eqI simp: bit_simps)

definition pt_all_free :: "usize \<Rightarrow> machine \<Rightarrow> bool" where
  "pt_all_free root m \<longleftrightarrow> (\<forall>v. pt_free root m v)"

lemma ins_pages_free:
  "flags_ok bits \<Longrightarrow> pt_ok root n m \<Longrightarrow> pt_all_free root m \<Longrightarrow>
   pt_all_free root (pt.ins_pages root bits n v p m)"
proof (induction n arbitrary: v p m)
  case (Suc n)
  then have "pt_all_free root (map1 root bits v p m)" "pt_ok root n (map1 root bits v p m)"
    using pt.free_ins pt.ok_ins by (simp_all add: pt_all_free_def)
  then show ?case using Suc by simp
qed simp

lemma pt_ok_mono: "pt_ok root n m \<Longrightarrow> k \<le> n \<Longrightarrow> pt_ok root k m"
  unfolding pt_ok_def by (meson le_trans mult_le_mono2)

text \<open>Identity mapping: the whole range, its last partial page included, translates to itself, and
  what was mapped to itself stays so.\<close>

lemma id_map_range_maps:
  assumes ok: "pt_ok root (range_pages start stop + k) m" "flags_ok bits" "pt_all_free root m"
    and b: "start \<le> stop" "stop \<le> 2 ^ 38"
  shows "\<exists>m'. id_map_range root start stop bits m = (Ok () :: ('e, unit) result, m') \<and>
    pt_ok root k m' \<and> pt_all_free root m' \<and>
    (\<forall>w. start \<le> w \<and> w < stop \<longrightarrow> v2p root m' w = Some w) \<and>
    (\<forall>w < 2 ^ 38. v2p root m w = Some w \<longrightarrow> v2p root m' w = Some w)"
proof -
  define n where "n = range_pages start stop"
  define m' where "m' = pt.ins_pages root bits n (pg start) (pg start) m"
  have le: "unat start \<le> unat stop" "unat stop \<le> 2 ^ 38"
    using b by (simp_all add: word_le_nat_alt)
  have pl: "unat (pg start) \<le> unat start" "unat start < unat (pg start) + 4096" unfolding unat_pg
    by (simp_all add: div_times_less_eq_dividend)
  have n2: "4096 * n \<le> unat stop - unat (pg start) + 4095" unfolding n_def range_pages_def by simp
  have p56: "unat (pg start) + 4096 * n \<le> 2 ^ 56" and n27: "n \<le> 2 ^ 27" using n2 le pl by simp_all
  have free: "pt_free root m v" for v using ok(3) by (simp add: pt_all_free_def)
  have okn: "flags_ok bits \<and> pt_ok root n m" using ok(2) pt_ok_mono [OF ok(1)] by (simp add: n_def)
  have cnt: "n = unat ((align_val stop 12 - pg start) div 4096)"
    using num_pages [OF pg_mult, of stop start] le pl
    by (simp add: n_def range_pages_def word_le_nat_alt)
  have "NOT (PAGE_SIZE - 1) = NOT (mask 12)" by (simp add: PAGE_SIZE_def mask_eq_exp_minus_1)
  then have run: "id_map_range root start stop bits m = (Ok () :: ('e, unit) result, m')"
    using map_pages_ins [of root n m bits "pg start" "pg start", where ?'a = 'e] okn free
    unfolding m'_def by (simp only: id_map_range_def Let_def PAGE_SIZE_def cnt [symmetric])
  have ok': "pt_ok root k m'"
    using pt.ins_pages_ok [of bits root n k m "pg start"] ok free unfolding m'_def n_def by simp
  have free': "pt_all_free root m'"
    unfolding m'_def using ins_pages_free [OF ok(2) _ ok(3)] okn by simp
  have hit: "v2p root m' w = Some w"
    if k: "j < n" "vpno w = vpno (pg start + 4096 * of_nat j)" "w < 2 ^ 38" for j w
  proof -
    have s: "unat (pg start) + 4096 * j < 2 ^ 39" using n2 le pl k(1) by simp
    then have "unat (pg start + 4096 * of_nat j) < 2 ^ 39"
      by (simp add: unat_word_ariths unat_of_nat mod_simps)
    then have "pg w = pg (pg start + 4096 * of_nat j)"
      using same_page [OF k(2)] k(3) by (simp add: word_less_nat_alt)
    then have pgw: "pg start + 4096 * of_nat j = pg w" using pg_add_nat(1) [OF p56 k(1)] by simp
    have "v2p root m' w = Some (pg (pg start + 4096 * of_nat j) OR (w AND mask 12))"
      unfolding m'_def
    proof (rule pt.ins_pages_tr [OF okn free])
      fix i j assume "i < n" "j < n" "vpath (pg start + 4096 * of_nat i) = vpath w"
        "vpath (pg start + 4096 * of_nat j) = vpath w"
      then show "i = j" using vpno_inj [of "pg start" i j] n27 unfolding vpath_eq_iff by simp
    qed (use k pg_add_nat(2) [OF p56] in \<open>simp_all add: vpath_eq_iff\<close>)
    then show ?thesis using pg_add_nat(1) [OF p56 k(1)] pgw pg_or_mask by simp
  qed
  have "v2p root m' w = Some w" if w: "start \<le> w" "w < stop" for w
  proof -
    define j where "j = unat w div 4096 - unat start div 4096"
    have lw: "unat start \<le> unat w" "unat w < unat stop"
      using w by (simp_all add: word_le_nat_alt word_less_nat_alt)
    then have d: "unat start div 4096 + j = unat w div 4096" by (simp add: j_def div_le_mono)
    then have "4096 * j \<le> unat w - unat (pg start)" unfolding unat_pg by simp
    then have "Suc j * 4096 \<le> unat stop - unat (pg start) + 4095" using lw pl by simp
    then have "j < n" unfolding n_def range_pages_def Suc_le_eq [symmetric]
      by (simp only: less_eq_div_iff_mult_less_eq zero_less_numeral)
    moreover have "vpno w = vpno (pg start + 4096 * of_nat j)"
      unfolding vpno_add unat_pg vpno_def [of w] d [symmetric] by simp
    moreover have "w < 2 ^ 38" using lw le by (simp add: word_less_nat_alt)
    ultimately show ?thesis using hit by blast
  qed
  moreover have "v2p root m' w = Some w" if w: "w < 2 ^ 38" "v2p root m w = Some w" for w
  proof (cases "\<exists>j < n. vpno w = vpno (pg start + 4096 * of_nat j)")
    case False
    then have "v2p root m' w = v2p root m w" unfolding m'_def
      by (intro pt.ins_pages_other [OF okn free]) (auto simp: vpath_eq_iff)
    then show ?thesis using w by simp
  qed (use hit w in blast)
  ultimately show ?thesis using run ok' free' by blast
qed


lemma id_map_all_maps:
  "pt_ok root (sum_list (map (\<lambda>(a, b, _). range_pages a b) rs) + k) m \<Longrightarrow> pt_all_free root m \<Longrightarrow>
   (\<And>a b f. (a, b, f) \<in> set rs \<Longrightarrow> flags_ok f \<and> a \<le> b \<and> b \<le> 2 ^ 38) \<Longrightarrow>
   \<exists>m'. id_map_all root rs m = (Ok () :: ('e, unit) result, m') \<and>
    pt_ok root k m' \<and> pt_all_free root m' \<and>
    (\<forall>a b f w. (a, b, f) \<in> set rs \<and> a \<le> w \<and> w < b \<longrightarrow> v2p root m' w = Some w) \<and>
    (\<forall>w < 2 ^ 38. v2p root m w = Some w \<longrightarrow> v2p root m' w = Some w)"
proof (induction rs arbitrary: m)
  case (Cons r rs)
  obtain a b f where r: "r = (a, b, f)" by (cases r)
  have f: "flags_ok f" "a \<le> b" "b \<le> 2 ^ 38" using Cons.prems(3) r by auto
  obtain m1 where m1: "id_map_range root a b f m = (Ok () :: ('e, unit) result, m1)"
      "pt_ok root (sum_list (map (\<lambda>(a, b, _). range_pages a b) rs) + k) m1" "pt_all_free root m1"
      "\<forall>w. a \<le> w \<and> w < b \<longrightarrow> v2p root m1 w = Some w"
      "\<forall>w < 2 ^ 38. v2p root m w = Some w \<longrightarrow> v2p root m1 w = Some w"
    using id_map_range_maps [of root a b "sum_list (map (\<lambda>(a, b, _). range_pages a b) rs) + k" m f,
        where ?'e = 'e] f Cons.prems(1,2) r by (auto simp: add.assoc)
  have bnd: "flags_ok f \<and> a \<le> b \<and> b \<le> 2 ^ 38" if "(a, b, f) \<in> set rs" for a b f
    using Cons.prems(3) [of a b f] that by simp
  obtain m2 where m2: "id_map_all root rs m1 = (Ok () :: ('e, unit) result, m2)"
      "pt_ok root k m2" "pt_all_free root m2"
      "\<forall>a b f w. (a, b, f) \<in> set rs \<and> a \<le> w \<and> w < b \<longrightarrow> v2p root m2 w = Some w"
      "\<forall>w < 2 ^ 38. v2p root m1 w = Some w \<longrightarrow> v2p root m2 w = Some w"
    using Cons.IH [OF m1(2,3) bnd] by blast
  have "v2p root m2 w = Some w" if "a \<le> w" "w < b" for w
    using m1(4) m2(5) that f(3) by (meson order_less_le_trans)
  with m1 m2 r show ?case by auto
qed auto

text \<open>A zeroed page is an empty table.\<close>

lemma new_root:
  assumes "heap_gives m (root # qs) {}" "2 * n \<le> length qs"
  defines "m1 \<equiv> snd (alloc_zeroed (0x1000, 0x1000) m)"
  shows "fst (alloc_zeroed (0x1000, 0x1000) m) = root" "root \<noteq> 0"
    "pt_ok root n m1" "pt_all_free root m1" "csrs m1 = csrs m"
    "pt_rep root (Tab root (\<lambda>_. Inv)) m1" "heap_gives m1 qs {root}"
proof -
  note r = heap_gives_hd [OF assms(1)]
  show "fst (alloc_zeroed (0x1000, 0x1000) m) = root" "root \<noteq> 0"
    using r by (simp_all add: alloc_zeroed_def alloc_eq)
  have m1: "mem m1 = (\<lambda>a. if pg a = root then 0 else mem m a)"
    "n_alloc m1 = n_alloc m + 1" "heap_script m1 = heap_script m" "csrs m1 = csrs m"
    using r pg_block [OF r(2)]
    by (simp_all add: m1_def alloc_zeroed_def alloc_eq cong: if_cong)
  have "mem m1 (entry_add root i) = 0" if "i < 512" for i
    using m1(1) pg_entry_add [OF r(2) that] by simp
  then show rep: "pt_rep root (Tab root (\<lambda>_. Inv)) m1"
    using r by (simp add: pt_rep_def rep_table_def is_valid_bit numeral_eq_Suc)
  show "heap_gives m1 qs {root}"
    using heap_gives_tl [OF assms(1) m1(2,3)] by simp
  with rep show "pt_ok root n m1" using assms(2) unfolding pt_ok_def by fastforce
  show "pt_all_free root m1" using rep
    unfolding pt_all_free_def pt_free_def by (intro allI exI conjI) (auto simp: vpath_def)
  show "csrs m1 = csrs m" by (fact m1(4))
qed


lemma flags_ok_vals [simp]:
  "flags_ok (eb_val EB_R OR eb_val EB_X)" "flags_ok (eb_val EB_R)" "flags_ok (eb_val EB_R OR eb_val EB_W)"
  "flags_ok (eb_val EB_R OR eb_val EB_X OR eb_val EB_U)"
  "flags_ok (eb_val EB_R OR eb_val EB_W OR eb_val EB_U)"
  by (simp_all add: flags_ok_def)

lemma kernel_ranges_flags: "(a, b, f) \<in> set (kernel_ranges start stop) \<Longrightarrow> flags_ok f"
  unfolding kernel_ranges_def Let_def set_simps insert_iff prod.inject empty_iff
  using flags_ok_vals by metis

lemma vpno_TRAMPOLINE:
  assumes "w < TRAMPOLINE"
  shows "vpno w \<noteq> vpno TRAMPOLINE"
proof
  assume a: "vpno w = vpno TRAMPOLINE"
  have t: "unat TRAMPOLINE = 2 ^ 38 - 4096" by (simp add: TRAMPOLINE_def)
  then have w: "unat w < 2 ^ 38 - 4096" using assms by (simp add: word_less_nat_alt)
  then have "unat w div 4096 < 2 ^ 26 - 1" by simp
  then show False using a t w by (simp add: vpno_def)
qed

lemma virt_to_phys_csrs: "virt_to_phys root w (m\<lparr>csrs := c\<rparr>) = virt_to_phys root w m"
proof -
  have "v2p_walk w lv v (m\<lparr>csrs := c\<rparr>) = v2p_walk w lv v m" for lv v
    by (induction lv arbitrary: v) (simp_all add: get_entry_def Let_def)
  then show ?thesis by (simp only: virt_to_phys_def)
qed



section \<open>Freeing the tables\<close>

text \<open>The table pages of a tree, children before their table.\<close>

primrec tfrees :: "ptree \<Rightarrow> usize list" where
  "tfrees Inv = []"
| "tfrees (Leaf e) = []"
| "tfrees (Tab p f) = concat (map (\<lambda>i. tfrees (f i)) table_indices) @ [p]"

lemma set_table_indices: "set table_indices = {i. i < 512}"
proof -
  have "i \<in> of_nat ` {0 ..< 512}" if "i < 512" for i :: usize
    using that by (intro image_eqI [of _ _ "unat i"]) (simp_all add: word_less_nat_alt)
  then show ?thesis by (auto simp: table_indices_def word_less_nat_alt unat_of_nat)
qed

lemma distinct_table_indices: "distinct table_indices"
  by (auto simp: table_indices_def distinct_map inj_on_def word_of_nat_eq_iff take_bit_nat_eq_self)

lemma set_tfrees: "set (tfrees t) = pages t"
  by (induction t) (auto simp: set_table_indices)

lemma distinct_concat_disjoint:
  "distinct xs \<Longrightarrow> (\<And>x. x \<in> set xs \<Longrightarrow> distinct (g x)) \<Longrightarrow>
   (\<And>x y. x \<in> set xs \<Longrightarrow> y \<in> set xs \<Longrightarrow> x \<noteq> y \<Longrightarrow> set (g x) \<inter> set (g y) = {}) \<Longrightarrow>
   distinct (concat (map g xs))"
  by (induction xs) auto

lemma distinct_children:
  assumes "rep_table p f mm" "\<And>i. i < 512 \<Longrightarrow> distinct (tfrees (f i))"
  shows "distinct (concat (map (\<lambda>i. tfrees (f i)) table_indices))"
  using assms by (intro distinct_concat_disjoint distinct_table_indices)
    (auto simp: set_table_indices set_tfrees rep_table_def)

lemma distinct_tfrees: "rep t mm e \<Longrightarrow> distinct (tfrees t)"
proof (induction t arbitrary: e)
  case (Tab p f)
  then have tab: "rep_table p f mm" by (simp add: rep_Tab)
  then have "distinct (concat (map (\<lambda>i. tfrees (f i)) table_indices))"
    using Tab.IH by (intro distinct_children) (auto simp: rep_table_def)
  then show ?case using tab by (simp add: set_table_indices set_tfrees rep_table_def)
qed auto

definition freed :: "usize list \<Rightarrow> machine \<Rightarrow> machine" where
  "freed ps m = m\<lparr>heap_log := heap_log m @ map (\<lambda>p. Deallocated p page_layout) ps\<rparr>"

lemma freed_simps [simp]:
  "mem (freed ps m) = mem m" "freed [] m = m" "freed qs (freed ps m) = freed (ps @ qs) m"
  "dealloc p page_layout m = freed [p] m" "csrs (freed ps m) = csrs m"
  by (simp_all add: freed_def dealloc_eq)

lemma for_branches_frees:
  assumes "rep_table p f mm" "set is \<subseteq> {i. i < 512}" "mem m = mm"
    and body: "\<And>i q g m. i < 512 \<Longrightarrow> f i = Tab q g \<Longrightarrow> mem m = mm \<Longrightarrow>
       body q m = (Ok (), freed (concat (map (\<lambda>i. tfrees (g i)) table_indices)) m)"
  shows "for_branches body p is m = (Ok (), freed (concat (map (\<lambda>i. tfrees (f i)) is)) m)"
  using assms(2,3)
proof (induction "is" arbitrary: m)
  case (Cons i "is")
  have r: "rep (f i) mm (mm (entry_add p i))" using assms(1) Cons.prems by (simp add: rep_table_def)
  show ?case
  proof (cases "f i")
    case (Tab q g)
    then show ?thesis using r Cons body [OF _ Tab Cons.prems(2)]
      by (simp add: get_entry_def rep_Tab Let_def)
  qed (use r Cons in \<open>simp_all add: get_entry_def is_branch_def Let_def\<close>)
qed simp

text \<open>C21: \<open>unmap\<close> gives back every table page below the root to the heap, each exactly once, and
  nothing else (the mapped frames are not touched).\<close>

theorem unmap_frees_tables:
  assumes "pt_rep root t m"
  shows "\<exists>ps. unmap root m =
      (Ok () :: ('e, unit) result, m\<lparr>heap_log := heap_log m @ map (\<lambda>p. Deallocated p (0x1000, 0x1000)) ps\<rparr>) \<and>
    distinct ps \<and> set ps = pages t - {root}"
proof -
  obtain f where f: "t = Tab root f" "rep_table root f (mem m)" "shallow 3 t"
    using assms by (auto simp: pt_rep_def)
  have sub: "rep_table q g (mem m)" if "rep_table p f (mem m)" "i < 512" "f i = Tab q g" for p f i q g
    using that by (metis rep_Tab rep_table_def)
  let ?all = "\<lambda>g. concat (map (\<lambda>i. tfrees (g i)) table_indices)"
  have lv1: "unmap_lv1 q m' = (Ok () :: ('e, unit) result, freed (?all g) m')"
    if q: "rep_table q g (mem m)" "shallow 1 (Tab q g)" "mem m' = mem m" for q g m'
  proof -
    have "for_branches (\<lambda>_ m. (Ok () :: ('e, unit) result, m)) q table_indices m' =
        (Ok (), freed (?all g) m')"
      by (rule for_branches_frees [OF q(1) _ q(3)]) (use q(2) set_table_indices in auto)
    then show ?thesis using q(1) by (simp add: unmap_lv1_def rep_table_def)
  qed
  have lv2: "unmap_lv2 q m' = (Ok () :: ('e, unit) result, freed (?all g) m')"
    if q: "rep_table q g (mem m)" "shallow 2 (Tab q g)" "mem m' = mem m" for q g m'
  proof -
    have "for_branches unmap_lv1 q table_indices m' = (Ok () :: ('e, unit) result, freed (?all g) m')"
      by (rule for_branches_frees [OF q(1) _ q(3)])
        (use q(2) set_table_indices sub [OF q(1)] lv1 in \<open>auto simp: numeral_2_eq_2\<close>)
    then show ?thesis using q(1) by (simp add: unmap_lv2_def rep_table_def)
  qed
  have "for_branches unmap_lv2 root table_indices m = (Ok () :: ('e, unit) result, freed (?all f) m)"
    by (rule for_branches_frees [OF f(2)])
      (use f(1,3) set_table_indices sub [OF f(2)] lv2 in \<open>auto simp: numeral_3_eq_3 numeral_2_eq_2\<close>)
  then have "unmap root m = (Ok () :: ('e, unit) result, freed (?all f) m)" by (simp only: unmap_def)
  moreover have "distinct (?all f)"
    by (rule distinct_children [OF f(2)]) (use f(2) distinct_tfrees in \<open>auto simp: rep_table_def\<close>)
  moreover have "set (?all f) = pages t - {root}"
    using f(1,2) by (auto simp: set_table_indices set_tfrees rep_table_def)
  ultimately show ?thesis unfolding freed_def page_layout_def by blast
qed


section \<open>A machine to evaluate on\<close>

text \<open>Zeroed memory and a heap that hands out consecutive pages from \<open>0x81000000\<close>, a million
  of them.\<close>

definition bump :: "nat \<Rightarrow> usize" where
  "bump k = 0x81000000 + 0x1000 * of_nat k"

definition machine0 :: machine where
  "machine0 = \<lparr>regs = (\<lambda>_. 0), csrs = (\<lambda>_. 0), mem = (\<lambda>_. 0), heap_script = (\<lambda>k. if k < 2 ^ 20 then Some (bump k) else None),
     n_alloc = 0, heap_log = []\<rparr>"

lemma unat_bump: "k < 2 ^ 20 \<Longrightarrow> unat (bump k) = 0x81000000 + 0x1000 * k"
  by (simp add: bump_def unat_word_ariths unat_of_nat mod_simps)

lemma machine0_gives: "n \<le> 2 ^ 20 \<Longrightarrow> heap_gives machine0 (map bump [0 ..< n]) {}"
proof -
  assume n: "n \<le> 2 ^ 20"
  have "pg (bump k) = bump k \<and> bump k \<noteq> 0" if "k < n" for k
  proof -
    have u: "unat (bump k) = 4096 * (0x81000 + k)" using unat_bump [of k] that n by simp
    then have "unat (pg (bump k)) = unat (bump k)" unfolding unat_pg by simp
    then have "pg (bump k) = bump k" by (simp only: word_unat_eq_iff)
    moreover have "unat (bump k) \<noteq> 0" using u by simp
    ultimately show ?thesis by (metis unat_0)
  qed
  moreover have "inj_on bump {0 ..< n}"
  proof (rule inj_onI)
    fix i j assume a: "i \<in> {0 ..< n}" "j \<in> {0 ..< n}" "bump i = bump j"
    then have "i < 2 ^ 20" "j < 2 ^ 20" using n by simp_all
    then have "0x81000000 + 0x1000 * i = 0x81000000 + 0x1000 * j"
      using arg_cong [OF a(3), of unat] by (simp only: unat_bump)
    then show "i = j" by simp
  qed
  ultimately show ?thesis
    using n by (auto simp: heap_gives_def machine0_def distinct_map)
qed

lemma machine0_Cons: "heap_gives machine0 (bump 0 # map bump [1 ..< Suc n]) {}" if "n < 2 ^ 20"
  using machine0_gives [of "Suc n"] that by (simp add: upt_rec [of 0 "Suc n"] del: upt_Suc)

text \<open>An empty table on it.\<close>

definition table0 :: machine where
  "table0 = snd (alloc_zeroed (0x1000, 0x1000) machine0)"

lemma table0_ok: "n < 2 ^ 19 \<Longrightarrow> pt_ok (bump 0) n table0" "pt_all_free (bump 0) table0"
  using new_root(3) [OF machine0_Cons [of "2 * n"], of n] new_root(4) [OF machine0_Cons [of 0], of 0]
  by (simp_all add: table0_def)


section \<open>Single mappings and ranges\<close>

text \<open>One call of \<open>map\<close>, as a function on the translation.\<close>

lemma map_pt_maps:
  assumes "pt_ok root (Suc n) m" "pt_free root m vaddr" "flags_ok bits" "paddr < 2 ^ 56"
  obtains m' where "map_pt root vaddr paddr bits 0 m = (Ok () :: ('e, unit) result, m')" "pt_ok root n m'"
    "\<And>w. v2p root m' w =
       (if vpno w = vpno vaddr then Some (pg paddr OR (w AND mask 12)) else v2p root m w)"
    "\<And>v. pt_free root m v \<Longrightarrow> pt_free root m' v"
proof -
  obtain m' where m': "map_pt root vaddr paddr bits 0 m = (Ok () :: ('e, unit) result, m')" "pt_ok root n m'"
    using map_pt_step [OF assms(1-3)] by metis
  have e: "map1 root bits vaddr paddr m = m'" by (simp add: map1_def map_pt_any [OF m'(1)])
  have ok: "flags_ok bits \<and> pt_ok root (Suc n) m" using assms(1,3) by simp
  have "v2p root m' w = (if vpno w = vpno vaddr then Some (pg paddr OR (w AND mask 12)) else v2p root m w)" for w
    using pt.tr_same [OF ok assms(2) _ assms(4), of w] pt.tr_other [OF ok assms(2), of w paddr] e
      vpath_eq_iff [of vaddr w] by auto
  moreover have "pt_free root m' v" if "pt_free root m v" for v
    using pt.free_ins [OF ok assms(2) that, of paddr] e by simp
  ultimately show ?thesis using that m' by blast
qed

text \<open>C5: mapping a page (\<open>map\<close> at level 0) makes exactly that page translate to its frame: every
  address of the virtual page gives the frame with the address's own offset, and the translation of
  every other page is unchanged. The call neither panics nor loses the table's well-formedness.\<close>

theorem map_translates:
  assumes "pt_ok root (Suc n) m" "pt_free root m vaddr" "bits AND 0xe \<noteq> 0" "bits < 2 ^ 10" "paddr < 2 ^ 56"
  shows "\<exists>m'. map_pt root vaddr paddr bits 0 m = (Ok () :: ('e, unit) result, m') \<and> pt_ok root n m' \<and>
    (\<forall>w. virt_to_phys root w m' =
       (if vpno w = vpno vaddr then Ok (Some (pg paddr OR (w AND mask 12)))
        else virt_to_phys root w m))"
proof -
  have fl: "flags_ok bits" using assms(3,4) by (simp add: flags_ok_def)
  show ?thesis
    by (rule map_pt_maps [OF assms(1,2) fl assms(5), where ?'e = 'e])
      (auto simp: virt_to_phys_v2p virt_to_phys_v2p [OF assms(1)])
qed

theorem map_translates_witness:
  "\<exists>m'. map_pt (bump 0) 0x1000 0x90002000 0x6 0 table0 = (Ok () :: (unit, unit) result, m') \<and>
    virt_to_phys (bump 0) 0x1abc m' = (Ok (Some 0x90002abc) :: (unit, usize option) result) \<and>
    virt_to_phys (bump 0) 0x2abc m' = (virt_to_phys (bump 0) 0x2abc table0 :: (unit, usize option) result)"
proof -
  have "pt_ok (bump 0) (Suc 0) table0" "pt_free (bump 0) table0 0x1000"
    using table0_ok(1) [of 1] table0_ok(2) by (simp_all add: pt_all_free_def)
  from map_translates [OF this, of "0x6" "0x90002000", where ?'e = unit and ?'a = unit]
  obtain m' where m': "map_pt (bump 0) 0x1000 0x90002000 0x6 0 table0 = (Ok () :: (unit, unit) result, m')"
    "\<And>w. virt_to_phys (bump 0) w m' =
       (if vpno w = vpno 0x1000 then Ok (Some (pg 0x90002000 OR (w AND mask 12)))
        else virt_to_phys (bump 0) w table0 :: (unit, usize option) result)" by auto
  show ?thesis using m'(1)
    by (intro exI [of _ m']) (simp only: m'(2), simp add: vpno_def mask_eq_exp_minus_1)
qed

text \<open>\<open>map_range\<close> maps the \<open>\<lceil>size / 4096\<rceil>\<close> consecutive pages from the page of \<open>vaddr\<close> to the
  frames from the frame of \<open>paddr\<close>, and changes the translation of no other page.\<close>

theorem map_range_translates:
  assumes "pt_ok root n m" "bits AND 0xe \<noteq> 0" "bits < 2 ^ 10"
    and "\<And>j. j < n \<Longrightarrow> pt_free root m (pg vaddr + 4096 * of_nat j)"
    and "n = (unat sz + 4095) div 4096" "n \<le> 2 ^ 27" "unat (pg paddr) + 4096 * n \<le> 2 ^ 56"
  shows "\<exists>m'. map_range root vaddr paddr sz bits m = (Ok () :: ('e, unit) result, m') \<and>
    (\<forall>k < n. \<forall>w. vpno w = vpno (pg vaddr + 4096 * of_nat k) \<longrightarrow>
       virt_to_phys root w m' = Ok (Some ((pg paddr + 4096 * of_nat k) OR (w AND mask 12)))) \<and>
    (\<forall>w. (\<forall>k < n. vpno w \<noteq> vpno (pg vaddr + 4096 * of_nat k)) \<longrightarrow>
       virt_to_phys root w m' = virt_to_phys root w m)"
proof -
  have fl: "flags_ok bits" using assms(2,3) by (simp add: flags_ok_def)
  note r = map_range_maps [OF assms(1) fl assms(4-7)]
  let ?m' = "pt.ins_pages root bits n (pg vaddr) (pg paddr) m"
  have "map_range root vaddr paddr sz bits m = (Ok () :: ('e, unit) result, ?m')" by (rule r(1))
  moreover have "virt_to_phys root w ?m' = virt_to_phys root w m"
    if "\<forall>k < n. vpno w \<noteq> vpno (pg vaddr + 4096 * of_nat k)" for w using r(3) that by blast
  ultimately show ?thesis using r(2) by blast
qed

theorem map_range_translates_witness:
  "\<exists>m'. map_range (bump 0) 0x10000 0x90000000 0x1801 0x16 table0 = (Ok () :: (unit, unit) result, m') \<and>
    virt_to_phys (bump 0) 0x11004 m' = (Ok (Some 0x90001004) :: (unit, usize option) result) \<and>
    virt_to_phys (bump 0) 0x12004 m' = (virt_to_phys (bump 0) 0x12004 table0 :: (unit, usize option) result)"
proof -
  have free: "pt_free (bump 0) table0 v" for v using table0_ok(2) by (simp add: pt_all_free_def)
  have "\<exists>m'. map_range (bump 0) 0x10000 0x90000000 0x1801 0x16 table0 = (Ok () :: (unit, unit) result, m') \<and>
    (\<forall>k < 2. \<forall>w. vpno w = vpno (pg 0x10000 + 4096 * of_nat k) \<longrightarrow>
       virt_to_phys (bump 0) w m' =
       (Ok (Some ((pg 0x90000000 + 4096 * of_nat k) OR (w AND mask 12))) :: (unit, usize option) result)) \<and>
    (\<forall>w. (\<forall>k < 2. vpno w \<noteq> vpno (pg 0x10000 + 4096 * of_nat k)) \<longrightarrow>
       virt_to_phys (bump 0) w m' = (virt_to_phys (bump 0) w table0 :: (unit, usize option) result))"
    by (rule map_range_translates [OF table0_ok(1)]) (simp_all add: free unat_pg)
  then obtain m' where m': "map_range (bump 0) 0x10000 0x90000000 0x1801 0x16 table0 = (Ok () :: (unit, unit) result, m')"
    "\<And>k w. k < 2 \<Longrightarrow> vpno w = vpno (pg 0x10000 + 4096 * of_nat k) \<Longrightarrow>
       virt_to_phys (bump 0) w m' =
       (Ok (Some ((pg 0x90000000 + 4096 * of_nat k) OR (w AND mask 12))) :: (unit, usize option) result)"
    "\<And>w. (\<forall>k < 2. vpno w \<noteq> vpno (pg 0x10000 + 4096 * of_nat k)) \<Longrightarrow>
       virt_to_phys (bump 0) w m' = (virt_to_phys (bump 0) w table0 :: (unit, usize option) result)"
    by blast
  show ?thesis using m'(1) m'(2) [of 1 "0x11004"] m'(3) [of "0x12004"]
    by (intro exI [of _ m']) (simp add: vpno_def mask_eq_exp_minus_1 less_2_cases_iff)
qed

theorem unmap_frees_tables_witness:
  "\<exists>m ps. map_pt (bump 0) 0x1000 0x90002000 0x6 0 table0 = (Ok () :: (unit, unit) result, m) \<and>
    unmap (bump 0) m =
      (Ok () :: (unit, unit) result,
       m\<lparr>heap_log := heap_log m @ map (\<lambda>p. Deallocated p (0x1000, 0x1000)) ps\<rparr>) \<and>
    distinct ps \<and> set ps = {bump 1, bump 2}"
proof -
  let ?t = "Tab (bump 0) (\<lambda>_. Inv)" and ?e = "leaf_entry 0x90002000 0x6"
  have l: "[0 ..< 3] = [0, 1, 2 :: nat]" by (simp add: upt_rec)
  have h: "heap_gives machine0 (bump 0 # [bump 1, bump 2]) {}"
    using machine0_gives [of 3] unfolding l by simp
  note t = new_root [OF h, of 1, folded table0_def, simplified]
  obtain m where m: "map_pt (bump 0) 0x1000 0x90002000 0x6 0 table0 = (Ok () :: (unit, unit) result, m)"
    "pt_rep (bump 0) (tupdate (vpath 0x1000) ?e [bump 1, bump 2] ?t) m"
    using map_pt_refines [OF t(6), of "0x1000" "[bump 1, bump 2]" "0x6" "0x90002000", where ?'e = unit] t(7)
    by (auto simp: vpath_def)
  have "pages (tupdate (vpath 0x1000) ?e [bump 1, bump 2] ?t) = {bump 0, bump 1, bump 2}"
    using vpn_less by (auto simp: vpath_def split: if_splits)
  moreover have "bump 0 \<noteq> bump 1" "bump 0 \<noteq> bump 2" by (simp_all add: bump_def)
  ultimately show ?thesis using unmap_frees_tables [OF m(2), where ?'e = unit] m(1) by auto
qed

text \<open>Of all fields of an entry only \<open>V\<close> is read correctly by \<open>EntryBits::get_field\<close>: the shift
  binds tighter than the conjunction, so the reads of the other flag bits all return bit 0.\<close>

theorem get_field_reads_valid_bit:
  assumes "eb \<in> {EB_V, EB_R, EB_W, EB_X, EB_U, EB_G, EB_A, EB_D}"
  shows "get_field eb entry = (if bit entry 0 then 1 else 0)"
proof -
  have "get_field eb entry = entry AND 1" using assms by auto
  then show ?thesis by (simp add: and_one_eq mod_2_eq_odd bit_0)
qed

theorem get_field_reads_valid_bit_witness: "get_field EB_W 0x5 = 1 \<and> get_field EB_W 0x4 = 0"
  using get_field_reads_valid_bit [of EB_W "0x5"] get_field_reads_valid_bit [of EB_W "0x4"]
  by (simp add: bit_0)

end
