(* ===== verification/Arch_Process.thy ===== *)
theory Arch_Process
  imports Kernel_Space
begin

text \<open>
  The architecture's part of a process (\<open>src/src/arch/riscv64/process.rs\<close>, data and set-up): the
  saved context, the trap frame in memory, the address space of a new process, and the release of
  all of it. The addresses of the assembly entry points are parameters (\<open>entry_points\<close>), as is the
  address at which the structure itself lives (\<open>self_ptr\<close>).
\<close>

section \<open>Data\<close>

definition USER_STACK_START :: usize where
  "USER_STACK_START = 0xfffffffffffff000"

definition USER_STACK_SIZE :: usize where
  "USER_STACK_SIZE = 0x1000"

record Context =
  ctx_ra :: usize
  ctx_sp :: usize
  ctx_s0 :: usize
  ctx_s1 :: usize
  ctx_s2 :: usize
  ctx_s3 :: usize
  ctx_s4 :: usize
  ctx_s5 :: usize
  ctx_s6 :: usize
  ctx_s7 :: usize
  ctx_s8 :: usize
  ctx_s9 :: usize
  ctx_s10 :: usize
  ctx_s11 :: usize
  ctx_a0 :: usize
  ctx_sstatus :: usize

definition Context_default :: Context where
  "Context_default = \<lparr>ctx_ra = 0, ctx_sp = 0, ctx_s0 = 0, ctx_s1 = 0, ctx_s2 = 0, ctx_s3 = 0,
     ctx_s4 = 0, ctx_s5 = 0, ctx_s6 = 0, ctx_s7 = 0, ctx_s8 = 0, ctx_s9 = 0, ctx_s10 = 0,
     ctx_s11 = 0, ctx_a0 = 0, ctx_sstatus = 0\<rparr>"

text \<open>The fields of \<open>TrapFrame\<close> by their offset (\<open>repr(C)\<close>).\<close>

datatype TrapField =
    TF_kernel_satp | TF_kernel_sp | TF_kernel_trap | TF_epc | TF_kernel_hartid | TF_reg Reg
  | TF_arch_proc

fun reg_offset :: "Reg \<Rightarrow> usize" where
  "reg_offset Ra = 40" | "reg_offset Sp = 48" | "reg_offset Gp = 56" | "reg_offset Tp = 64"
| "reg_offset T0 = 72" | "reg_offset T1 = 80" | "reg_offset T2 = 88" | "reg_offset S0 = 96"
| "reg_offset S1 = 104" | "reg_offset A0 = 112" | "reg_offset A1 = 120" | "reg_offset A2 = 128"
| "reg_offset A3 = 136" | "reg_offset A4 = 144" | "reg_offset A5 = 152" | "reg_offset A6 = 160"
| "reg_offset A7 = 168" | "reg_offset S2 = 176" | "reg_offset S3 = 184" | "reg_offset S4 = 192"
| "reg_offset S5 = 200" | "reg_offset S6 = 208" | "reg_offset S7 = 216" | "reg_offset S8 = 224"
| "reg_offset S9 = 232" | "reg_offset S10 = 240" | "reg_offset S11 = 248" | "reg_offset T3 = 256"
| "reg_offset T4 = 264" | "reg_offset T5 = 272" | "reg_offset T6 = 280"

fun tf_offset :: "TrapField \<Rightarrow> usize" where
  "tf_offset TF_kernel_satp = 0"
| "tf_offset TF_kernel_sp = 8"
| "tf_offset TF_kernel_trap = 16"
| "tf_offset TF_epc = 24"
| "tf_offset TF_kernel_hartid = 32"
| "tf_offset (TF_reg r) = reg_offset r"
| "tf_offset TF_arch_proc = 288"

definition tf_get :: "usize \<Rightarrow> TrapField \<Rightarrow> machine \<Rightarrow> usize" where
  "tf_get tf fld m = mem m (tf + tf_offset fld)"

definition tf_set :: "usize \<Rightarrow> TrapField \<Rightarrow> usize \<Rightarrow> machine \<Rightarrow> machine" where
  "tf_set tf fld x m = m\<lparr>mem := (mem m)(tf + tf_offset fld := x)\<rparr>"

record Segment =
  seg_ptr :: usize
  seg_layout :: layout
  seg_vm_range :: "usize \<times> usize"
  seg_flags :: usize

record ExecutableInfo =
  ei_entry :: usize
  segment_buffers :: "Segment list"

definition ExecutableInfo_new :: ExecutableInfo where
  "ExecutableInfo_new = \<lparr>ei_entry = 0, segment_buffers = []\<rparr>"

record ArchProcess =
  page_table :: usize
  trap_frame :: usize
  ap_context :: Context
  ap_kernel_stack :: usize
  ap_kernel_stack_size :: usize
  ap_user_stack :: usize
  ap_user_stack_size :: usize
  exec_info :: ExecutableInfo
  ap_pid :: usize

record entry_points =
  ep_trampoline :: usize
  ep_uservec :: usize
  ep_userret :: usize
  ep_killme :: usize
  ep_kernelvec :: usize
  ep_user_trap :: usize
  ep_user_trap_return :: usize

section \<open>Operations\<close>

text \<open>\<open>NonNull::dangling()\<close> of a table is its alignment, 8.\<close>

definition ArchProcess_new :: "usize \<Rightarrow> machine \<Rightarrow> ArchProcess \<times> machine" where
  "ArchProcess_new pid m =
     (case alloc_zeroed (0x1000, 0x1000) m of (tf, m1) \<Rightarrow>
        (\<lparr>page_table = 8, trap_frame = tf, ap_context = Context_default, ap_kernel_stack = 0,
          ap_kernel_stack_size = 0, ap_user_stack = 0, ap_user_stack_size = 0,
          exec_info = ExecutableInfo_new, ap_pid = pid\<rparr>, m1))"

definition ArchProcess_free :: "ArchProcess \<Rightarrow> machine \<Rightarrow> ('e, unit) result \<times> machine" where
  "ArchProcess_free ap m =
     (let m1 = dealloc (ap_user_stack ap) (ap_user_stack_size ap, 0x1000) m
      in and_then (unmap (page_table ap) m1) (\<lambda>_ m2.
           let m3 = dealloc (page_table ap) (0x1000, 0x1000) m2;
               m4 = dealloc (trap_frame ap) (0x1000, 0x1000) m3
           in (Ok (), fold (\<lambda>seg. dealloc (seg_ptr seg) (seg_layout seg))
                        (segment_buffers (exec_info ap)) m4)))"

text \<open>\<open>setup_pagetable\<close>: a new table with the trampoline, the trap frame, the exit stub and the user
  stack.\<close>

definition setup_pagetable ::
  "entry_points \<Rightarrow> ArchProcess \<Rightarrow> machine \<Rightarrow> ('e, ArchProcess) result \<times> machine" where
  "setup_pagetable ep ap m =
     (case alloc_zeroed (0x1000, 0x1000) m of (root, m1) \<Rightarrow>
        if root = 0 then (Panic ''unwrap on None'', m1)
        else
          and_then (map_pt root TRAMPOLINE (ep_trampoline ep) (eb_val EB_R OR eb_val EB_X) 0 m1) (\<lambda>_ m2.
          and_then (map_pt root TRAPFRAME (trap_frame ap) (eb_val EB_R OR eb_val EB_W) 0 m2) (\<lambda>_ m3.
          and_then (map_pt root KILLME (ep_killme ep) (eb_val EB_R OR eb_val EB_X OR eb_val EB_U) 0 m3) (\<lambda>_ m4.
          (case alloc (USER_STACK_SIZE, 0x1000) m4 of (user_stack, m5) \<Rightarrow>
             and_then (map_pt root (USER_STACK_START - USER_STACK_SIZE) user_stack
                         (eb_val EB_R OR eb_val EB_W OR eb_val EB_U) 0 m5) (\<lambda>_ m6.
               (Ok (ap\<lparr>page_table := root, ap_user_stack := user_stack,
                       ap_user_stack_size := USER_STACK_SIZE\<rparr>), m6)))))))"

definition init_context :: "usize \<Rightarrow> usize \<Rightarrow> usize \<Rightarrow> ArchProcess \<Rightarrow> machine \<Rightarrow> ArchProcess" where
  "init_context self_ptr start stack ap m =
     ap\<lparr>ap_context := (ap_context ap)\<lparr>ctx_ra := start, ctx_sp := stack, ctx_a0 := self_ptr,
          ctx_sstatus := csr_read Sstatus (csrs m)\<rparr>\<rparr>"

definition ArchProcess_init ::
  "entry_points \<Rightarrow> usize \<Rightarrow> usize \<Rightarrow> usize \<Rightarrow> usize \<Rightarrow> ArchProcess \<Rightarrow> machine \<Rightarrow>
   ('e, ArchProcess) result \<times> machine" where
  "ArchProcess_init ep self_ptr start kernel_stack kernel_stack_size ap m =
     and_then (setup_pagetable ep
                 (ap\<lparr>ap_kernel_stack := kernel_stack, ap_kernel_stack_size := kernel_stack_size\<rparr>) m)
       (\<lambda>ap1 m1.
          let ap2 = init_context self_ptr start (kernel_stack + kernel_stack_size) ap1 m1;
              m2 = tf_set (trap_frame ap2) (TF_reg Sp) USER_STACK_START m1;
              m3 = tf_set (trap_frame ap2) (TF_reg Ra) KILLME m2
          in (Ok ap2, m3))"

section \<open>The context switch, on records\<close>

text \<open>\<open>context_switch\<close> saves the callee-saved registers and \<open>sstatus\<close> of the old process and loads those
  of the new one (and \<open>a0\<close>, the argument of \<open>user_trap_return\<close>).\<close>

definition save_context :: "machine \<Rightarrow> Context \<Rightarrow> Context" where
  "save_context m c = c\<lparr>ctx_ra := regs m Ra, ctx_sp := regs m Sp, ctx_s0 := regs m S0,
     ctx_s1 := regs m S1, ctx_s2 := regs m S2, ctx_s3 := regs m S3, ctx_s4 := regs m S4,
     ctx_s5 := regs m S5, ctx_s6 := regs m S6, ctx_s7 := regs m S7, ctx_s8 := regs m S8,
     ctx_s9 := regs m S9, ctx_s10 := regs m S10, ctx_s11 := regs m S11,
     ctx_sstatus := csrs m Sstatus\<rparr>"

definition load_context :: "Context \<Rightarrow> machine \<Rightarrow> machine" where
  "load_context c m =
     m\<lparr>regs := (regs m)(Ra := ctx_ra c, Sp := ctx_sp c, S0 := ctx_s0 c, S1 := ctx_s1 c,
          S2 := ctx_s2 c, S3 := ctx_s3 c, S4 := ctx_s4 c, S5 := ctx_s5 c, S6 := ctx_s6 c,
          S7 := ctx_s7 c, S8 := ctx_s8 c, S9 := ctx_s9 c, S10 := ctx_s10 c, S11 := ctx_s11 c,
          A0 := ctx_a0 c, T0 := ctx_sstatus c),
       csrs := (csrs m)(Sstatus := ctx_sstatus c)\<rparr>"

section \<open>The address space of a process\<close>

text \<open>An allocation that is not for the table.\<close>

lemma alloc_pt_ok:
  assumes "pt_ok root (Suc n) m" "pt_all_free root m"
  obtains q m' where "alloc l m = (q, m')" "pt_ok root n m'" "pt_all_free root m'" "v2p root m' = v2p root m"
    "heap_script m (n_alloc m) = Some q"
proof -
  obtain t qs where t: "pt_rep root t m" "2 * Suc n \<le> length qs" "heap_gives m qs (pages t)"
    using assms(1) by (auto simp: pt_ok_def)
  obtain q rs where qs: "qs = q # rs" using t(2) by (cases qs) auto
  note hd = heap_gives_hd [OF t(3) [unfolded qs]]
  define m' where "m' = snd (alloc l m)"
  have a: "alloc l m = (q, m')" "mem m' = mem m" "n_alloc m' = n_alloc m + 1" "heap_script m' = heap_script m"
    using hd(1) by (simp_all add: m'_def alloc_eq)
  have rep: "pt_rep root t m' = pt_rep root t m" for t using a(2) by (simp add: pt_rep_def)
  have "heap_gives m' rs (pages t)"
    by (rule heap_gives_mono [OF heap_gives_tl [OF t(3) [unfolded qs] a(3,4)]]) auto
  moreover have "2 * n \<le> length rs" using t(2) qs by simp
  ultimately have "pt_ok root n m'" using t(1) rep unfolding pt_ok_def by blast
  moreover have "pt_all_free root m'"
    using assms(2) by (simp add: pt_all_free_def pt_free_def rep)
  moreover have "v2p root m' = v2p root m"
    using t(1) rep by (simp add: v2p_def fun_eq_iff virt_to_phys_refines)
  ultimately show ?thesis using that a(1) hd(1) by blast
qed

lemma new_root_empty:
  assumes "pt_rep root (Tab root (\<lambda>_. Inv)) m"
  shows "v2p root m w = None"
  by (simp add: v2p_def virt_to_phys_refines [OF assms] translate_def vpath_def)

lemma map_pt_all:
  assumes "pt_ok root (Suc n) m" "pt_all_free root m" "flags_ok bits" "paddr < 2 ^ 56"
  obtains m' where "map_pt root vaddr paddr bits 0 m = (Ok () :: ('e, unit) result, m')" "pt_ok root n m'"
    "pt_all_free root m'"
    "v2p root m' = (\<lambda>w. if vpno w = vpno vaddr then Some (pg paddr OR (w AND mask 12)) else v2p root m w)"
proof -
  have f: "pt_free root m vaddr" using assms(2) by (simp add: pt_all_free_def)
  obtain m' where "map_pt root vaddr paddr bits 0 m = (Ok () :: ('e, unit) result, m')"
    "pt_ok root n m'" "\<And>w. v2p root m' w =
       (if vpno w = vpno vaddr then Some (pg paddr OR (w AND mask 12)) else v2p root m w)"
    "\<And>v. pt_free root m v \<Longrightarrow> pt_free root m' v"
    using map_pt_maps [OF assms(1) f assms(3,4)] by metis
  then show ?thesis using that [of m'] assms(2) unfolding pt_all_free_def fun_eq_iff by blast
qed

lemma map_walk_script: "heap_script (snd (map_walk vaddr lv v m)) = heap_script m"
proof (induction lv arbitrary: v m)
  case (Cons i lv)
  have a: "heap_script (snd (alloc_zeroed l m)) = heap_script m" for l
    by (simp add: alloc_zeroed_def alloc_eq split: option.split)
  have "heap_script (case alloc_zeroed l m of (page, m') \<Rightarrow> set_entry v (f page) m') = heap_script m" for l f
    using a [of l] by (cases "alloc_zeroed l m") (simp add: set_entry_def)
  then show ?case using Cons by (simp add: Let_def del: eb_val.simps)
qed simp

lemma map_pt_script: "map_pt r v p b k m = (x, m') \<Longrightarrow> heap_script m' = heap_script m"
  by (auto simp: map_pt_def set_entry_def map_walk_script split: if_splits prod.splits result.splits
      dest!: arg_cong [where f = "\<lambda>x. heap_script (snd x)"])

text \<open>C22: the address space \<open>setup_pagetable\<close> gives a new process: the trampoline, the trap frame, the
  exit stub and one page of user stack, at their fixed virtual pages, and nothing else.\<close>

theorem setup_pagetable_space:
  assumes heap: "heap_gives m (root # qs) {}" "10 \<le> length qs"
    and small: "\<forall>n. \<forall>q. heap_script m n = Some q \<longrightarrow> q < 2 ^ 56"
      "ep_trampoline ep < 2 ^ 56" "ep_killme ep < 2 ^ 56" "trap_frame ap < 2 ^ 56"
  shows "\<exists>ap' m'. setup_pagetable ep ap m = (Ok ap' :: ('e, ArchProcess) result, m') \<and>
    page_table ap' = root \<and> trap_frame ap' = trap_frame ap \<and>
    (\<forall>w. virt_to_phys root w m' = Ok (
       if vpno w = vpno (USER_STACK_START - USER_STACK_SIZE) then Some (pg (ap_user_stack ap') OR (w AND mask 12))
       else if vpno w = vpno KILLME then Some (pg (ep_killme ep) OR (w AND mask 12))
       else if vpno w = vpno TRAPFRAME then Some (pg (trap_frame ap) OR (w AND mask 12))
       else if vpno w = vpno TRAMPOLINE then Some (pg (ep_trampoline ep) OR (w AND mask 12))
       else None))"
proof -
  define m1 where "m1 = snd (alloc_zeroed (0x1000, 0x1000) m)"
  note n = new_root [OF heap(1), of 5, folded m1_def]
  have a: "alloc_zeroed (0x1000, 0x1000) m = (root, m1)" "pt_ok root (Suc (Suc (Suc (Suc 1)))) m1"
    "pt_all_free root m1" "v2p root m1 = (\<lambda>w. None)" "root \<noteq> 0"
    using n heap(2) new_root_empty by (simp_all add: m1_def prod_eq_iff fun_eq_iff numeral_eq_Suc)
  obtain m2 where m2: "map_pt root TRAMPOLINE (ep_trampoline ep) (eb_val EB_R OR eb_val EB_X) 0 m1 =
      (Ok () :: ('e, unit) result, m2)" "pt_ok root (Suc (Suc (Suc 1))) m2" "pt_all_free root m2"
    "v2p root m2 = (\<lambda>w. if vpno w = vpno TRAMPOLINE
       then Some (pg (ep_trampoline ep) OR (w AND mask 12)) else v2p root m1 w)"
    by (rule map_pt_all [OF a(2,3) flags_ok_vals(1) small(2)])
  obtain m3 where m3: "map_pt root TRAPFRAME (trap_frame ap) (eb_val EB_R OR eb_val EB_W) 0 m2 =
      (Ok () :: ('e, unit) result, m3)" "pt_ok root (Suc (Suc 1)) m3" "pt_all_free root m3"
    "v2p root m3 = (\<lambda>w. if vpno w = vpno TRAPFRAME
       then Some (pg (trap_frame ap) OR (w AND mask 12)) else v2p root m2 w)"
    by (rule map_pt_all [OF m2(2,3) flags_ok_vals(3) small(4)])
  obtain m4 where m4: "map_pt root KILLME (ep_killme ep) (eb_val EB_R OR eb_val EB_X OR eb_val EB_U) 0 m3 =
      (Ok () :: ('e, unit) result, m4)" "pt_ok root (Suc 1) m4" "pt_all_free root m4"
    "v2p root m4 = (\<lambda>w. if vpno w = vpno KILLME
       then Some (pg (ep_killme ep) OR (w AND mask 12)) else v2p root m3 w)"
    by (rule map_pt_all [OF m3(2,3) flags_ok_vals(4) small(3)])
  obtain q m5 where m5: "alloc (USER_STACK_SIZE, 0x1000) m4 = (q, m5)" "pt_ok root (Suc 0) m5"
      "pt_all_free root m5" "v2p root m5 = v2p root m4" "heap_script m4 (n_alloc m4) = Some q"
    by (rule alloc_pt_ok [OF m4(2,3), of "(USER_STACK_SIZE, 0x1000)"]) simp
  have "heap_script m4 = heap_script m"
    using map_pt_script [OF m4(1)] map_pt_script [OF m3(1)] map_pt_script [OF m2(1)]
    by (simp add: m1_def alloc_zeroed_def alloc_eq split: option.split)
  then have q: "q < 2 ^ 56" using m5(5) small(1) by metis
  obtain m6 where m6: "map_pt root (USER_STACK_START - USER_STACK_SIZE) q
        (eb_val EB_R OR eb_val EB_W OR eb_val EB_U) 0 m5 = (Ok () :: ('e, unit) result, m6)"
      "pt_ok root 0 m6" "pt_all_free root m6"
    "v2p root m6 = (\<lambda>w. if vpno w = vpno (USER_STACK_START - USER_STACK_SIZE)
       then Some (pg q OR (w AND mask 12)) else v2p root m5 w)"
    by (rule map_pt_all [OF m5(2,3) flags_ok_vals(5) q])
  let ?ap = "ap\<lparr>page_table := root, ap_user_stack := q, ap_user_stack_size := USER_STACK_SIZE\<rparr>"
  have "setup_pagetable ep ap m = (Ok ?ap :: ('e, ArchProcess) result, m6)"
    by (simp add: setup_pagetable_def a(1,5) m2(1) m3(1) m4(1) m5(1) m6(1) del: eb_val.simps)
  moreover have "page_table ?ap = root" "trap_frame ?ap = trap_frame ap" "ap_user_stack ?ap = q"
    by simp_all
  ultimately show ?thesis
    by (intro exI [of _ ?ap] exI [of _ m6])
      (simp only: virt_to_phys_v2p [OF m6(2)] m6(4) m5(4) m4(4) m3(4) m2(4) a(4), simp)
qed


theorem setup_pagetable_space_witness:
  "\<exists>ap' m'. setup_pagetable
      \<lparr>ep_trampoline = 0x80001000, ep_uservec = 0x80001000, ep_userret = 0x80001100, ep_killme = 0x80003000,
       ep_kernelvec = 0x80004000, ep_user_trap = 0x80004100, ep_user_trap_return = 0x80004200\<rparr>
      (fst (ArchProcess_new 1 machine0)) machine0 = (Ok ap' :: (unit, ArchProcess) result, m') \<and>
    virt_to_phys (bump 0) (KILLME + 4) m' = (Ok (Some 0x80003004) :: (unit, usize option) result) \<and>
    virt_to_phys (bump 0) 0x1000 m' = (Ok None :: (unit, usize option) result)"
proof -
  let ?ep = "\<lparr>ep_trampoline = 0x80001000, ep_uservec = 0x80001000, ep_userret = 0x80001100,
    ep_killme = 0x80003000, ep_kernelvec = 0x80004000, ep_user_trap = 0x80004100,
    ep_user_trap_return = 0x80004200\<rparr>"
  let ?ap = "fst (ArchProcess_new 1 machine0)"
  have small: "\<forall>n q. heap_script machine0 n = Some q \<longrightarrow> q < 2 ^ 56"
    using unat_bump by (auto simp: machine0_def word_less_nat_alt split: if_splits)
  have tf: "trap_frame ?ap < 2 ^ 56"
    by (simp add: ArchProcess_new_def alloc_zeroed_def alloc_eq machine0_def bump_def)
  from setup_pagetable_space [OF machine0_Cons [of 10] _ small, of ?ep ?ap, where ?'e = unit and ?'a = unit] tf
  obtain ap' m' where s: "setup_pagetable ?ep ?ap machine0 = (Ok ap' :: (unit, ArchProcess) result, m')"
    "\<And>w. virt_to_phys (bump 0) w m' = (Ok (
       if vpno w = vpno (USER_STACK_START - USER_STACK_SIZE) then Some (pg (ap_user_stack ap') OR (w AND mask 12))
       else if vpno w = vpno KILLME then Some (pg 0x80003000 OR (w AND mask 12))
       else if vpno w = vpno TRAPFRAME then Some (pg (trap_frame ?ap) OR (w AND mask 12))
       else if vpno w = vpno TRAMPOLINE then Some (pg 0x80001000 OR (w AND mask 12))
       else None) :: (unit, usize option) result)" by auto
  have vals: "KILLME = 0x3fffffd000" "USER_STACK_START - USER_STACK_SIZE = 0xffffffffffffe000"
    "TRAPFRAME = 0x3fffffe000" "TRAMPOLINE = 0x3ffffff000"
    by (simp_all add: KILLME_def TRAPFRAME_def TRAMPOLINE_def USER_STACK_START_def USER_STACK_SIZE_def)
  show ?thesis using s(1)
    by (intro exI [of _ ap'] exI [of _ m'])
      (simp only: s(2) vals, simp add: vpno_def mask_eq_exp_minus_1)
qed

end
