(* ===== verification/Binary_Heap.thy ===== *)
theory Binary_Heap
  imports Prelude "HOL-Library.Multiset"
begin

text \<open>
  The ready list of the scheduler is Rust's \<open>BinaryHeap\<close>. This theory holds the array heap of the
  standard library, over the order \<open>le\<close> of its elements (\<open>sift_up\<close> on a push;
  \<open>sift_down_to_bottom\<close> followed by \<open>sift_up\<close> on a pop), the interface a client of a maximum
  priority queue relies on (locale \<open>max_pqueue\<close>), and the proof that the array heap provides it for
  every total preorder (locale \<open>total_preorder\<close>).
\<close>

section \<open>The array heap\<close>

definition par :: "nat \<Rightarrow> nat" where
  "par i = (i - 1) div 2"

lemma par_less: "0 < i \<Longrightarrow> par i < i"
  by (simp add: par_def)

lemma par_le: "par i \<le> i"
  by (simp add: par_def)

lemma par_eq_iff: "0 < i \<Longrightarrow> par i = pos \<longleftrightarrow> i = 2 * pos + 1 \<or> i = 2 * pos + 2"
  unfolding par_def by linarith

definition swap_at :: "nat \<Rightarrow> nat \<Rightarrow> 'a list \<Rightarrow> 'a list" where
  "swap_at i j xs = xs[i := xs ! j, j := xs ! i]"

function sift_up :: "('a \<Rightarrow> 'a \<Rightarrow> bool) \<Rightarrow> nat \<Rightarrow> 'a list \<Rightarrow> 'a list" where
  "sift_up le pos xs =
     (if 0 < pos then
        (if le (xs ! pos) (xs ! par pos) then xs
         else sift_up le (par pos) (swap_at pos (par pos) xs))
      else xs)"
  by pat_completeness auto
termination
  by (relation "measure (\<lambda>(le, pos, xs). pos)") (auto simp: par_less)

declare sift_up.simps [simp del]

function sift_down_to_bottom :: "('a \<Rightarrow> 'a \<Rightarrow> bool) \<Rightarrow> nat \<Rightarrow> 'a list \<Rightarrow> 'a list" where
  "sift_down_to_bottom le pos xs =
     (let child = 2 * pos + 1 in
      if child + 1 < length xs then
        (let c = (if le (xs ! child) (xs ! (child + 1)) then child + 1 else child)
         in sift_down_to_bottom le c (swap_at pos c xs))
      else if child + 1 = length xs then sift_up le child (swap_at pos child xs)
      else sift_up le pos xs)"
  by pat_completeness auto
termination
  by (relation "measure (\<lambda>(le, pos, xs). length xs - pos)")
    (auto simp: swap_at_def split: if_splits)

declare sift_down_to_bottom.simps [simp del]

definition heap_push :: "('a \<Rightarrow> 'a \<Rightarrow> bool) \<Rightarrow> 'a \<Rightarrow> 'a list \<Rightarrow> 'a list" where
  "heap_push le x xs = sift_up le (length xs) (xs @ [x])"

definition heap_pop :: "('a \<Rightarrow> 'a \<Rightarrow> bool) \<Rightarrow> 'a list \<Rightarrow> ('a \<times> 'a list) option" where
  "heap_pop le xs =
     (if xs = [] then None
      else (let item = last xs; rest = butlast xs
            in if rest = [] then Some (item, rest)
               else Some (hd rest, sift_down_to_bottom le 0 (rest[0 := item]))))"

section \<open>Multisets and lengths\<close>

lemma length_swap_at [simp]: "length (swap_at i j xs) = length xs"
  by (simp add: swap_at_def)

lemma mset_swap_at [simp]:
  "i < length xs \<Longrightarrow> j < length xs \<Longrightarrow> mset (swap_at i j xs) = mset xs"
  by (simp add: swap_at_def mset_swap)

lemma nth_swap_at:
  "i < length xs \<Longrightarrow> j < length xs \<Longrightarrow> k < length xs \<Longrightarrow>
   swap_at i j xs ! k = (if k = j then xs ! i else if k = i then xs ! j else xs ! k)"
  by (simp add: swap_at_def nth_list_update)

lemma mset_sift_up: "pos < length xs \<Longrightarrow> mset (sift_up le pos xs) = mset xs"
proof (induction le pos xs rule: sift_up.induct)
  case (1 le pos xs)
  have "par pos < length xs" using "1.prems" par_le [of pos] by linarith
  then show ?case using "1.IH" "1.prems" by (simp add: sift_up.simps [of le pos xs])
qed

lemma mset_sift_down: "pos < length xs \<Longrightarrow> mset (sift_down_to_bottom le pos xs) = mset xs"
proof (induction le pos xs rule: sift_down_to_bottom.induct)
  case (1 le pos xs)
  then show ?case
    by (auto simp: sift_down_to_bottom.simps [of le pos xs] mset_sift_up Let_def)
qed

lemma mset_heap_push: "mset (heap_push le x xs) = add_mset x (mset xs)"
  by (simp add: heap_push_def mset_sift_up)

lemma mset_hd_rest:
  assumes "rest \<noteq> []"
  shows "add_mset (hd rest) (mset (rest[0 := item])) = add_mset item (mset rest)"
  using assms by (cases rest) auto

lemma mset_heap_pop:
  assumes "heap_pop le xs = Some (x, ys)"
  shows "mset xs = add_mset x (mset ys)"
proof -
  have nil: "xs \<noteq> []" using assms by (auto simp: heap_pop_def)
  then have split: "mset xs = add_mset (last xs) (mset (butlast xs))"
    by (metis add_mset_add_single append_butlast_last_id mset.simps mset_append)
  show ?thesis
  proof (cases "butlast xs = []")
    case True
    with assms nil split show ?thesis by (auto simp: heap_pop_def)
  next
    case False
    with assms nil have x: "x = hd (butlast xs)"
      and ys: "ys = sift_down_to_bottom le 0 ((butlast xs)[0 := last xs])"
      by (auto simp: heap_pop_def Let_def)
    from False have "mset ys = mset ((butlast xs)[0 := last xs])"
      unfolding ys by (subst mset_sift_down) (simp_all flip: length_greater_0_conv)
    with x split mset_hd_rest [OF False, of "last xs"] show ?thesis by simp
  qed
qed

lemma heap_pop_None: "heap_pop le xs = None \<longleftrightarrow> xs = []"
  by (simp add: heap_pop_def Let_def)

section \<open>The heap order\<close>

locale total_preorder =
  fixes le :: "'a \<Rightarrow> 'a \<Rightarrow> bool"
  assumes le_trans: "le x y \<Longrightarrow> le y z \<Longrightarrow> le x z"
    and le_total: "le x y \<or> le y x"
begin

definition heap :: "'a list \<Rightarrow> bool" where
  "heap xs \<longleftrightarrow> (\<forall>i < length xs. 0 < i \<longrightarrow> le (xs ! i) (xs ! par i))"

text \<open>Ordered but for the element at \<open>pos\<close> against its parent.\<close>

definition up_heap :: "nat \<Rightarrow> 'a list \<Rightarrow> bool" where
  "up_heap pos xs \<longleftrightarrow>
     (\<forall>i < length xs. 0 < i \<longrightarrow> i \<noteq> pos \<longrightarrow> le (xs ! i) (xs ! par i)) \<and>
     (\<forall>i < length xs. 0 < i \<longrightarrow> 0 < pos \<longrightarrow> par i = pos \<longrightarrow> le (xs ! i) (xs ! par pos))"

text \<open>Ordered but for the element at \<open>pos\<close> against its parent and its children.\<close>

definition hole_heap :: "nat \<Rightarrow> 'a list \<Rightarrow> bool" where
  "hole_heap pos xs \<longleftrightarrow>
     (\<forall>i < length xs. 0 < i \<longrightarrow> i \<noteq> pos \<longrightarrow> par i \<noteq> pos \<longrightarrow> le (xs ! i) (xs ! par i)) \<and>
     (\<forall>i < length xs. 0 < i \<longrightarrow> 0 < pos \<longrightarrow> par i = pos \<longrightarrow> le (xs ! i) (xs ! par pos))"

lemma le_refl: "le x x"
  using le_total by blast

lemma up_heap_swap:
  assumes pos: "0 < pos" "pos < length xs" and up: "up_heap pos xs"
    and nle: "\<not> le (xs ! pos) (xs ! par pos)"
  shows "up_heap (par pos) (swap_at pos (par pos) xs)"
proof -
  let ?p = "par pos"
  have p: "?p < pos" "?p < length xs" using pos par_less [of pos] by auto
  have le_p: "le (xs ! ?p) (xs ! pos)" using nle le_total by blast
  have at: "swap_at pos ?p xs ! k = (if k = ?p then xs ! pos else if k = pos then xs ! ?p else xs ! k)"
    if "k < length xs" for k
    using that pos p by (simp add: nth_swap_at)
  have A: "le (xs ! i) (xs ! par i)" if "i < length xs" "0 < i" "i \<noteq> pos" for i
    using up that by (simp add: up_heap_def)
  have B: "le (xs ! i) (xs ! ?p)" if "i < length xs" "0 < i" "par i = pos" for i
    using up that pos by (simp add: up_heap_def)
  have "le (swap_at pos ?p xs ! i) (swap_at pos ?p xs ! par i)"
    if i: "i < length xs" "0 < i" "i \<noteq> ?p" for i
  proof -
    have "par i < length xs" using i par_le [of i] by linarith
    moreover have "le (xs ! i) (xs ! pos)" if "i \<noteq> pos" "par i = ?p"
      using A [OF i(1,2) that(1)] le_p that(2) le_trans by metis
    ultimately show ?thesis using i p le_p A [OF i(1,2)] B [OF i(1,2)] by (auto simp: at)
  qed
  moreover have "le (swap_at pos ?p xs ! i) (swap_at pos ?p xs ! par ?p)"
    if i: "i < length xs" "0 < i" "0 < ?p" "par i = ?p" for i
  proof -
    have pp: "par ?p < ?p" "par ?p < length xs" using i(3) p par_less [of ?p] by auto
    have "i \<noteq> ?p" using i par_less [OF i(2)] by auto
    moreover have "le (xs ! ?p) (xs ! par ?p)" using A [OF p(2) i(3)] p by auto
    moreover have "le (xs ! i) (xs ! par ?p)" if "i \<noteq> pos"
      using A [OF i(1,2) that] i(4) \<open>le (xs ! ?p) (xs ! par ?p)\<close> le_trans by metis
    ultimately show ?thesis using i pp p by (auto simp: at)
  qed
  ultimately show ?thesis by (simp add: up_heap_def)
qed

lemma sift_up_heap: "pos < length xs \<Longrightarrow> up_heap pos xs \<Longrightarrow> heap (sift_up le pos xs)"
proof (induction pos arbitrary: xs rule: less_induct)
  case (less pos)
  show ?case
  proof (cases "0 < pos \<and> \<not> le (xs ! pos) (xs ! par pos)")
    case True
    then have "heap (sift_up le (par pos) (swap_at pos (par pos) xs))"
      using less.prems up_heap_swap par_less [of pos] by (intro less.IH) auto
    with True show ?thesis by (simp add: sift_up.simps [of le pos xs])
  next
    case False
    then have "heap xs" using less.prems by (auto simp: heap_def up_heap_def)
    with False show ?thesis by (auto simp: sift_up.simps [of le pos xs])
  qed
qed

lemma hole_heap_swap:
  assumes hole: "hole_heap pos xs" and c: "c < length xs" "0 < c" "par c = pos"
    and max: "\<And>i. i < length xs \<Longrightarrow> 0 < i \<Longrightarrow> par i = pos \<Longrightarrow> le (xs ! i) (xs ! c)"
  shows "hole_heap c (swap_at pos c xs)"
proof -
  have p: "pos < c" "pos < length xs" using c par_less [of c] by auto
  have at: "swap_at pos c xs ! k = (if k = c then xs ! pos else if k = pos then xs ! c else xs ! k)"
    if "k < length xs" for k
    using that c p by (simp add: nth_swap_at)
  have A: "le (xs ! i) (xs ! par i)" if "i < length xs" "0 < i" "i \<noteq> pos" "par i \<noteq> pos" for i
    using hole that by (simp add: hole_heap_def)
  have B: "le (xs ! c) (xs ! par pos)" if "0 < pos"
    using hole that c by (simp add: hole_heap_def)
  have "le (swap_at pos c xs ! i) (swap_at pos c xs ! par i)"
    if i: "i < length xs" "0 < i" "i \<noteq> c" "par i \<noteq> c" for i
  proof -
    have "par i < length xs" "par i \<noteq> i" using i(1) par_less [OF i(2)] by auto
    then show ?thesis using i max [OF i(1,2)] B A [OF i(1,2)] p by (auto simp: at)
  qed
  moreover have "le (swap_at pos c xs ! i) (swap_at pos c xs ! par c)"
    if i: "i < length xs" "0 < i" "par i = c" for i
  proof -
    have "i \<noteq> c" "i \<noteq> pos" using i(3) par_less [OF i(2)] p by auto
    then show ?thesis using i c p A [OF i(1,2)] by (auto simp: at)
  qed
  ultimately show ?thesis by (simp add: hole_heap_def)
qed

lemma hole_heap_leaf:
  "length xs \<le> 2 * pos + 1 \<Longrightarrow> hole_heap pos xs \<Longrightarrow> up_heap pos xs"
  by (auto simp: hole_heap_def up_heap_def par_eq_iff)

lemma sift_down_heap:
  "pos < length xs \<Longrightarrow> hole_heap pos xs \<Longrightarrow> heap (sift_down_to_bottom le pos xs)"
proof (induction "length xs - pos" arbitrary: pos xs rule: less_induct)
  case less
  let ?child = "2 * pos + 1"
  consider (two) "?child + 1 < length xs" | (one) "?child + 1 = length xs"
    | (leaf) "length xs \<le> ?child" by linarith
  then show ?case
  proof cases
    case two
    let ?c = "if le (xs ! ?child) (xs ! (?child + 1)) then ?child + 1 else ?child"
    have c: "?c < length xs" "0 < ?c" "par ?c = pos" using two by (auto simp: par_def)
    have "le (xs ! i) (xs ! ?c)" if "i < length xs" "0 < i" "par i = pos" for i
      using that le_refl le_total by (auto simp: par_eq_iff)
    then have "hole_heap ?c (swap_at pos ?c xs)"
      using less.prems(2) c by (intro hole_heap_swap) auto
    then have "heap (sift_down_to_bottom le ?c (swap_at pos ?c xs))"
      using two c by (intro less.hyps) auto
    moreover have "sift_down_to_bottom le pos xs = sift_down_to_bottom le ?c (swap_at pos ?c xs)"
      by (subst sift_down_to_bottom.simps) (simp only: two Let_def if_True)
    ultimately show ?thesis by simp
  next
    case one
    have "le (xs ! i) (xs ! ?child)" if "i < length xs" "0 < i" "par i = pos" for i
      using that one le_refl by (auto simp: par_eq_iff)
    then have "hole_heap ?child (swap_at pos ?child xs)"
      using less.prems(2) one by (intro hole_heap_swap) (auto simp: par_def)
    then have "up_heap ?child (swap_at pos ?child xs)"
      using one by (intro hole_heap_leaf) auto
    then have "heap (sift_up le ?child (swap_at pos ?child xs))"
      using one by (intro sift_up_heap) auto
    with one show ?thesis by (simp add: sift_down_to_bottom.simps [of le pos xs] Let_def)
  next
    case leaf
    then have "heap (sift_up le pos xs)"
      using less.prems by (intro sift_up_heap hole_heap_leaf) auto
    with leaf show ?thesis by (simp add: sift_down_to_bottom.simps [of le pos xs] Let_def)
  qed
qed

lemma heap_heap_push: "heap xs \<Longrightarrow> heap (heap_push le x xs)"
proof -
  assume h: "heap xs"
  have "par i < length xs" if "0 < i" "i < Suc (length xs)" for i
    using that par_less [of i] by simp
  moreover have "par i \<noteq> length xs" if "i < Suc (length xs)" "0 < i" for i
    using that par_less [of i] by simp
  ultimately have "up_heap (length xs) (xs @ [x])"
    using h by (auto simp: up_heap_def heap_def nth_append)
  then show ?thesis by (simp add: heap_push_def sift_up_heap)
qed

lemma heap_root_max: "heap xs \<Longrightarrow> i < length xs \<Longrightarrow> le (xs ! i) (xs ! 0)"
proof (induction i rule: less_induct)
  case (less i)
  show ?case
  proof (cases "i = 0")
    case True
    then show ?thesis by (simp add: le_refl)
  next
    case False
    then have "par i < i" by (simp add: par_less)
    moreover have "le (xs ! i) (xs ! par i)" using less.prems False by (simp add: heap_def)
    ultimately show ?thesis using less.IH [of "par i"] less.prems le_trans by auto
  qed
qed

lemma heap_butlast: "heap xs \<Longrightarrow> heap (butlast xs)"
proof -
  assume h: "heap xs"
  have "par i < length xs - 1" if "0 < i" "i < length xs - 1" for i
    using that par_less [of i] by simp
  with h show ?thesis by (auto simp: heap_def nth_butlast)
qed

lemma heap_pop_heap:
  assumes "heap xs" and "heap_pop le xs = Some (x, ys)"
  shows "heap ys"
proof (cases "butlast xs = []")
  case True
  with assms show ?thesis by (auto simp: heap_pop_def heap_def Let_def split: if_splits)
next
  case False
  then have ys: "ys = sift_down_to_bottom le 0 ((butlast xs)[0 := last xs])"
    using assms(2) by (auto simp: heap_pop_def Let_def split: if_splits)
  have "hole_heap 0 ((butlast xs)[0 := last xs])"
    using heap_butlast [OF assms(1)] par_less
    by (auto simp: hole_heap_def heap_def nth_list_update)
  then show ?thesis
    unfolding ys using False by (intro sift_down_heap) (simp_all flip: length_greater_0_conv)
qed

lemma heap_pop_max:
  assumes "heap xs" and "heap_pop le xs = Some (x, ys)"
  shows "\<forall>y \<in># mset ys. le y x"
proof -
  have ne: "xs \<noteq> []" using assms(2) heap_pop_None [of le xs] by auto
  have "x = xs ! 0"
    using assms(2) ne
    by (cases xs rule: rev_cases) (auto simp: heap_pop_def Let_def hd_conv_nth nth_append split: if_splits)
  moreover have "y \<in> set xs" if "y \<in># mset ys" for y
    using that mset_heap_pop [OF assms(2)] by (metis set_mset_mset insert_iff set_mset_add_mset_insert)
  ultimately show ?thesis
    using heap_root_max [OF assms(1)] by (metis in_set_conv_nth)
qed

end

section \<open>The interface of a maximum priority queue\<close>

text \<open>What the scheduler relies on: the elements as a multiset, and that a pop removes one of the
  greatest of them.\<close>

locale max_pqueue =
  fixes le :: "'a \<Rightarrow> 'a \<Rightarrow> bool"
    and push :: "'a \<Rightarrow> 'q \<Rightarrow> 'q"
    and pop :: "'q \<Rightarrow> ('a \<times> 'q) option"
    and elems :: "'q \<Rightarrow> 'a multiset"
    and invar :: "'q \<Rightarrow> bool"
  assumes elems_push: "invar q \<Longrightarrow> elems (push x q) = add_mset x (elems q)"
    and pop_None: "invar q \<Longrightarrow> pop q = None \<longleftrightarrow> elems q = {#}"
    and elems_pop: "invar q \<Longrightarrow> pop q = Some (x, q') \<Longrightarrow> elems q = add_mset x (elems q')"
    and pop_max: "invar q \<Longrightarrow> pop q = Some (x, q') \<Longrightarrow> y \<in># elems q' \<Longrightarrow> le y x"
    and invar_push: "invar q \<Longrightarrow> invar (push x q)"
    and invar_pop: "invar q \<Longrightarrow> pop q = Some (x, q') \<Longrightarrow> invar q'"
begin

lemma pop_mem: "invar q \<Longrightarrow> pop q = Some (x, q') \<Longrightarrow> x \<in># elems q"
  by (simp add: elems_pop)

lemma pop_subset: "invar q \<Longrightarrow> pop q = Some (x, q') \<Longrightarrow> set_mset (elems q') \<subseteq> set_mset (elems q)"
  by (auto simp: elems_pop)

lemma pop_size: "invar q \<Longrightarrow> pop q = Some (x, q') \<Longrightarrow> size (elems q') < size (elems q)"
  by (simp add: elems_pop)

lemma pop_push_ne: "invar q \<Longrightarrow> pop (push x q) \<noteq> None"
  by (simp add: pop_None invar_push elems_push)

end

sublocale total_preorder \<subseteq> max_pqueue le "heap_push le" "heap_pop le" mset heap
  by unfold_locales
    (auto simp: mset_heap_push heap_pop_None mset_heap_pop heap_heap_push
      intro: heap_pop_heap dest: heap_pop_max)

end
