(* ===== verification/Process.thy ===== *)
theory Process
  imports Arch_Process Binary_Heap
begin

text \<open>
  The process manager (\<open>src/src/process.rs\<close>): the state of \<open>ProcessManager\<close> together with the machine it
  runs on, and its operations as resumptions. Every operation is the whole function of the source,
  its interrupt mask, its early returns (\<open>?\<close> leaves the function at once) and its calls of
  \<open>schedule\<close> included; \<open>schedule\<close> stops at \<open>context_switch\<close>.

  The spin locks around the tables are transparent here (one hart, interrupts off while they are
  held).
\<close>

section \<open>Data\<close>

datatype ProcessEvent = MouseEvent | KeyboardEvent | ExitEvent usize

datatype State = Running | Ready | Suspend | Sleep | SemaWait | IOWait | EventWait | Free

definition KERNEL_STACK_SIZE :: usize where
  "KERNEL_STACK_SIZE = 0x10000"

record Process =
  p_state :: State
  arch_proc :: ArchProcess
  p_pid :: usize
  p_priority :: usize
  p_children :: "usize list"
  p_name :: string
  p_kernel_stack :: usize
  p_user_stack :: usize

datatype ProcessDesc = ProcessDesc (pd_priority: usize) (pd_pid: usize)

text \<open>\<open>Ord for ProcessDesc\<close> compares priorities only.\<close>

definition desc_le :: "ProcessDesc \<Rightarrow> ProcessDesc \<Rightarrow> bool" where
  "desc_le a b \<longleftrightarrow> pd_priority a \<le> pd_priority b"

datatype ProcessDelay = ProcessDelay (dl_pid: usize) (dl_delay: usize)

record DeferScheduler =
  d_count :: usize
  d_attempt :: bool

datatype DeferCommand = Start | Stop

datatype SemaState = SemaUsed | SemaFree

record Semaphore =
  s_state :: SemaState
  s_count :: isize
  s_queue :: "usize list"

definition Semaphore_new :: "isize \<Rightarrow> Semaphore" where
  "Semaphore_new cnt = \<lparr>s_state = SemaFree, s_count = cnt, s_queue = []\<rparr>"

datatype ProcessError = ProcessNotFound usize | SemaphoreNotFound usize

record ProcessManager =
  ptable :: "usize \<Rightarrow> Process option"
  stable :: "usize \<Rightarrow> Semaphore option"
  pqueue :: "ProcessDesc list"
  sleep_queue :: "ProcessDelay list"
  event_queue :: "ProcessEvent \<Rightarrow> usize list option"
  defer_sched :: DeferScheduler
  curr_pid :: usize
  curr_sid :: usize
  running :: usize
  hw :: machine

type_synonym 'a pop = "(ProcessManager, ProcessError, 'a) kop"

definition ProcessManager_new :: "machine \<Rightarrow> ProcessManager" where
  "ProcessManager_new m = \<lparr>ptable = (\<lambda>_. None), stable = (\<lambda>_. None), pqueue = [], sleep_queue = [],
     event_queue = (\<lambda>_. None), defer_sched = \<lparr>d_count = 0, d_attempt = False\<rparr>, curr_pid = 0,
     curr_sid = 0, running = 0, hw = m\<rparr>"

definition Process_new :: "usize \<Rightarrow> machine \<Rightarrow> Process \<times> machine" where
  "Process_new pid m =
     (case ArchProcess_new pid m of (ap, m1) \<Rightarrow>
        (\<lparr>p_state = Free, arch_proc = ap, p_pid = pid, p_priority = 0, p_children = [], p_name = '''',
          p_kernel_stack = 0, p_user_stack = 0\<rparr>, m1))"

section \<open>Access to the tables and the machine\<close>

definition get_process :: "usize \<Rightarrow> Process pop" where
  "get_process pid = (\<lambda>s. case ptable s pid of
       None \<Rightarrow> Done (Err (ProcessNotFound pid)) s
     | Some p \<Rightarrow> Done (Ok p) s)"

text \<open>\<open>get_process_mut!(ptable, pid)?.field = value\<close>.\<close>

definition upd_process :: "usize \<Rightarrow> (Process \<Rightarrow> Process) \<Rightarrow> unit pop" where
  "upd_process pid f = (\<lambda>s. case ptable s pid of
       None \<Rightarrow> Done (Err (ProcessNotFound pid)) s
     | Some p \<Rightarrow> Done (Ok ()) (s\<lparr>ptable := (ptable s)(pid \<mapsto> f p)\<rparr>))"

definition set_state :: "usize \<Rightarrow> State \<Rightarrow> unit pop" where
  "set_state pid st = upd_process pid (p_state_update (\<lambda>_. st))"

definition get_semaphore :: "usize \<Rightarrow> Semaphore pop" where
  "get_semaphore sid = (\<lambda>s. case stable s sid of
       None \<Rightarrow> Done (Err (SemaphoreNotFound sid)) s
     | Some sema \<Rightarrow> Done (Ok sema) s)"

definition upd_semaphore :: "usize \<Rightarrow> (Semaphore \<Rightarrow> Semaphore) \<Rightarrow> unit pop" where
  "upd_semaphore sid f = (\<lambda>s. case stable s sid of
       None \<Rightarrow> Done (Err (SemaphoreNotFound sid)) s
     | Some sema \<Rightarrow> Done (Ok ()) (s\<lparr>stable := (stable s)(sid \<mapsto> f sema)\<rparr>))"

definition irq_disable :: "(ProcessManager, 'e, usize) kop" where
  "irq_disable = (\<lambda>s. case interrupt_disable (csrs (hw s)) of (msk, f) \<Rightarrow>
     Done (Ok msk) (s\<lparr>hw := (hw s)\<lparr>csrs := f\<rparr>\<rparr>))"

definition irq_restore :: "usize \<Rightarrow> (ProcessManager, 'e, unit) kop" where
  "irq_restore msk = modify (\<lambda>s. s\<lparr>hw := (hw s)\<lparr>csrs := interrupt_restore msk (csrs (hw s))\<rparr>\<rparr>)"

text \<open>A function on the machine alone, called by the manager.\<close>

definition on_hw :: "(machine \<Rightarrow> ('e, 'a) result \<times> machine) \<Rightarrow> (ProcessManager, 'e, 'a) kop" where
  "on_hw f = lift (\<lambda>s. case f (hw s) of (r, m) \<Rightarrow> (r, s\<lparr>hw := m\<rparr>))"

section \<open>Scheduling\<close>

lemma length_heap_pop: "heap_pop le q = Some (x, q') \<Longrightarrow> length q' < length q"
  using mset_heap_pop [of le q x q'] by (metis lessI size_add_mset size_mset)

text \<open>\<open>pop_ready_proc\<close>: entries of processes that are not \<open>Ready\<close> any more are dropped.\<close>

function pop_ready ::
  "(usize \<Rightarrow> Process option) \<Rightarrow> ProcessDesc list \<Rightarrow>
   (ProcessError, ProcessDesc option) result \<times> ProcessDesc list" where
  "pop_ready pt q =
     (case heap_pop desc_le q of
        None \<Rightarrow> (Ok None, q)
      | Some (p, q') \<Rightarrow>
          (case pt (pd_pid p) of
             None \<Rightarrow> (Err (ProcessNotFound (pd_pid p)), q')
           | Some proc \<Rightarrow> if p_state proc = Ready then (Ok (Some p), q') else pop_ready pt q'))"
  by pat_completeness auto
termination
  by (relation "measure (\<lambda>(pt, q). length q)") (auto dest: length_heap_pop)

declare pop_ready.simps [simp del]

definition pop_ready_proc :: "ProcessDesc option pop" where
  "pop_ready_proc = lift (\<lambda>s. case pop_ready (ptable s) (pqueue s) of (r, q) \<Rightarrow> (r, s\<lparr>pqueue := q\<rparr>))"

definition push_ready :: "usize \<Rightarrow> usize \<Rightarrow> unit pop" where
  "push_ready priority pid =
     modify (\<lambda>s. s\<lparr>pqueue := heap_push desc_le (ProcessDesc priority pid) (pqueue s)\<rparr>)"

text \<open>\<open>context_switch(old_context, new_context)\<close> on the contexts in the process table.\<close>

definition context_switch :: "usize \<Rightarrow> usize \<Rightarrow> ProcessManager \<Rightarrow> ProcessManager" where
  "context_switch old_pid new_pid s =
     (let save = (\<lambda>p. p\<lparr>arch_proc := (arch_proc p)\<lparr>ap_context :=
                    save_context (hw s) (ap_context (arch_proc p))\<rparr>\<rparr>);
          pt = (ptable s)(old_pid := map_option save (ptable s old_pid))
      in case pt new_pid of
           None \<Rightarrow> s\<lparr>ptable := pt\<rparr>
         | Some p \<Rightarrow> s\<lparr>ptable := pt, hw := load_context (ap_context (arch_proc p)) (hw s)\<rparr>)"

definition switch_to :: "usize \<Rightarrow> usize \<Rightarrow> usize \<Rightarrow> unit pop" where
  "switch_to msk old_pid new_pid =
     seq (set_state new_pid Running)
    (seq (modify (\<lambda>s. s\<lparr>running := new_pid\<rparr>))
    (seq (switch old_pid (context_switch old_pid new_pid))
         (irq_restore msk)))"

definition schedule :: "unit pop" where
  "schedule =
     bind irq_disable (\<lambda>msk.
     bind (gets defer_sched) (\<lambda>d.
     if d_count d > 0 then
       seq (modify (\<lambda>s. s\<lparr>defer_sched := (defer_sched s)\<lparr>d_attempt := True\<rparr>\<rparr>)) (irq_restore msk)
     else
     bind pop_ready_proc (\<lambda>proc.
     case proc of
       None \<Rightarrow> irq_restore msk
     | Some pdesc \<Rightarrow>
         bind (gets running) (\<lambda>old_pid.
         bind (get_process old_pid) (\<lambda>old.
         bind (get_process (pd_pid pdesc)) (\<lambda>new.
         let new_pid = pd_pid pdesc; old_priority = p_priority old; new_priority = p_priority new
         in if old_priority \<le> new_priority then
              seq (if p_state old = Running
                   then seq (set_state old_pid Ready) (push_ready old_priority old_pid)
                   else ret ())
                  (switch_to msk old_pid new_pid)
            else if p_state old = Running then
              seq (push_ready new_priority new_pid) (irq_restore msk)
            else switch_to msk old_pid new_pid))))))"

definition defer_schedule :: "DeferCommand \<Rightarrow> unit pop" where
  "defer_schedule cmd = (case cmd of
     Start \<Rightarrow>
       seq (modify (\<lambda>s. if d_count (defer_sched s) = 0
                        then s\<lparr>defer_sched := (defer_sched s)\<lparr>d_attempt := False\<rparr>\<rparr> else s))
           (modify (\<lambda>s. s\<lparr>defer_sched := (defer_sched s)\<lparr>d_count := d_count (defer_sched s) + 1\<rparr>\<rparr>))
   | Stop \<Rightarrow>
       seq (modify (\<lambda>s. s\<lparr>defer_sched := (defer_sched s)\<lparr>d_count := d_count (defer_sched s) - 1\<rparr>\<rparr>))
      (bind (gets defer_sched) (\<lambda>d.
         if d_count d = 0 \<and> d_attempt d then schedule else ret ())))"

definition ready :: "usize \<Rightarrow> unit pop" where
  "ready pid =
     bind (get_process pid) (\<lambda>p.
     if p_state p = Free \<or> p_state p = Running \<or> p_state p = Ready then ret ()
     else seq (set_state pid Ready)
         (seq (push_ready (p_priority p) pid)
              schedule))"

section \<open>Semaphores\<close>

definition create_semaphore :: "isize \<Rightarrow> usize pop" where
  "create_semaphore cnt =
     bind irq_disable (\<lambda>msk.
     bind (gets curr_sid) (\<lambda>sid.
     seq (modify (\<lambda>s. s\<lparr>curr_sid := curr_sid s + 1\<rparr>))
    (seq (modify (\<lambda>s. s\<lparr>stable := (stable s)(sid \<mapsto> Semaphore_new cnt)\<rparr>))
    (seq (irq_restore msk)
         (ret sid)))))"

definition wait_semaphore :: "usize \<Rightarrow> unit pop" where
  "wait_semaphore sid =
     bind irq_disable (\<lambda>msk.
     bind (gets running) (\<lambda>pid.
     seq (upd_semaphore sid (\<lambda>sema. sema\<lparr>s_count := s_count sema - 1\<rparr>))
    (bind (get_semaphore sid) (\<lambda>sema.
     seq (if s_count sema <s 0 then
            seq (set_state pid SemaWait)
           (seq (upd_semaphore sid (\<lambda>sema. sema\<lparr>s_queue := s_queue sema @ [pid]\<rparr>))
                schedule)
          else ret ())
         (irq_restore msk)))))"

text \<open>\<open>queue.pop_front().unwrap()\<close>.\<close>

definition pop_waiter :: "usize \<Rightarrow> usize pop" where
  "pop_waiter sid =
     bind (get_semaphore sid) (\<lambda>sema.
     case s_queue sema of
       [] \<Rightarrow> panic ''unwrap on None''
     | pid # rest \<Rightarrow> seq (upd_semaphore sid (\<lambda>sema. sema\<lparr>s_queue := rest\<rparr>)) (ret pid))"

definition signal_semaphore :: "usize \<Rightarrow> unit pop" where
  "signal_semaphore sid =
     bind irq_disable (\<lambda>msk.
     bind (get_semaphore sid) (\<lambda>sema.
     seq (if s_count sema <s 0 then
            bind (pop_waiter sid) (\<lambda>pid.
            seq (upd_semaphore sid (\<lambda>sema. sema\<lparr>s_count := s_count sema + 1\<rparr>))
                (ready pid))
          else upd_semaphore sid (\<lambda>sema. sema\<lparr>s_count := s_count sema + 1\<rparr>))
         (irq_restore msk)))"

text \<open>The loop of \<open>delete_semaphore\<close>, with fuel for its iterations.\<close>

primrec wake_waiters :: "nat \<Rightarrow> usize \<Rightarrow> unit pop" where
  "wake_waiters 0 sid = panic ''out of fuel''"
| "wake_waiters (Suc n) sid =
     bind (get_semaphore sid) (\<lambda>sema.
     if s_count sema <s 0 then
       bind (pop_waiter sid) (\<lambda>pid.
       seq (ready pid)
      (seq (upd_semaphore sid (\<lambda>sema. sema\<lparr>s_count := s_count sema + 1\<rparr>))
           (wake_waiters n sid)))
     else ret ())"

text \<open>One iteration per waiter and the final test: \<open>Suc (length queue)\<close> iterations are enough, since the
  loop pops a waiter each time and nobody else runs while scheduling is deferred.\<close>

definition delete_semaphore :: "usize \<Rightarrow> unit pop" where
  "delete_semaphore sid =
     bind irq_disable (\<lambda>msk.
     seq (upd_semaphore sid (\<lambda>sema. sema\<lparr>s_state := SemaFree\<rparr>))
    (seq (defer_schedule Start)
    (bind (get_semaphore sid) (\<lambda>sema.
     seq (wake_waiters (Suc (length (s_queue sema))) sid)
    (seq (defer_schedule Stop)
    (seq schedule
         (irq_restore msk)))))))"

section \<open>Sleeping\<close>

text \<open>The sleep queue is a list of delays relative to the entry before. The walk of \<open>sleep\<close> to the place
  of the new entry, the insertion, and the correction of the entry after it.\<close>

fun sleep_insert :: "usize \<Rightarrow> usize \<Rightarrow> usize \<Rightarrow> ProcessDelay list \<Rightarrow> ProcessDelay list" where
  "sleep_insert pid delay delay_sum [] = [ProcessDelay pid (delay - delay_sum)]"
| "sleep_insert pid delay delay_sum (node # q) =
     (if delay < delay_sum + dl_delay node then
        (let relative_delay = delay - delay_sum
         in ProcessDelay pid relative_delay
            # ProcessDelay (dl_pid node) (dl_delay node - relative_delay) # q)
      else node # sleep_insert pid delay (delay_sum + dl_delay node) q)"

definition sleep :: "usize \<Rightarrow> usize \<Rightarrow> unit pop" where
  "sleep pid delay =
     bind irq_disable (\<lambda>msk.
     seq (set_state pid Sleep)
    (seq (modify (\<lambda>s. s\<lparr>sleep_queue := sleep_insert pid delay 0 (sleep_queue s)\<rparr>))
    (seq schedule
         (irq_restore msk))))"

text \<open>The tick on the queue: the first delay is counted down and the entries that have reached 0 are
  taken off.\<close>

definition sleep_tick :: "ProcessDelay list \<Rightarrow> usize list \<times> ProcessDelay list" where
  "sleep_tick q =
     (case q of
        [] \<Rightarrow> ([], [])
      | p # rest \<Rightarrow>
          (let p' = (if dl_delay p \<ge> 1 then ProcessDelay (dl_pid p) (dl_delay p - 1) else p);
               q' = p' # rest
           in (map dl_pid (takeWhile (\<lambda>p. dl_delay p = 0) q'), dropWhile (\<lambda>p. dl_delay p = 0) q')))"

definition wakeup :: "unit pop" where
  "wakeup =
     bind irq_disable (\<lambda>msk.
     bind (gets sleep_queue) (\<lambda>q.
     seq (if q = [] then ret ()
          else (case sleep_tick q of (pids, q') \<Rightarrow>
                  seq (modify (\<lambda>s. s\<lparr>sleep_queue := q'\<rparr>))
                 (seq (defer_schedule Start)
                 (seq (for_each (\<lambda>pid. bind (get_process pid) (\<lambda>p.
                           if p_state p = Sleep then ready pid else ret ())) pids)
                 (seq (defer_schedule Stop)
                      schedule)))))
         (irq_restore msk)))"

section \<open>Events\<close>

definition event_wait :: "usize \<Rightarrow> ProcessEvent \<Rightarrow> unit pop" where
  "event_wait pid event =
     bind irq_disable (\<lambda>msk.
     seq (set_state pid EventWait)
    (seq (modify (\<lambda>s. s\<lparr>event_queue := (event_queue s)(event \<mapsto>
            (case event_queue s event of None \<Rightarrow> [] | Some pids \<Rightarrow> pids) @ [pid])\<rparr>))
    (seq schedule
         (irq_restore msk))))"

definition event_signal :: "ProcessEvent \<Rightarrow> unit pop" where
  "event_signal event =
     bind irq_disable (\<lambda>msk.
     seq (defer_schedule Start)
    (bind (gets (\<lambda>s. event_queue s event)) (\<lambda>events.
     seq (modify (\<lambda>s. s\<lparr>event_queue := (event_queue s)(event := None)\<rparr>))
    (case events of
       None \<Rightarrow> seq (defer_schedule Stop) (irq_restore msk)
     | Some pids \<Rightarrow>
         seq (for_each ready pids)
        (seq (defer_schedule Stop)
        (seq schedule
             (irq_restore msk)))))))"

definition io_wait :: "usize \<Rightarrow> unit pop" where
  "io_wait pid =
     bind irq_disable (\<lambda>msk.
     seq (set_state pid IOWait)
         (irq_restore msk))"

definition io_signal :: "usize \<Rightarrow> unit pop" where
  "io_signal pid =
     bind irq_disable (\<lambda>msk.
     seq (ready pid)
         (irq_restore msk))"

section \<open>Creation and end of processes\<close>

text \<open>\<open>setup_process\<close> and \<open>setup_kernel_process\<close> differ in the start address; \<open>self_ptr\<close> is the address
  of the \<open>ArchProcess\<close> in the table.\<close>

definition setup_kernel_process :: "entry_points \<Rightarrow> (usize \<Rightarrow> usize) \<Rightarrow> usize \<Rightarrow> usize \<Rightarrow> unit pop" where
  "setup_kernel_process ep self_ptr pid func =
     bind (get_process pid) (\<lambda>p.
     bind (on_hw (\<lambda>m. case ArchProcess_new pid m of (ap, m1) \<Rightarrow> (Ok ap, m1))) (\<lambda>ap.
     seq (upd_process pid (\<lambda>p. p\<lparr>arch_proc := ap\<rparr>))
    (bind (on_hw (ArchProcess_init ep (self_ptr pid) func (p_kernel_stack p) KERNEL_STACK_SIZE ap)) (\<lambda>ap'.
     upd_process pid (\<lambda>p. p\<lparr>arch_proc := ap'\<rparr>)))))"

definition setup_process :: "entry_points \<Rightarrow> (usize \<Rightarrow> usize) \<Rightarrow> usize \<Rightarrow> unit pop" where
  "setup_process ep self_ptr pid = setup_kernel_process ep self_ptr pid (ep_user_trap_return ep)"

definition create_process ::
  "entry_points \<Rightarrow> (usize \<Rightarrow> usize) \<Rightarrow> string \<Rightarrow> usize \<Rightarrow> bool \<Rightarrow> usize pop" where
  "create_process ep self_ptr name priority do_setup =
     seq (defer_schedule Start)
    (bind (gets curr_pid) (\<lambda>pid.
     seq (modify (\<lambda>s. s\<lparr>curr_pid := curr_pid s + 1\<rparr>))
    (seq (modify (\<lambda>s. case Process_new pid (hw s) of (p, m) \<Rightarrow>
            s\<lparr>ptable := (ptable s)(pid \<mapsto> p), hw := m\<rparr>))
    (seq (upd_process pid (\<lambda>p. p\<lparr>p_priority := priority\<rparr>))
    (seq (upd_process pid (\<lambda>p. p\<lparr>p_name := name\<rparr>))
    (bind (on_hw (\<lambda>m. case alloc (KERNEL_STACK_SIZE, 0x1000) m of (stk, m1) \<Rightarrow> (Ok stk, m1))) (\<lambda>kernel_stack.
     seq (upd_process pid (\<lambda>p. p\<lparr>p_kernel_stack := kernel_stack\<rparr>))
    (seq (set_state pid Suspend)
    (seq (if do_setup then setup_process ep self_ptr pid else ret ())
    (seq (defer_schedule Stop)
         (ret pid)))))))))))"

definition create_kernel_process ::
  "entry_points \<Rightarrow> (usize \<Rightarrow> usize) \<Rightarrow> string \<Rightarrow> usize \<Rightarrow> usize \<Rightarrow> usize pop" where
  "create_kernel_process ep self_ptr name priority func =
     bind (create_process ep self_ptr name priority False) (\<lambda>pid.
     seq (setup_kernel_process ep self_ptr pid func)
         (ret pid))"

definition kill :: "usize \<Rightarrow> unit pop" where
  "kill pid =
     bind irq_disable (\<lambda>msk.
     bind (get_process pid) (\<lambda>p.
     seq (if p_state p = Free then ret () else set_state pid Free)
    (bind (get_process pid) (\<lambda>p.
     seq (on_hw (ArchProcess_free (arch_proc p)))
    (bind (get_process pid) (\<lambda>p.
     seq (modify (\<lambda>s. s\<lparr>hw := dealloc (p_kernel_stack p) (KERNEL_STACK_SIZE, 0x1000) (hw s)\<rparr>))
    (seq (event_signal (ExitEvent pid))
    (seq schedule
         (irq_restore msk)))))))))"

text \<open>\<open>VecDeque::remove(i)\<close>: the element at position \<open>i\<close>, if there is one.\<close>

definition remove_at :: "usize \<Rightarrow> 'a list \<Rightarrow> 'a list" where
  "remove_at i xs = take (unat i) xs @ drop (Suc (unat i)) xs"

text \<open>The first loop of \<open>wait_exit\<close>: \<open>True\<close> when it has returned from the function.\<close>

primrec reap_child :: "usize \<Rightarrow> usize list \<Rightarrow> bool pop" where
  "reap_child running_pid [] = ret False"
| "reap_child running_pid (pid # pids) =
     bind (get_process pid) (\<lambda>p.
     if p_state p = Free then
       seq (upd_process running_pid (\<lambda>p. p\<lparr>p_children := remove_at pid (p_children p)\<rparr>)) (ret True)
     else reap_child running_pid pids)"

definition wait_exit :: "unit pop" where
  "wait_exit =
     bind irq_disable (\<lambda>msk.
     bind (gets running) (\<lambda>running_pid.
     bind (get_process running_pid) (\<lambda>p.
     bind (reap_child running_pid (p_children p)) (\<lambda>returned.
     if returned then ret ()
     else
       seq (defer_schedule Start)
      (bind (gets running) (\<lambda>running_pid.
       bind (get_process running_pid) (\<lambda>p.
       seq (for_each (\<lambda>pid. bind (gets running) (\<lambda>r. event_wait r (ExitEvent pid))) (p_children p))
      (seq (defer_schedule Stop)
      (seq schedule
           (irq_restore msk))))))))))"

definition fork :: "usize \<Rightarrow> usize pop" where
  "fork pid = ret 0"

definition get_process_state :: "usize \<Rightarrow> State pop" where
  "get_process_state pid = bind (get_process pid) (\<lambda>p. ret (p_state p))"

definition pm_init :: "entry_points \<Rightarrow> (usize \<Rightarrow> usize) \<Rightarrow> unit pop" where
  "pm_init ep self_ptr =
     bind (create_process ep self_ptr ''null'' 0 True) (\<lambda>pid.
     seq (set_state pid Running)
         (modify (\<lambda>s. s\<lparr>running := pid\<rparr>)))"

text \<open>\<open>process::init\<close>: a new manager, whose set-up must not fail.\<close>

definition process_init ::
  "entry_points \<Rightarrow> (usize \<Rightarrow> usize) \<Rightarrow> machine \<Rightarrow> (ProcessManager, ProcessError, unit) prog" where
  "process_init ep self_ptr m = expect ''process'' (pm_init ep self_ptr) (ProcessManager_new m)"

end
