(* ===== verification/Process_Inv.thy ===== *)
theory Process_Inv
  imports Process
begin

text \<open>
  The invariant of the process manager and its preservation by every operation, across context
  switches.
\<close>

section \<open>The ready list\<close>

interpretation pq: total_preorder desc_le
  by unfold_locales (auto simp: desc_le_def)

definition st :: "ProcessManager \<Rightarrow> usize \<Rightarrow> State option" where
  "st s p = map_option p_state (ptable s p)"

lemma pop_ready_spec:
  assumes "pq.heap q" "\<forall>d \<in> set q. pt (pd_pid d) \<noteq> None"
  shows "(\<exists>q'. pop_ready pt q = (Ok None, q') \<and> q' = [] \<and>
            (\<forall>d \<in> set q. map_option p_state (pt (pd_pid d)) \<noteq> Some Ready)) \<or>
         (\<exists>d q'. pop_ready pt q = (Ok (Some d), q') \<and> d \<in> set q \<and> set q' \<subseteq> set q \<and> pq.heap q' \<and>
            map_option p_state (pt (pd_pid d)) = Some Ready \<and>
            (\<forall>e \<in> set q. map_option p_state (pt (pd_pid e)) = Some Ready \<longrightarrow>
               (e = d \<or> e \<in> set q') \<and> pd_priority e \<le> pd_priority d))"
  using assms
proof (induction pt q rule: pop_ready.induct)
  case (1 pt q)
  show ?case
  proof (cases "heap_pop desc_le q")
    case None
    then have "q = []" by (simp add: heap_pop_None)
    then show ?thesis by (simp add: pop_ready.simps heap_pop_def)
  next
    case (Some dq)
    obtain d q' where dq: "dq = (d, q')" by (cases dq)
    with Some have pop: "heap_pop desc_le q = Some (d, q')" by simp
    have q: "mset q = add_mset d (mset q')" by (rule mset_heap_pop [OF pop])
    then have set: "set q = insert d (set q')" by (metis set_mset_add_mset_insert set_mset_mset)
    have max: "pd_priority e \<le> pd_priority d" if "e \<in> set q'" for e
      using pq.pop_max [OF "1.prems"(1) pop] that by (simp add: desc_le_def)
    have heap: "pq.heap q'" using pq.heap_pop_heap [OF "1.prems"(1) pop] .
    obtain proc where proc: "pt (pd_pid d) = Some proc" using "1.prems"(2) set by auto
    show ?thesis
    proof (cases "p_state proc = Ready")
      case True
      then have "pop_ready pt q = (Ok (Some d), q')"
        by (simp add: pop_ready.simps [of pt q] pop proc)
      then show ?thesis using True proc set heap max by auto
    next
      case False
      have IH: "(\<exists>r. pop_ready pt q' = (Ok None, r) \<and> r = [] \<and>
            (\<forall>d \<in> set q'. map_option p_state (pt (pd_pid d)) \<noteq> Some Ready)) \<or>
         (\<exists>d r. pop_ready pt q' = (Ok (Some d), r) \<and> d \<in> set q' \<and> set r \<subseteq> set q' \<and> pq.heap r \<and>
            map_option p_state (pt (pd_pid d)) = Some Ready \<and>
            (\<forall>e \<in> set q'. map_option p_state (pt (pd_pid e)) = Some Ready \<longrightarrow>
               (e = d \<or> e \<in> set r) \<and> pd_priority e \<le> pd_priority d))"
        using "1.IH" [OF Some dq [symmetric] proc] False heap "1.prems"(2) set by auto
      have "pop_ready pt q = pop_ready pt q'"
        using False by (simp add: pop_ready.simps [of pt q] pop proc)
      moreover have "map_option p_state (pt (pd_pid d)) \<noteq> Some Ready" using False proc by simp
      ultimately show ?thesis using IH set by auto
    qed
  qed
qed

lemma set_heap_push: "set (heap_push le x q) = insert x (set q)"
  by (metis mset_heap_push set_mset_add_mset_insert set_mset_mset)

section \<open>The invariant\<close>

text \<open>A semaphore has as many waiters as its count is below zero.\<close>

definition sema_ok :: "Semaphore \<Rightarrow> bool" where
  "sema_ok sema \<longleftrightarrow> int (length (s_queue sema)) = max 0 (- sint (s_count sema))"

definition pm_inv :: "ProcessManager \<Rightarrow> bool" where
  "pm_inv s \<longleftrightarrow>
     running s \<in> dom (ptable s) \<and>
     pq.heap (pqueue s) \<and>
     (\<forall>d \<in> set (pqueue s). map_option p_priority (ptable s (pd_pid d)) = Some (pd_priority d)) \<and>
     (\<forall>sid sema. stable s sid = Some sema \<longrightarrow> set (s_queue sema) \<subseteq> dom (ptable s) \<and> sema_ok sema) \<and>
     dl_pid ` set (sleep_queue s) \<subseteq> dom (ptable s) \<and>
     (\<forall>e ps. event_queue s e = Some ps \<longrightarrow> set ps \<subseteq> dom (ptable s)) \<and>
     (\<forall>p. st s p = Some Running \<longrightarrow> p = running s) \<and>
     (\<forall>p. st s p = Some Ready \<longrightarrow> p \<in> pd_pid ` set (pqueue s)) \<and>
     (\<forall>p q. ptable s p = Some q \<longrightarrow> set (p_children q) \<subseteq> dom (ptable s)) \<and>
     (\<forall>p \<in> dom (ptable s). p < curr_pid s)"

lemma pm_invD:
  assumes "pm_inv s"
  shows "running s \<in> dom (ptable s)" "pq.heap (pqueue s)"
    "\<And>d. d \<in> set (pqueue s) \<Longrightarrow> map_option p_priority (ptable s (pd_pid d)) = Some (pd_priority d)"
    "\<And>sid sema p. stable s sid = Some sema \<Longrightarrow> p \<in> set (s_queue sema) \<Longrightarrow> p \<in> dom (ptable s)"
    "\<And>sid sema. stable s sid = Some sema \<Longrightarrow> sema_ok sema"
    "\<And>d. d \<in> set (sleep_queue s) \<Longrightarrow> dl_pid d \<in> dom (ptable s)"
    "\<And>e ps p. event_queue s e = Some ps \<Longrightarrow> p \<in> set ps \<Longrightarrow> p \<in> dom (ptable s)"
    "\<And>p. st s p = Some Running \<Longrightarrow> p = running s"
    "\<And>p. st s p = Some Ready \<Longrightarrow> p \<in> pd_pid ` set (pqueue s)"
    "\<And>p q c. ptable s p = Some q \<Longrightarrow> c \<in> set (p_children q) \<Longrightarrow> c \<in> dom (ptable s)"
    "\<And>p. p \<in> dom (ptable s) \<Longrightarrow> p < curr_pid s"
  using assms unfolding pm_inv_def by blast+

text \<open>The machine, the deferral and the semaphore counter play no role in it.\<close>

lemma st_frame [simp]:
  "st (s\<lparr>hw := m\<rparr>) = st s" "st (s\<lparr>defer_sched := d\<rparr>) = st s" "st (s\<lparr>stable := x\<rparr>) = st s"
  "st (s\<lparr>pqueue := q\<rparr>) = st s" "st (s\<lparr>running := r\<rparr>) = st s" "st (s\<lparr>sleep_queue := l\<rparr>) = st s"
  "st (s\<lparr>event_queue := e\<rparr>) = st s" "st (s\<lparr>curr_sid := i\<rparr>) = st s" "st (s\<lparr>curr_pid := i\<rparr>) = st s"
  by (simp_all add: st_def fun_eq_iff)

lemma pm_inv_frame [simp]:
  "pm_inv (s\<lparr>hw := m\<rparr>) = pm_inv s" "pm_inv (s\<lparr>defer_sched := d\<rparr>) = pm_inv s"
  "pm_inv (s\<lparr>curr_sid := i\<rparr>) = pm_inv s"
  by (simp_all add: pm_inv_def)

lemma st_upd: "st (s\<lparr>ptable := (ptable s)(p \<mapsto> x)\<rparr>) q = (if q = p then Some (p_state x) else st s q)"
  by (simp add: st_def)

text \<open>A process leaves the ready list for a waiting state.\<close>

lemma inv_set_state:
  assumes inv: "pm_inv s" and p: "ptable s pid = Some p" and x: "x \<noteq> Running" "x \<noteq> Ready"
  shows "pm_inv (s\<lparr>ptable := (ptable s)(pid \<mapsto> p\<lparr>p_state := x\<rparr>)\<rparr>)"
proof -
  have dom: "insert pid (dom (ptable s)) = dom (ptable s)" using p by auto
  show ?thesis
    using inv p x unfolding pm_inv_def
    by (simp add: st_upd dom del: domIff) (auto simp: st_def)
qed

text \<open>A process becomes ready and enters the list.\<close>

lemma inv_make_ready:
  assumes inv: "pm_inv s" and p: "ptable s pid = Some p"
  shows "pm_inv (s\<lparr>ptable := (ptable s)(pid \<mapsto> p\<lparr>p_state := Ready\<rparr>),
      pqueue := heap_push desc_le (ProcessDesc (p_priority p) pid) (pqueue s)\<rparr>)"
proof -
  have dom: "insert pid (dom (ptable s)) = dom (ptable s)" using p by auto
  show ?thesis
    using inv p pq.heap_heap_push unfolding pm_inv_def
    by (simp add: st_upd dom set_heap_push del: domIff) (auto simp: st_def)
qed

section \<open>Interrupts\<close>

definition ie :: "ProcessManager \<Rightarrow> bool" where
  "ie s = is_interrupt_enable (csrs (hw s))"

definition imask :: "ProcessManager \<Rightarrow> usize" where
  "imask s = fst (interrupt_disable (csrs (hw s)))"

definition off :: "ProcessManager \<Rightarrow> ProcessManager" where
  "off s = s\<lparr>hw := (hw s)\<lparr>csrs := snd (interrupt_disable (csrs (hw s)))\<rparr>\<rparr>"

definition restored :: "usize \<Rightarrow> ProcessManager \<Rightarrow> ProcessManager" where
  "restored msk s = s\<lparr>hw := (hw s)\<lparr>csrs := interrupt_restore msk (csrs (hw s))\<rparr>\<rparr>"

lemma irq_disable_eq: "irq_disable s = Done (Ok (imask s)) (off s)"
  by (simp add: irq_disable_def imask_def off_def split: prod.split)

lemma irq_restore_eq: "irq_restore msk s = Done (Ok ()) (restored msk s)"
  by (simp add: irq_restore_def restored_def modify_def)

lemma sat_irq_disable [sat_simps]: "sat R G Q (irq_disable s) = Q (Ok (imask s)) (off s)"
  by (simp add: irq_disable_eq)

lemma sat_irq_restore [sat_simps]: "sat R G Q (irq_restore msk s) = Q (Ok ()) (restored msk s)"
  by (simp add: irq_restore_eq)

lemma off_fields [simp]:
  "ptable (off s) = ptable s" "stable (off s) = stable s" "pqueue (off s) = pqueue s"
  "sleep_queue (off s) = sleep_queue s" "event_queue (off s) = event_queue s"
  "defer_sched (off s) = defer_sched s" "curr_pid (off s) = curr_pid s" "curr_sid (off s) = curr_sid s"
  "running (off s) = running s" "pm_inv (off s) = pm_inv s" "st (off s) = st s" "\<not> ie (off s)"
  using interrupt_disable_off by (simp_all add: off_def ie_def)

lemma restored_fields [simp]:
  "ptable (restored k s) = ptable s" "stable (restored k s) = stable s" "pqueue (restored k s) = pqueue s"
  "sleep_queue (restored k s) = sleep_queue s" "event_queue (restored k s) = event_queue s"
  "defer_sched (restored k s) = defer_sched s" "curr_pid (restored k s) = curr_pid s"
  "curr_sid (restored k s) = curr_sid s" "running (restored k s) = running s"
  "pm_inv (restored k s) = pm_inv s" "st (restored k s) = st s"
  by (simp_all add: restored_def)

lemma off_update [simp]:
  "ptable_update f (off s) = off (ptable_update f s)" "stable_update g (off s) = off (stable_update g s)"
  "pqueue_update h (off s) = off (pqueue_update h s)"
  "sleep_queue_update i (off s) = off (sleep_queue_update i s)"
  "event_queue_update j (off s) = off (event_queue_update j s)"
  "defer_sched_update k (off s) = off (defer_sched_update k s)"
  "curr_pid_update l (off s) = off (curr_pid_update l s)"
  "curr_sid_update l (off s) = off (curr_sid_update l s)"
  "running_update l (off s) = off (running_update l s)"
  by (simp_all add: off_def)

lemma imask_frame [simp]:
  "imask (ptable_update f s) = imask s" "imask (stable_update g s) = imask s"
  "imask (pqueue_update h s) = imask s" "imask (sleep_queue_update i s) = imask s"
  "imask (event_queue_update j s) = imask s" "imask (defer_sched_update k s) = imask s"
  "imask (curr_pid_update l s) = imask s" "imask (curr_sid_update l s) = imask s"
  "imask (running_update l s) = imask s"
  by (simp_all add: imask_def)

lemma bit_imask: "bit (imask s) n \<longleftrightarrow> n = 1 \<and> ie s"
  by (auto simp: imask_def ie_def is_interrupt_enable_bit)
    (auto simp: irq_defs bit_simps bit_sie)

lemma ie_restored: "ie (restored k s) \<longleftrightarrow> ie s \<or> bit k 1"
  unfolding ie_def restored_def is_interrupt_enable_bit by (simp add: irq_defs bit_simps)

lemma ie_restored_imask [simp]: "ie (restored (imask s) s') \<longleftrightarrow> ie s' \<or> ie s"
  by (simp add: ie_restored bit_imask)

lemma ie_frame [simp]:
  "ie (ptable_update f s) = ie s" "ie (stable_update g s) = ie s" "ie (pqueue_update h s) = ie s"
  "ie (sleep_queue_update i s) = ie s" "ie (event_queue_update j s) = ie s"
  "ie (defer_sched_update k s) = ie s" "ie (curr_pid_update l s) = ie s"
  "ie (curr_sid_update l s) = ie s" "ie (running_update l s) = ie s"
  by (simp_all add: ie_def)

text \<open>A critical section that changes nothing of the interrupt state leaves the machine as it was.\<close>

lemma restored_off [simp]: "restored (imask s) (off s) = s"
  using interrupt_restore_disable [of "csrs (hw s)"]
  by (simp add: restored_def off_def imask_def)

section \<open>Rely and guarantee\<close>

text \<open>
  What a process may assume when it is switched to again (\<open>rely\<close>): the invariant, that it is the
  running process, that no deferral is open, and, when the interrupt state is of interest (\<open>irq\<close>),
  that interrupts are off, since its own \<open>sstatus\<close> has been loaded. What every process ensures when it
  switches away (\<open>guar\<close>): the invariant, a running process, no open deferral, and a saved \<open>sstatus\<close>
  with interrupts off.
\<close>

definition saved_off :: "ProcessManager \<Rightarrow> usize \<Rightarrow> bool" where
  "saved_off s p \<longleftrightarrow> (\<exists>q. ptable s p = Some q \<and> \<not> bit (ctx_sstatus (ap_context (arch_proc q))) 1)"

definition grows :: "ProcessManager \<Rightarrow> ProcessManager \<Rightarrow> bool" where
  "grows s s' \<longleftrightarrow> dom (ptable s) \<subseteq> dom (ptable s') \<and> dom (stable s) \<subseteq> dom (stable s')"

definition rely :: "bool \<Rightarrow> usize \<Rightarrow> ProcessManager \<Rightarrow> ProcessManager \<Rightarrow> bool" where
  "rely irq p s s' \<longleftrightarrow>
     pm_inv s' \<and> running s' = p \<and> (irq \<longrightarrow> \<not> ie s') \<and> d_count (defer_sched s') = 0"

definition guar :: "usize \<Rightarrow> ProcessManager \<Rightarrow> bool" where
  "guar p s \<longleftrightarrow> pm_inv s \<and> st s (running s) = Some Running \<and> d_count (defer_sched s) = 0 \<and> saved_off s p"

abbreviation psat where
  "psat irq \<equiv> sat (rely irq) guar"

lemma grows_refl [simp]: "grows s s" by (simp add: grows_def)

lemma grows_trans: "grows a b \<Longrightarrow> grows b c \<Longrightarrow> grows a c"
  unfolding grows_def by blast

lemma grows_frame [simp]:
  "grows (off s) s' = grows s s'" "grows s (restored k s') = grows s s'" "grows s (off s') = grows s s'"
  "grows s (s'\<lparr>pqueue := a\<rparr>) = grows s s'" "grows s (s'\<lparr>hw := b\<rparr>) = grows s s'"
  "grows s (s'\<lparr>defer_sched := d\<rparr>) = grows s s'" "grows s (s'\<lparr>running := e\<rparr>) = grows s s'"
  "grows s (s'\<lparr>sleep_queue := f\<rparr>) = grows s s'" "grows s (s'\<lparr>event_queue := g\<rparr>) = grows s s'"
  "grows (s\<lparr>pqueue := a\<rparr>) s' = grows s s'" "grows (s\<lparr>hw := b\<rparr>) s' = grows s s'"
  "grows (s\<lparr>defer_sched := d\<rparr>) s' = grows s s'" "grows (s\<lparr>running := e\<rparr>) s' = grows s s'"
  "grows (s\<lparr>sleep_queue := f\<rparr>) s' = grows s s'" "grows (s\<lparr>event_queue := g\<rparr>) s' = grows s s'"
  by (simp_all add: grows_def)

section \<open>The schedule\<close>

lemma sat_get_process [sat_simps]:
  "sat R G Q (get_process pid s) =
     (case ptable s pid of None \<Rightarrow> Q (Err (ProcessNotFound pid)) s | Some p \<Rightarrow> Q (Ok p) s)"
  by (simp add: get_process_def split: option.split)

lemma sat_upd_process [sat_simps]:
  "sat R G Q (upd_process pid f s) =
     (case ptable s pid of None \<Rightarrow> Q (Err (ProcessNotFound pid)) s
      | Some p \<Rightarrow> Q (Ok ()) (s\<lparr>ptable := (ptable s)(pid \<mapsto> f p)\<rparr>))"
  by (simp add: upd_process_def split: option.split)

lemma sat_set_state [sat_simps]:
  "sat R G Q (set_state pid x s) =
     (case ptable s pid of None \<Rightarrow> Q (Err (ProcessNotFound pid)) s
      | Some p \<Rightarrow> Q (Ok ()) (s\<lparr>ptable := (ptable s)(pid \<mapsto> p\<lparr>p_state := x\<rparr>)\<rparr>))"
  by (simp add: set_state_def sat_upd_process)

lemma sat_get_semaphore [sat_simps]:
  "sat R G Q (get_semaphore sid s) =
     (case stable s sid of None \<Rightarrow> Q (Err (SemaphoreNotFound sid)) s | Some x \<Rightarrow> Q (Ok x) s)"
  by (simp add: get_semaphore_def split: option.split)

lemma sat_upd_semaphore [sat_simps]:
  "sat R G Q (upd_semaphore sid f s) =
     (case stable s sid of None \<Rightarrow> Q (Err (SemaphoreNotFound sid)) s
      | Some x \<Rightarrow> Q (Ok ()) (s\<lparr>stable := (stable s)(sid \<mapsto> f x)\<rparr>))"
  by (simp add: upd_semaphore_def split: option.split)

lemma sat_push_ready [sat_simps]:
  "sat R G Q (push_ready pr pid s) =
     Q (Ok ()) (s\<lparr>pqueue := heap_push desc_le (ProcessDesc pr pid) (pqueue s)\<rparr>)"
  by (simp add: push_ready_def sat_simps)

lemma sat_pop_ready_proc [sat_simps]:
  "sat R G Q (pop_ready_proc s) =
     (case pop_ready (ptable s) (pqueue s) of (r, q) \<Rightarrow> Q r (s\<lparr>pqueue := q\<rparr>))"
  by (simp add: pop_ready_proc_def sat_simps split: prod.split)

lemma pm_inv_upd_ptable:
  assumes "\<And>p. map_option p_state (pt p) = map_option p_state (ptable s p)"
    and "\<And>p. map_option p_priority (pt p) = map_option p_priority (ptable s p)"
    and "\<And>p. map_option p_children (pt p) = map_option p_children (ptable s p)"
  shows "pm_inv (s\<lparr>ptable := pt\<rparr>) = pm_inv s"
proof -
  have "pt p = None \<longleftrightarrow> ptable s p = None" for p using assms(1) [of p] by (metis option.map_disc_iff)
  then have dom: "dom pt = dom (ptable s)" by (simp add: dom_def)
  have st: "st (s\<lparr>ptable := pt\<rparr>) = st s" by (simp add: st_def assms(1) fun_eq_iff)
  have ch: "(\<forall>q. pt p = Some q \<longrightarrow> set (p_children q) \<subseteq> D) \<longleftrightarrow>
      (\<forall>q. ptable s p = Some q \<longrightarrow> set (p_children q) \<subseteq> D)" for p D
    using assms(3) [of p] by (cases "pt p"; cases "ptable s p") auto
  show ?thesis unfolding pm_inv_def st by (simp add: dom assms(2) ch)
qed

lemma context_switch_fields [simp]:
  "stable (context_switch a b s) = stable s" "pqueue (context_switch a b s) = pqueue s"
  "sleep_queue (context_switch a b s) = sleep_queue s" "event_queue (context_switch a b s) = event_queue s"
  "defer_sched (context_switch a b s) = defer_sched s" "curr_pid (context_switch a b s) = curr_pid s"
  "curr_sid (context_switch a b s) = curr_sid s" "running (context_switch a b s) = running s"
  by (simp_all add: context_switch_def Let_def split: option.split)

lemma ptable_context_switch:
  "ptable (context_switch a b s) = (ptable s)(a := map_option (\<lambda>p. p\<lparr>arch_proc := (arch_proc p)\<lparr>ap_context :=
     save_context (hw s) (ap_context (arch_proc p))\<rparr>\<rparr>) (ptable s a))"
  by (simp add: context_switch_def Let_def split: option.split)

lemma context_switch_inv [simp]:
  "pm_inv (context_switch a b s) = pm_inv s" "st (context_switch a b s) = st s"
  "dom (ptable (context_switch a b s)) = dom (ptable s)"
proof -
  have m: "context_switch a b s =
      s\<lparr>ptable := ptable (context_switch a b s), hw := hw (context_switch a b s)\<rparr>"
    by (rule ProcessManager.equality) simp_all
  have "pm_inv (s\<lparr>ptable := ptable (context_switch a b s)\<rparr>) = pm_inv s"
    by (rule pm_inv_upd_ptable) (simp_all add: ptable_context_switch option.map_comp comp_def)
  then show "pm_inv (context_switch a b s) = pm_inv s" by (subst m) simp
  show "st (context_switch a b s) = st s"
    by (auto simp: st_def ptable_context_switch fun_eq_iff option.map_comp comp_def)
  show "dom (ptable (context_switch a b s)) = dom (ptable s)"
    by (auto simp: ptable_context_switch dom_def)
qed

text \<open>What a call leaves behind for its caller.\<close>

definition keeps :: "bool \<Rightarrow> ProcessManager \<Rightarrow> ProcessManager \<Rightarrow> bool" where
  "keeps irq s s' \<longleftrightarrow> pm_inv s' \<and> (d_count (defer_sched s) \<noteq> 0 \<longrightarrow> grows s s') \<and>
     (irq \<longrightarrow> ie s' = ie s) \<and> d_count (defer_sched s') = d_count (defer_sched s) \<and> running s' = running s"

lemma switch_to_sat:
  assumes inv: "pm_inv (s\<lparr>ptable := (ptable s)(new \<mapsto> p\<lparr>p_state := Running\<rparr>), running := new\<rparr>)"
    and ie: "\<not> ie s" and d: "d_count (defer_sched s) = 0"
    and new: "ptable s new = Some p" and old: "ptable s old \<noteq> None"
  shows "psat irq (\<lambda>r s'. r = Ok () \<and> pm_inv s' \<and> (irq \<longrightarrow> ie s' = bit msk 1) \<and>
    d_count (defer_sched s') = 0 \<and> running s' = old) (switch_to msk old new s)"
proof -
  let ?s = "s\<lparr>ptable := (ptable s)(new \<mapsto> p\<lparr>p_state := Running\<rparr>), running := new\<rparr>"
  have "ptable ?s old \<noteq> None" using old by simp
  then have "saved_off (context_switch old new ?s) old"
    using ie by (auto simp: saved_off_def ptable_context_switch save_context_def ie_def
        is_interrupt_enable_bit)
  then have "guar old (context_switch old new ?s)"
    using inv d by (simp add: guar_def) (simp add: st_def)
  then show ?thesis
    using new by (auto simp: switch_to_def sat_simps rely_def ie_restored)
qed

text \<open>The table with a new running process.\<close>

lemma inv_dispatch:
  assumes inv: "pm_inv s" and dom: "dom pt = dom (ptable s)"
    and prio: "\<And>x. map_option p_priority (pt x) = map_option p_priority (ptable s x)"
    and child: "\<And>x. map_option p_children (pt x) = map_option p_children (ptable s x)"
    and heap: "pq.heap Q" "\<And>e. e \<in> set Q \<Longrightarrow> map_option p_priority (ptable s (pd_pid e)) = Some (pd_priority e)"
    and new: "new \<in> dom pt" "map_option p_state (pt new) \<noteq> Some Ready"
    and other: "\<And>x. x \<noteq> new \<Longrightarrow> map_option p_state (pt x) \<noteq> Some Running"
      "\<And>x. x \<noteq> new \<Longrightarrow> map_option p_state (pt x) = Some Ready \<Longrightarrow> x \<in> pd_pid ` set Q"
  shows "pm_inv (s\<lparr>pqueue := Q, ptable := pt, running := new\<rparr>)"
proof -
  have st: "st (s\<lparr>pqueue := Q, ptable := pt, running := new\<rparr>) x = map_option p_state (pt x)" for x
    by (simp add: st_def)
  have ch: "set (p_children q) \<subseteq> dom (ptable s)" if "pt x = Some q" for x q
    using child [of x] that pm_invD(10) [OF inv, of x] by (cases "ptable s x") auto
  have "x = new" if "map_option p_state (pt x) = Some Running" for x using other(1) that by blast
  moreover have "x \<in> pd_pid ` set Q" if "map_option p_state (pt x) = Some Ready" for x
    using other(2) that new(2) by (cases "x = new") auto
  ultimately show ?thesis
    using inv heap new(1) ch unfolding pm_inv_def st
    by (simp add: dom prio del: domIff)
qed

lemma ready_cases:
  assumes inv: "pm_inv s"
  obtains (none) "pop_ready (ptable s) (pqueue s) = (Ok None, [])" "\<And>p. st s p \<noteq> Some Ready"
  | (some) d q p where "pop_ready (ptable s) (pqueue s) = (Ok (Some d), q)" "d \<in> set (pqueue s)"
      "set q \<subseteq> set (pqueue s)" "pq.heap q" "ptable s (pd_pid d) = Some p" "p_state p = Ready"
      "p_priority p = pd_priority d"
      "\<And>x. st s x = Some Ready \<Longrightarrow> x \<noteq> pd_pid d \<Longrightarrow> x \<in> pd_pid ` set q"
      "\<And>x px. ptable s x = Some px \<Longrightarrow> p_state px = Ready \<Longrightarrow> p_priority px \<le> p_priority p"
proof -
  have mem: "\<forall>d \<in> set (pqueue s). ptable s (pd_pid d) \<noteq> None"
    using pm_invD(3) [OF inv] by fastforce
  note spec = pop_ready_spec [where pt = "ptable s" and q = "pqueue s", OF pm_invD(2) [OF inv] mem,
      folded st_def]
  from spec show thesis
  proof (elim disjE exE conjE)
    fix q assume a: "pop_ready (ptable s) (pqueue s) = (Ok None, q)" "q = []"
      "\<forall>d \<in> set (pqueue s). st s (pd_pid d) \<noteq> Some Ready"
    show thesis
      by (rule none) (use a pm_invD(9) [OF inv] in auto)
  next
    fix d q assume a: "pop_ready (ptable s) (pqueue s) = (Ok (Some d), q)" "d \<in> set (pqueue s)"
      "set q \<subseteq> set (pqueue s)" "pq.heap q" "st s (pd_pid d) = Some Ready"
      "\<forall>e \<in> set (pqueue s). st s (pd_pid e) = Some Ready \<longrightarrow>
         (e = d \<or> e \<in> set q) \<and> pd_priority e \<le> pd_priority d"
    obtain p where p: "ptable s (pd_pid d) = Some p" "p_state p = Ready" using a(5) by (auto simp: st_def)
    have pd: "p_priority p = pd_priority d" using pm_invD(3) [OF inv a(2)] p by simp
    have r: "\<exists>e \<in> set (pqueue s). pd_pid e = x \<and> (e = d \<or> e \<in> set q) \<and> pd_priority e \<le> pd_priority d"
      if "st s x = Some Ready" for x using pm_invD(9) [OF inv that] that a(6) by auto
    show thesis
    proof (rule some [OF a(1-4) p pd])
      show "x \<in> pd_pid ` set q" if "st s x = Some Ready" "x \<noteq> pd_pid d" for x
        using r [OF that(1)] that(2) by auto
      show "p_priority px \<le> p_priority p" if x: "ptable s x = Some px" "p_state px = Ready" for x px
      proof -
        have "st s x = Some Ready" using x by (simp add: st_def)
        from r [OF this] obtain e where e: "e \<in> set (pqueue s)" "pd_pid e = x" "pd_priority e \<le> pd_priority d"
          by auto
        then show ?thesis using pm_invD(3) [OF inv e(1)] x pd by simp
      qed
    qed
  qed
qed

text \<open>While scheduling is deferred, a call only notes the attempt.\<close>

lemma schedule_deferred:
  assumes "d_count (defer_sched s) > 0"
  shows "schedule s = Done (Ok ()) (s\<lparr>defer_sched := (defer_sched s)\<lparr>d_attempt := True\<rparr>\<rparr>)"
  using assms restored_off [of "s\<lparr>defer_sched := (defer_sched s)\<lparr>d_attempt := True\<rparr>\<rparr>"]
  by (simp add: schedule_def kop_defs irq_disable_eq irq_restore_eq)

lemma schedule_sat:
  assumes inv: "pm_inv s" and d: "d_count (defer_sched s) = 0"
  shows "psat irq (\<lambda>r s'. r = Ok () \<and> pm_inv s' \<and> (irq \<longrightarrow> ie s' = ie s) \<and>
    d_count (defer_sched s') = 0 \<and> running s' = running s) (schedule s)"
    (is "psat irq ?Q _")
  using inv
proof (cases rule: ready_cases)
  case none
  have "pq.heap []" by (simp add: pq.heap_def)
  then have "pm_inv (s\<lparr>pqueue := []\<rparr>)"
    using inv none(2) unfolding pm_inv_def by auto
  then show ?thesis using none d by (simp add: schedule_def sat_simps)
next
  case (some d q p)
  let ?new = "pd_pid d" and ?s1 = "off s\<lparr>pqueue := q\<rparr>"
  obtain old where old: "ptable s (running s) = Some old" using pm_invD(1) [OF inv] by auto
  have prio: "map_option p_priority (ptable s (pd_pid e)) = Some (pd_priority e)" if "e \<in> set q" for e
    using pm_invD(3) [OF inv] some(3) that by blast
  show ?thesis
  proof (cases "p_state old = Running")
    case True
    then have ne: "running s \<noteq> ?new" using some(5,6) old by auto
    let ?pt = "(ptable s)(running s \<mapsto> old\<lparr>p_state := Ready\<rparr>)"
    let ?L = "heap_push desc_le (ProcessDesc (p_priority old) (running s)) q"
    let ?s2 = "?s1\<lparr>ptable := ?pt, pqueue := ?L\<rparr>"
    have "pm_inv (s\<lparr>pqueue := ?L, ptable := ?pt(?new \<mapsto> p\<lparr>p_state := Running\<rparr>), running := ?new\<rparr>)"
    proof (rule inv_dispatch [OF inv])
      show "map_option p_state ((?pt(?new \<mapsto> p\<lparr>p_state := Running\<rparr>)) x) \<noteq> Some Running" if "x \<noteq> ?new" for x
        using that pm_invD(8) [OF inv, of x] by (auto simp: st_def)
      show "x \<in> pd_pid ` set ?L"
        if "x \<noteq> ?new" "map_option p_state ((?pt(?new \<mapsto> p\<lparr>p_state := Running\<rparr>)) x) = Some Ready" for x
        using that some(8) [of x] by (auto simp: st_def set_heap_push split: if_splits)
    qed (use old some(5) pq.heap_heap_push [OF some(4)] prio in \<open>auto simp: set_heap_push\<close>)
    then have "pm_inv (?s2\<lparr>ptable := (ptable ?s2)(?new \<mapsto> p\<lparr>p_state := Running\<rparr>), running := ?new\<rparr>)"
      by simp
    then have sw: "psat irq (\<lambda>r s'. r = Ok () \<and> pm_inv s' \<and> (irq \<longrightarrow> ie s' = bit (imask s) 1) \<and>
        d_count (defer_sched s') = 0 \<and> running s' = running s) (switch_to (imask s) (running s) ?new ?s2)"
      by (rule switch_to_sat) (use d old some(5) ne in auto)
    show ?thesis
    proof (cases "p_priority old \<le> p_priority p")
      case le: True
      show ?thesis
        using sat_post [OF sw, of ?Q] d old some(1,5) True le
        by (simp add: schedule_def sat_simps bit_imask)
    next
      case False
      have "pm_inv (s\<lparr>pqueue := heap_push desc_le (ProcessDesc (p_priority p) ?new) q, ptable := ptable s, running := running s\<rparr>)"
      proof (rule inv_dispatch [OF inv])
        show "x \<in> pd_pid ` set (heap_push desc_le (ProcessDesc (p_priority p) ?new) q)"
          if "map_option p_state (ptable s x) = Some Ready" for x
          using some(8) [of x] that by (cases "x = ?new") (auto simp: set_heap_push st_def)
      qed (use inv old True some(5,7) pq.heap_heap_push [OF some(4)] prio pm_invD(8) [OF inv] in
          \<open>auto simp: set_heap_push st_def\<close>)
      then show ?thesis
        using d old some(1,5,7) True False by (simp add: schedule_def sat_simps)
    qed
  next
    case False
    let ?s2 = "off (s\<lparr>pqueue := q\<rparr>)"
    have "pm_inv (s\<lparr>pqueue := q, ptable := (ptable s)(?new \<mapsto> p\<lparr>p_state := Running\<rparr>), running := ?new\<rparr>)"
    proof (rule inv_dispatch [OF inv])
      show "map_option p_state (((ptable s)(?new \<mapsto> p\<lparr>p_state := Running\<rparr>)) x) \<noteq> Some Running" if "x \<noteq> ?new" for x
        using that pm_invD(8) [OF inv, of x] False old by (auto simp: st_def)
    qed (use some(4,5,8) prio in \<open>auto simp: st_def\<close>)
    then have "pm_inv (?s2\<lparr>ptable := (ptable ?s2)(?new \<mapsto> p\<lparr>p_state := Running\<rparr>), running := ?new\<rparr>)"
      by simp
    then have sw: "psat irq (\<lambda>r s'. r = Ok () \<and> pm_inv s' \<and> (irq \<longrightarrow> ie s' = bit (imask s) 1) \<and>
        d_count (defer_sched s') = 0 \<and> running s' = running s) (switch_to (imask s) (running s) ?new ?s2)"
      by (rule switch_to_sat) (use d old some(5) in auto)
    show ?thesis
      using sat_post [OF sw, of ?Q] d old some(1,5) False
      by (simp add: schedule_def sat_simps bit_imask Let_def)
  qed
qed

lemma schedule_keeps:
  assumes "pm_inv s"
  shows "psat irq (\<lambda>r s'. r = Ok () \<and> keeps irq s s') (schedule s)"
proof (cases "d_count (defer_sched s) = 0")
  case True
  show ?thesis by (rule sat_post [OF schedule_sat [OF assms True]]) (auto simp: keeps_def True)
next
  case False
  then show ?thesis using assms by (simp add: schedule_deferred word_gt_0 keeps_def)
qed

lemma keeps_trans: "keeps irq a b \<Longrightarrow> keeps irq b c \<Longrightarrow> keeps irq a c"
  using grows_trans by (auto simp: keeps_def)

section \<open>Operations that wake or block\<close>

lemma grows_upd [simp]:
  "ptable s pid = Some p \<Longrightarrow> grows s' (s\<lparr>ptable := (ptable s)(pid \<mapsto> p')\<rparr>) = grows s' s"
  "ptable s pid = Some p \<Longrightarrow> grows (s\<lparr>ptable := (ptable s)(pid \<mapsto> p')\<rparr>) s' = grows s s'"
  "stable s sid = Some q \<Longrightarrow> grows s' (s\<lparr>stable := (stable s)(sid \<mapsto> q')\<rparr>) = grows s' s"
  "stable s sid = Some q \<Longrightarrow> grows (s\<lparr>stable := (stable s)(sid \<mapsto> q')\<rparr>) s' = grows s s'"
  by (simp_all add: grows_def insert_absorb domI)

lemma ready_keeps:
  assumes "pm_inv s" "ptable s pid = Some p"
  shows "psat irq (\<lambda>r s'. r = Ok () \<and> keeps irq s s') (ready pid s)"
proof (cases "p_state p = Free \<or> p_state p = Running \<or> p_state p = Ready")
  case True
  then show ?thesis using assms by (auto simp: ready_def sat_simps keeps_def)
next
  case False
  let ?s = "s\<lparr>ptable := (ptable s)(pid \<mapsto> p\<lparr>p_state := Ready\<rparr>),
      pqueue := heap_push desc_le (ProcessDesc (p_priority p) pid) (pqueue s)\<rparr>"
  have "psat irq (\<lambda>r s'. r = Ok () \<and> keeps irq s s') (schedule ?s)"
    by (rule sat_post [OF schedule_keeps [OF inv_make_ready [OF assms]]])
      (use assms(2) in \<open>simp add: keeps_def\<close>)
  then show ?thesis using False assms(2) by (simp add: ready_def sat_simps)
qed

subsection \<open>Semaphores\<close>

lemma sint_minus_1: "sint c \<noteq> - (2 ^ 63) \<Longrightarrow> sint (c - 1) = sint c - 1" for c :: isize
  using sint_ge [of c] sint_lt [of c]
  by (simp add: sint_word_ariths signed_take_bit_int_eq_self)

lemma sint_plus_1: "sint c \<noteq> 2 ^ 63 - 1 \<Longrightarrow> sint (c + 1) = sint c + 1" for c :: isize
  using sint_ge [of c] sint_lt [of c]
  by (simp add: sint_word_ariths signed_take_bit_int_eq_self)

lemma inv_upd_sema:
  assumes "pm_inv s" "sema_ok x" "set (s_queue x) \<subseteq> dom (ptable s)"
  shows "pm_inv (s\<lparr>stable := (stable s)(sid \<mapsto> x)\<rparr>)"
  using assms unfolding pm_inv_def by auto

lemma create_semaphore_keeps:
  assumes "pm_inv s" "0 \<le> sint cnt"
  shows "psat irq (\<lambda>r s'. r = Ok (curr_sid s) \<and> keeps irq s s') (create_semaphore cnt s)"
proof -
  have "sema_ok (Semaphore_new cnt)" using assms(2) by (simp add: sema_ok_def Semaphore_new_def)
  then have "pm_inv (s\<lparr>curr_sid := curr_sid s + 1, stable := (stable s)(curr_sid s \<mapsto> Semaphore_new cnt)\<rparr>)"
    using inv_upd_sema [of "s\<lparr>curr_sid := curr_sid s + 1\<rparr>" "Semaphore_new cnt" "curr_sid s"] assms(1)
    by (simp add: Semaphore_new_def)
  then show ?thesis
    using assms by (auto simp: create_semaphore_def sat_simps keeps_def grows_def)
qed

lemma wait_semaphore_keeps:
  assumes inv: "pm_inv s" and x: "stable s sid = Some x" "sint (s_count x) \<noteq> - (2 ^ 63)"
  shows "psat irq (\<lambda>r s'. r = Ok () \<and> keeps irq s s') (wait_semaphore sid s)"
proof -
  let ?x = "x\<lparr>s_count := s_count x - 1\<rparr>" and ?pid = "running s"
  obtain p where p: "ptable s ?pid = Some p" using pm_invD(1) [OF inv] by auto
  have c: "sint (s_count ?x) = sint (s_count x) - 1" using x(2) by (simp add: sint_minus_1)
  have ok: "sema_ok x" "set (s_queue x) \<subseteq> dom (ptable s)" using pm_invD(4,5) [OF inv x(1)] by auto
  show ?thesis
  proof (cases "s_count ?x <s 0")
    case True
    let ?y = "x\<lparr>s_count := s_count x - 1, s_queue := s_queue x @ [?pid]\<rparr>"
    let ?s1 = "s\<lparr>ptable := (ptable s)(?pid \<mapsto> p\<lparr>p_state := SemaWait\<rparr>)\<rparr>"
    let ?s = "?s1\<lparr>stable := (stable s)(sid \<mapsto> ?y)\<rparr>"
    have y: "sema_ok ?y" using ok c True by (simp add: sema_ok_def word_sless_alt)
    have "pm_inv ?s1" using inv_set_state [OF inv p] by simp
    then have "pm_inv ?s" using inv_upd_sema [of ?s1 ?y sid] y ok p by auto
    then have "pm_inv (off ?s)" by simp
    from schedule_keeps [OF this] have
      "psat irq (post_bind (rely irq) guar (\<lambda>r s'. r = Ok () \<and> keeps irq s s') (\<lambda>_. irq_restore (imask s))) (schedule (off ?s))"
      by (rule sat_post) (use p x in \<open>simp add: sat_simps keeps_def grows_def insert_absorb domI\<close>)
    then show ?thesis using True x p by (simp add: wait_semaphore_def sat_simps)
  next
    case False
    then have "sema_ok ?x" using ok c by (auto simp: sema_ok_def word_sless_alt)
    then have "pm_inv (s\<lparr>stable := (stable s)(sid \<mapsto> ?x)\<rparr>)"
      using inv_upd_sema [OF inv, of ?x sid] ok by auto
    then show ?thesis using False x p by (simp add: wait_semaphore_def sat_simps keeps_def)
  qed
qed

lemma signal_semaphore_keeps:
  assumes inv: "pm_inv s" and x: "stable s sid = Some x" "sint (s_count x) \<noteq> 2 ^ 63 - 1"
  shows "psat irq (\<lambda>r s'. r = Ok () \<and> keeps irq s s') (signal_semaphore sid s)"
proof -
  have c: "sint (s_count x + 1) = sint (s_count x) + 1" using x(2) by (rule sint_plus_1)
  have ok: "sema_ok x" "set (s_queue x) \<subseteq> dom (ptable s)" using pm_invD(4,5) [OF inv x(1)] by auto
  show ?thesis
  proof (cases "s_count x <s 0")
    case True
    then obtain pid rest where q: "s_queue x = pid # rest"
      using ok(1) by (cases "s_queue x") (auto simp: sema_ok_def word_sless_alt)
    let ?y = "x\<lparr>s_queue := rest, s_count := s_count x + 1\<rparr>"
    let ?s = "s\<lparr>stable := (stable s)(sid \<mapsto> ?y)\<rparr>"
    obtain p where p: "ptable s pid = Some p" using ok(2) q by auto
    have "sema_ok ?y" using ok c True q by (simp add: sema_ok_def word_sless_alt)
    then have "pm_inv (off ?s)" using inv_upd_sema [OF inv, of ?y sid] ok q by auto
    then have "psat irq (\<lambda>r t. r = Ok () \<and> keeps irq (off ?s) t) (ready pid (off ?s))"
      by (rule ready_keeps) (use p in simp)
    then have
      "psat irq (post_bind (rely irq) guar (\<lambda>r s'. r = Ok () \<and> keeps irq s s') (\<lambda>_. irq_restore (imask s))) (ready pid (off ?s))"
      by (rule sat_post) (use x in \<open>auto simp: sat_simps keeps_def\<close>)
    then show ?thesis using True x q p by (simp add: signal_semaphore_def pop_waiter_def sat_simps)
  next
    case False
    let ?y = "x\<lparr>s_count := s_count x + 1\<rparr>"
    have "sema_ok ?y" using False ok c by (auto simp: sema_ok_def word_sless_alt)
    then have "pm_inv (s\<lparr>stable := (stable s)(sid \<mapsto> ?y)\<rparr>)"
      using inv_upd_sema [OF inv, of ?y sid] ok by auto
    then show ?thesis using False x by (simp add: signal_semaphore_def sat_simps keeps_def)
  qed
qed

text \<open>The error path of the semaphore calls: the function is left with interrupts off.\<close>

lemma semaphore_missing:
  assumes "stable s sid = None"
  shows "wait_semaphore sid s = Done (Err (SemaphoreNotFound sid)) (off s)"
    "signal_semaphore sid s = Done (Err (SemaphoreNotFound sid)) (off s)"
    "delete_semaphore sid s = Done (Err (SemaphoreNotFound sid)) (off s)"
  using assms
  by (simp_all add: wait_semaphore_def signal_semaphore_def delete_semaphore_def kop_defs irq_disable_eq
      get_semaphore_def upd_semaphore_def)

subsection \<open>Deferred scheduling\<close>

definition started :: "ProcessManager \<Rightarrow> ProcessManager" where
  "started s = s\<lparr>defer_sched := \<lparr>d_count = d_count (defer_sched s) + 1,
     d_attempt = d_count (defer_sched s) \<noteq> 0 \<and> d_attempt (defer_sched s)\<rparr>\<rparr>"

lemma defer_start_eq: "defer_schedule Start s = Done (Ok ()) (started s)"
proof -
  have "defer_schedule Start s = Done (Ok ()) (
      let s1 = (if d_count (defer_sched s) = 0
                then s\<lparr>defer_sched := (defer_sched s)\<lparr>d_attempt := False\<rparr>\<rparr> else s)
      in s1\<lparr>defer_sched := (defer_sched s1)\<lparr>d_count := d_count (defer_sched s1) + 1\<rparr>\<rparr>)"
    by (simp add: defer_schedule_def kop_defs Let_def)
  also have "\<dots> = Done (Ok ()) (started s)"
    by (auto simp: started_def Let_def intro!: ProcessManager.equality DeferScheduler.equality)
  finally show ?thesis .
qed

lemma sat_defer_start [sat_simps]: "sat R G Q (defer_schedule Start s) = Q (Ok ()) (started s)"
  by (simp add: defer_start_eq)

lemma started_fields [simp]:
  "ptable (started s) = ptable s" "stable (started s) = stable s" "pqueue (started s) = pqueue s"
  "sleep_queue (started s) = sleep_queue s" "event_queue (started s) = event_queue s"
  "curr_pid (started s) = curr_pid s" "curr_sid (started s) = curr_sid s" "running (started s) = running s"
  "pm_inv (started s) = pm_inv s" "ie (started s) = ie s" "hw (started s) = hw s"
  "d_count (defer_sched (started s)) = d_count (defer_sched s) + 1" "started (off s) = off (started s)"
  "imask (started s) = imask s" "grows s' (started s) = grows s' s" "grows (started s) s' = grows s s'"
  by (simp_all add: started_def)

lemma started_update [simp]:
  "ptable_update f (started s) = started (ptable_update f s)"
  "stable_update g (started s) = started (stable_update g s)"
  "pqueue_update h (started s) = started (pqueue_update h s)"
  "sleep_queue_update i (started s) = started (sleep_queue_update i s)"
  "event_queue_update j (started s) = started (event_queue_update j s)"
  "curr_pid_update l (started s) = started (curr_pid_update l s)"
  "running_update l (started s) = started (running_update l s)"
  "hw_update n (started s) = started (hw_update n s)"
  by (simp_all add: started_def)

text \<open>The end of a deferral returns to the count before its start.\<close>

lemma defer_stop_keeps:
  assumes "pm_inv s'" "d_count (defer_sched s) \<noteq> 0 \<longrightarrow> grows s s'" "irq \<longrightarrow> ie s' = ie s"
    "running s' = running s"
    "d_count (defer_sched s') = d_count (defer_sched s) + 1"
  shows "psat irq (\<lambda>r s''. r = Ok () \<and> keeps irq s s'') (defer_schedule Stop s')"
proof -
  let ?s = "s'\<lparr>defer_sched := (defer_sched s')\<lparr>d_count := d_count (defer_sched s') - 1\<rparr>\<rparr>"
  have "pm_inv ?s" using assms(1) by simp
  from schedule_keeps [OF this] have "psat irq (\<lambda>r s''. r = Ok () \<and> keeps irq s s'') (schedule ?s)"
    by (rule sat_post) (use assms grows_trans in \<open>auto simp: keeps_def\<close>)
  then show ?thesis using assms by (auto simp: defer_schedule_def sat_simps keeps_def)
qed

lemma for_each_keeps:
  fixes f :: "'a \<Rightarrow> unit pop"
  assumes "pm_inv s" "\<And>x s'. x \<in> set xs \<Longrightarrow> keeps irq s s' \<Longrightarrow> psat irq (\<lambda>r s''. r = Ok () \<and> keeps irq s' s'') (f x s')"
  shows "psat irq (\<lambda>r s'. r = Ok () \<and> keeps irq s s') (for_each f xs s)"
proof -
  have "psat irq (\<lambda>r s''. r = Ok () \<and> keeps irq s s'') (for_each f xs s')" if "keeps irq s s'" for s'
    using assms(2) that
  proof (induction xs arbitrary: s')
    case (Cons x xs)
    have "psat irq (\<lambda>r s''. r = Ok () \<and> keeps irq s' s'') (f x s')" using Cons.prems by simp
    then have "psat irq (post_bind (rely irq) guar (\<lambda>r s''. r = Ok () \<and> keeps irq s s'') (\<lambda>_. for_each f xs)) (f x s')"
    proof (rule sat_post)
      fix r :: "(ProcessError, unit) result" and s'' assume a: "r = Ok () \<and> keeps irq s' s''"
      then have "keeps irq s s''" using keeps_trans Cons.prems(2) by blast
      then show "post_bind (rely irq) guar (\<lambda>r s''. r = Ok () \<and> keeps irq s s'') (\<lambda>_. for_each f xs) r s''"
        using a Cons.IH Cons.prems(1) by simp
    qed
    then show ?case by (simp add: sat_simps)
  qed (simp add: sat_simps)
  then show ?thesis using assms(1) by (simp add: keeps_def)
qed

definition mark_ready :: "usize \<Rightarrow> ProcessManager \<Rightarrow> ProcessManager" where
  "mark_ready pid s = (case ptable s pid of None \<Rightarrow> s | Some p \<Rightarrow>
     if p_state p = Free \<or> p_state p = Running \<or> p_state p = Ready then s
     else s\<lparr>ptable := (ptable s)(pid \<mapsto> p\<lparr>p_state := Ready\<rparr>),
            pqueue := heap_push desc_le (ProcessDesc (p_priority p) pid) (pqueue s),
            defer_sched := (defer_sched s)\<lparr>d_attempt := True\<rparr>\<rparr>)"

lemma ready_deferred:
  assumes "d_count (defer_sched s) > 0" "ptable s pid = Some p"
  shows "ready pid s = Done (Ok ()) (mark_ready pid s)"
  using assms
  by (simp add: ready_def kop_defs get_process_def set_state_def upd_process_def push_ready_def
      schedule_deferred mark_ready_def)

lemma mark_ready_fields [simp]:
  "stable (mark_ready pid s) = stable s" "sleep_queue (mark_ready pid s) = sleep_queue s"
  "event_queue (mark_ready pid s) = event_queue s" "running (mark_ready pid s) = running s"
  "hw (mark_ready pid s) = hw s" "ie (mark_ready pid s) = ie s"
  "d_count (defer_sched (mark_ready pid s)) = d_count (defer_sched s)"
  "dom (ptable (mark_ready pid s)) = dom (ptable s)"
  "(mark_ready pid s)\<lparr>stable := x\<rparr> = mark_ready pid (s\<lparr>stable := x\<rparr>)"
  by (auto simp: mark_ready_def insert_absorb domI ie_def split: option.splits)

lemma mark_ready_inv: "pm_inv s \<Longrightarrow> pm_inv (mark_ready pid s)"
  using inv_make_ready [of s pid] by (simp add: mark_ready_def split: option.split)

text \<open>The loop of \<open>delete_semaphore\<close>: it ends, wakes every waiter and never finds its queue empty.\<close>

lemma wake_waiters_sat:
  assumes "pm_inv s" "d_count (defer_sched s) > 0" "stable s sid = Some x" "length (s_queue x) < n"
  shows "\<exists>s' x'. wake_waiters n sid s = Done (Ok ()) s' \<and> pm_inv s' \<and> keeps irq s s' \<and>
    stable s' sid = Some x' \<and> s_queue x' = []"
  using assms
proof (induction n arbitrary: s x)
  case (Suc n)
  have ok: "sema_ok x" "set (s_queue x) \<subseteq> dom (ptable s)"
    using pm_invD(4,5) [OF Suc.prems(1,3)] by auto
  show ?case
  proof (cases "s_count x <s 0")
    case True
    then obtain pid rest where q: "s_queue x = pid # rest"
      using ok(1) by (cases "s_queue x") (auto simp: sema_ok_def word_sless_alt)
    obtain p where p: "ptable s pid = Some p" using ok(2) q by auto
    have c: "sint (s_count x + 1) = sint (s_count x) + 1"
      using True by (intro sint_plus_1) (auto simp: word_sless_alt)
    let ?y = "x\<lparr>s_queue := rest, s_count := s_count x + 1\<rparr>"
    let ?s = "mark_ready pid (s\<lparr>stable := (stable s)(sid \<mapsto> ?y)\<rparr>)"
    have "sema_ok ?y" using ok c True q by (simp add: sema_ok_def word_sless_alt)
    then have inv: "pm_inv ?s"
      using mark_ready_inv inv_upd_sema [OF Suc.prems(1), of ?y sid] ok q by auto
    obtain s' x' where s': "wake_waiters n sid ?s = Done (Ok ()) s'" "pm_inv s'" "keeps irq ?s s'"
        "stable s' sid = Some x'" "s_queue x' = []"
      using Suc.IH [OF inv, of ?y] Suc.prems(2,4) q by auto
    have "wake_waiters (Suc n) sid s = wake_waiters n sid ?s"
      using True q p Suc.prems(2,3)
      by (simp add: kop_defs get_semaphore_def pop_waiter_def upd_semaphore_def ready_deferred)
    moreover have "keeps irq s s'" using s'(3) Suc.prems(3) by (simp add: keeps_def grows_def insert_absorb domI)
    ultimately show ?thesis using s' by auto
  next
    case False
    then have "s_queue x = []" using ok by (auto simp: sema_ok_def word_sless_alt)
    then show ?thesis using False Suc.prems by (simp add: kop_defs get_semaphore_def keeps_def)
  qed
qed simp

lemma restore_keeps:
  assumes "psat irq (\<lambda>r s'. r = Ok () \<and> keeps irq (off s) s') p"
  shows "psat irq (post_bind (rely irq) guar (\<lambda>r s'. r = Ok () \<and> keeps irq s s') (\<lambda>_. irq_restore (imask s))) p"
  by (rule sat_post [OF assms]) (auto simp: sat_simps keeps_def)

text \<open>The common end of the calls: schedule and leave the critical section.\<close>

lemma schedule_restore:
  assumes "keeps irq (off s) s'"
  shows "psat irq (post_bind (rely irq) guar (\<lambda>r s''. r = Ok () \<and> keeps irq s s'') (\<lambda>_. irq_restore (imask s))) (schedule s')"
proof (rule restore_keeps)
  have "pm_inv s'" using assms by (simp add: keeps_def)
  from schedule_keeps [OF this] show "psat irq (\<lambda>r s''. r = Ok () \<and> keeps irq (off s) s'') (schedule s')"
    by (rule sat_post) (use assms keeps_trans in blast)
qed

text \<open>A deferral in a critical section, and its end.\<close>

lemma stop_schedule_restore:
  assumes "keeps irq (started (off s)) s'" "d_count (defer_sched s) + 1 \<noteq> 0"
  shows "psat irq (post_bind (rely irq) guar (\<lambda>r s''. r = Ok () \<and> keeps irq s s'')
     (\<lambda>_. seq schedule (irq_restore (imask s)))) (defer_schedule Stop s')"
proof -
  have "psat irq (\<lambda>r s''. r = Ok () \<and> keeps irq (off s) s'') (defer_schedule Stop s')"
    by (rule defer_stop_keeps) (use assms in \<open>auto simp: keeps_def\<close>)
  then show ?thesis by (rule sat_post) (use schedule_restore in \<open>auto simp: sat_simps\<close>)
qed

lemma stop_schedule:
  assumes "keeps irq (started s) s'" "d_count (defer_sched s) + 1 \<noteq> 0"
  shows "psat irq (post_bind (rely irq) guar (\<lambda>r t. r = Ok () \<and> keeps irq s t) (\<lambda>_. schedule)) (defer_schedule Stop s')"
proof -
  have "psat irq (\<lambda>r t. r = Ok () \<and> keeps irq s t) (defer_schedule Stop s')"
    by (rule defer_stop_keeps) (use assms in \<open>auto simp: keeps_def\<close>)
  then show ?thesis
  proof (rule sat_post)
    fix r :: "(ProcessError, unit) result" and t assume a: "r = Ok () \<and> keeps irq s t"
    then have "pm_inv t" by (simp add: keeps_def)
    then have "psat irq (\<lambda>r t'. r = Ok () \<and> keeps irq t t') (schedule t)" by (rule schedule_keeps)
    then have "psat irq (\<lambda>r t'. r = Ok () \<and> keeps irq s t') (schedule t)"
      by (rule sat_post) (use a keeps_trans in blast)
    then show "post_bind (rely irq) guar (\<lambda>r t. r = Ok () \<and> keeps irq s t) (\<lambda>_. schedule) r t"
      using a by simp
  qed
qed

lemma delete_semaphore_keeps:
  assumes inv: "pm_inv s" and x: "stable s sid = Some x" and d: "d_count (defer_sched s) + 1 \<noteq> 0"
  shows "psat irq (\<lambda>r s'. r = Ok () \<and> keeps irq s s') (delete_semaphore sid s)"
proof -
  let ?x = "x\<lparr>s_state := SemaFree\<rparr>"
  let ?s = "started (off (s\<lparr>stable := (stable s)(sid \<mapsto> ?x)\<rparr>))"
  have "sema_ok ?x" "set (s_queue ?x) \<subseteq> dom (ptable s)"
    using pm_invD(4,5) [OF inv x] by (auto simp: sema_ok_def)
  then have i: "pm_inv ?s" using inv_upd_sema [OF inv, of ?x sid] by simp
  have n: "length (s_queue ?x) < Suc (length (s_queue x))" by simp
  obtain s' x' where w: "wake_waiters (Suc (length (s_queue x))) sid ?s = Done (Ok ()) s'" "keeps irq ?s s'"
    using wake_waiters_sat [OF i _ _ n, of sid] d by (auto simp: word_gt_0)
  have "keeps irq (started (off s)) s'" using w(2) x by (simp add: keeps_def)
  from stop_schedule_restore [OF this d] show ?thesis
    using x w(1) by (simp add: delete_semaphore_def sat_simps del: wake_waiters.simps)
qed

subsection \<open>Sleeping\<close>

lemma sleep_insert_pids: "dl_pid ` set (sleep_insert pid delay n q) = insert pid (dl_pid ` set q)"
  by (induction pid delay n q rule: sleep_insert.induct) (auto simp: Let_def)

lemma inv_sleep_queue:
  "pm_inv s \<Longrightarrow> dl_pid ` set q \<subseteq> dom (ptable s) \<Longrightarrow> pm_inv (s\<lparr>sleep_queue := q\<rparr>)"
  unfolding pm_inv_def by auto

lemma sleep_keeps:
  assumes inv: "pm_inv s" and p: "ptable s pid = Some p"
  shows "psat irq (\<lambda>r s'. r = Ok () \<and> keeps irq s s') (sleep pid delay s)"
proof -
  let ?s1 = "s\<lparr>ptable := (ptable s)(pid \<mapsto> p\<lparr>p_state := Sleep\<rparr>)\<rparr>"
  let ?s = "?s1\<lparr>sleep_queue := sleep_insert pid delay 0 (sleep_queue s)\<rparr>"
  have "pm_inv ?s1" using inv_set_state [OF inv p] by simp
  then have "pm_inv ?s"
    by (rule inv_sleep_queue) (use pm_invD(6) [OF inv] in \<open>auto simp: sleep_insert_pids\<close>)
  then have "keeps irq (off s) (off ?s)" using p by (simp add: keeps_def grows_def insert_absorb domI)
  from schedule_restore [OF this] show ?thesis using p by (simp add: sleep_def sat_simps)
qed

lemma sleep_tick_pids:
  "sleep_tick q = (pids, q') \<Longrightarrow> set pids \<subseteq> dl_pid ` set q \<and> dl_pid ` set q' \<subseteq> dl_pid ` set q"
  by (cases q) (auto simp: sleep_tick_def Let_def split: if_splits dest!: set_takeWhileD set_dropWhileD)

lemma wakeup_keeps:
  assumes inv: "pm_inv s" and d: "d_count (defer_sched s) + 1 \<noteq> 0"
  shows "psat irq (\<lambda>r s'. r = Ok () \<and> keeps irq s s') (wakeup s)"
proof (cases "sleep_queue s = []")
  case True
  then show ?thesis using inv by (simp add: wakeup_def sat_simps keeps_def)
next
  case False
  have d': "d_count (defer_sched (off s)) + 1 \<noteq> 0" using d by simp
  obtain pids q' where t: "sleep_tick (sleep_queue s) = (pids, q')" by fastforce
  let ?s = "started (off (s\<lparr>sleep_queue := q'\<rparr>))"
  let ?f = "\<lambda>pid. bind (get_process pid) (\<lambda>p. if p_state p = Sleep then ready pid else ret ())"
  have all: "dl_pid ` set (sleep_queue s) \<subseteq> dom (ptable s)" using pm_invD(6) [OF inv] by blast
  have sub: "set pids \<subseteq> dom (ptable s)" "dl_pid ` set q' \<subseteq> dom (ptable s)"
    using sleep_tick_pids [OF t] all by blast+
  have i: "pm_inv ?s" using inv_sleep_queue [OF inv sub(2)] by simp
  then have "psat irq (\<lambda>r s'. r = Ok () \<and> keeps irq ?s s') (for_each ?f pids ?s)"
  proof (rule for_each_keeps)
    fix x s' assume "x \<in> set pids" "keeps irq ?s s'"
    then obtain p where p: "ptable s' x = Some p" "pm_inv s'"
      using sub(1) d by (fastforce simp: keeps_def grows_def)
    then show "psat irq (\<lambda>r s''. r = Ok () \<and> keeps irq s' s'') (?f x s')"
      using ready_keeps [OF p(2,1)] by (simp add: sat_simps keeps_def)
  qed
  then have "psat irq (post_bind (rely irq) guar (\<lambda>r s'. r = Ok () \<and> keeps irq (off s) s')
      (\<lambda>_. seq (defer_schedule Stop) schedule)) (for_each ?f pids ?s)"
  proof (rule sat_post)
    fix r :: "(ProcessError, unit) result" and s' assume a: "r = Ok () \<and> keeps irq ?s s'"
    then have "keeps irq (started (off s)) s'" by (simp add: keeps_def)
    from stop_schedule [OF this d']
    show "post_bind (rely irq) guar (\<lambda>r s'. r = Ok () \<and> keeps irq (off s) s')
       (\<lambda>_. seq (defer_schedule Stop) schedule) r s'"
      using a by (simp add: sat_simps)
  qed
  then have "psat irq (\<lambda>r s'. r = Ok () \<and> keeps irq (off s) s')
      (seq (for_each ?f pids) (seq (defer_schedule Stop) schedule) ?s)"
    by (simp only: sat_seq)
  from restore_keeps [OF this] show ?thesis using False t by (simp add: wakeup_def sat_simps)
qed

subsection \<open>Events and input/output\<close>

lemma inv_event_queue:
  "pm_inv s \<Longrightarrow> (\<And>e ps. eq e = Some ps \<Longrightarrow> set ps \<subseteq> dom (ptable s)) \<Longrightarrow> pm_inv (s\<lparr>event_queue := eq\<rparr>)"
  unfolding pm_inv_def by auto

lemma event_wait_keeps:
  assumes inv: "pm_inv s" and p: "ptable s pid = Some p"
  shows "psat irq (\<lambda>r s'. r = Ok () \<and> keeps irq s s') (event_wait pid event s)"
proof -
  let ?s1 = "s\<lparr>ptable := (ptable s)(pid \<mapsto> p\<lparr>p_state := EventWait\<rparr>)\<rparr>"
  let ?s = "?s1\<lparr>event_queue := (event_queue s)(event \<mapsto>
     (case event_queue s event of None \<Rightarrow> [] | Some pids \<Rightarrow> pids) @ [pid])\<rparr>"
  have "pm_inv ?s1" using inv_set_state [OF inv p] by simp
  then have "pm_inv ?s"
    by (rule inv_event_queue)
      (use p in \<open>auto split: if_splits option.splits dest!: pm_invD(7) [OF inv]\<close>)
  then have "keeps irq (off s) (off ?s)" using p by (simp add: keeps_def grows_def insert_absorb domI)
  from schedule_restore [OF this] show ?thesis using p by (simp add: event_wait_def sat_simps)
qed

lemma event_signal_keeps:
  assumes inv: "pm_inv s" and d: "d_count (defer_sched s) + 1 \<noteq> 0"
  shows "psat irq (\<lambda>r s'. r = Ok () \<and> keeps irq s s') (event_signal event s)"
proof -
  let ?s = "started (off (s\<lparr>event_queue := (event_queue s)(event := None)\<rparr>))"
  have "pm_inv (s\<lparr>event_queue := (event_queue s)(event := None)\<rparr>)"
    by (rule inv_event_queue [OF inv]) (auto split: if_splits dest!: pm_invD(7) [OF inv])
  then have i: "pm_inv ?s" by simp
  show ?thesis
  proof (cases "event_queue s event")
    case None
    have "psat irq (\<lambda>r s'. r = Ok () \<and> keeps irq (off s) s') (defer_schedule Stop ?s)"
      by (rule defer_stop_keeps) (use i in auto)
    from restore_keeps [OF this] show ?thesis using None by (simp add: event_signal_def sat_simps)
  next
    case (Some pids)
    have sub: "set pids \<subseteq> dom (ptable s)" using pm_invD(7) [OF inv Some] by blast
    have "psat irq (\<lambda>r s'. r = Ok () \<and> keeps irq ?s s') (for_each ready pids ?s)"
    proof (rule for_each_keeps [OF i])
      fix x s' assume "x \<in> set pids" "keeps irq ?s s'"
      then obtain p where p: "ptable s' x = Some p" "pm_inv s'"
        using sub d by (fastforce simp: keeps_def grows_def)
      then show "psat irq (\<lambda>r s''. r = Ok () \<and> keeps irq s' s'') (ready x s')"
        using ready_keeps [OF p(2,1)] by simp
    qed
    then have "psat irq (post_bind (rely irq) guar (\<lambda>r s'. r = Ok () \<and> keeps irq s s')
        (\<lambda>_. seq (defer_schedule Stop) (seq schedule (irq_restore (imask s))))) (for_each ready pids ?s)"
    proof (rule sat_post)
      fix r :: "(ProcessError, unit) result" and s' assume a: "r = Ok () \<and> keeps irq ?s s'"
      then have "keeps irq (started (off s)) s'" by (simp add: keeps_def)
      from stop_schedule_restore [OF this d]
      show "post_bind (rely irq) guar (\<lambda>r s'. r = Ok () \<and> keeps irq s s')
         (\<lambda>_. seq (defer_schedule Stop) (seq schedule (irq_restore (imask s)))) r s'"
        using a by (simp add: sat_simps)
    qed
    then show ?thesis using Some by (simp add: event_signal_def sat_simps)
  qed
qed

lemma io_wait_keeps:
  assumes inv: "pm_inv s" and p: "ptable s pid = Some p"
  shows "psat irq (\<lambda>r s'. r = Ok () \<and> keeps irq s s') (io_wait pid s)"
  using inv_set_state [OF inv p, of IOWait] p
  by (simp add: io_wait_def sat_simps keeps_def)

lemma io_signal_keeps:
  assumes inv: "pm_inv s" and p: "ptable s pid = Some p"
  shows "psat irq (\<lambda>r s'. r = Ok () \<and> keeps irq s s') (io_signal pid s)"
proof -
  have "pm_inv (off s)" "ptable (off s) pid = Some p" using inv p by simp_all
  from restore_keeps [OF ready_keeps [OF this]] show ?thesis by (simp add: io_signal_def sat_simps)
qed

text \<open>The error path: an unknown process.\<close>

lemma process_missing:
  assumes "ptable s pid = None"
  shows "ready pid s = Done (Err (ProcessNotFound pid)) s"
    "sleep pid delay s = Done (Err (ProcessNotFound pid)) (off s)"
    "event_wait pid ev s = Done (Err (ProcessNotFound pid)) (off s)"
    "io_wait pid s = Done (Err (ProcessNotFound pid)) (off s)"
    "io_signal pid s = Done (Err (ProcessNotFound pid)) (off s)"
    "kill pid s = Done (Err (ProcessNotFound pid)) (off s)"
    "get_process_state pid s = Done (Err (ProcessNotFound pid)) s"
  using assms
  by (simp_all add: ready_def sleep_def event_wait_def io_wait_def io_signal_def kill_def
      get_process_state_def kop_defs irq_disable_eq get_process_def set_state_def upd_process_def)

end
