(* ===== verification/Process_Life.thy ===== *)
theory Process_Life
  imports Process_Inv
begin

text \<open>
  Creation and end of processes: the memory operations they use do not touch the interrupt state, and
  \<open>kill\<close>, \<open>create_process\<close>, \<open>wait_exit\<close> and the initialisation keep or establish the invariant.
\<close>

section \<open>The machine under process creation and release\<close>

text \<open>None of it touches the control registers, so the interrupt state is unchanged.\<close>

named_theorems csrs_simps

lemma csrs_alloc [csrs_simps]: "csrs (snd (alloc l m)) = csrs m"
  by (simp add: alloc_eq split: option.split)

lemma csrs_alloc_zeroed [csrs_simps]: "csrs (snd (alloc_zeroed l m)) = csrs m"
  using csrs_alloc [of l m] by (cases "alloc l m") (simp add: alloc_zeroed_def)

lemma csrs_dealloc [csrs_simps]: "csrs (dealloc p l m) = csrs m"
  by (simp add: dealloc_eq)

lemma csrs_map_walk [csrs_simps]: "csrs (snd (map_walk vaddr lv v m)) = csrs m"
proof (induction lv arbitrary: v m)
  case (Cons i lv)
  have "csrs (case alloc_zeroed l m of (page, m') \<Rightarrow> set_entry v (f page) m') = csrs m" for l f
    using csrs_alloc_zeroed [of l m] by (cases "alloc_zeroed l m") (simp add: set_entry_def)
  then show ?case using Cons by (simp add: Let_def del: eb_val.simps)
qed simp

lemma csrs_map_pt [csrs_simps]: "csrs (snd (map_pt r v p b k m)) = csrs m"
  by (auto simp: map_pt_def set_entry_def csrs_map_walk split: prod.splits result.splits
      dest!: arg_cong [where f = "\<lambda>x. csrs (snd x)"])

lemma csrs_and_then:
  "csrs (snd p) = csrs m \<Longrightarrow> (\<And>a m1. csrs (snd (f a m1)) = csrs m1) \<Longrightarrow> csrs (snd (and_then p f)) = csrs m"
  by (auto simp: and_then_def split: prod.splits result.splits)

lemma csrs_for_branches:
  "(\<And>a m. csrs (snd (body a m)) = csrs m) \<Longrightarrow> csrs (snd (for_branches body t is m)) = csrs m"
proof (induction body t "is" m rule: for_branches.induct)
  case (2 body t i "is" m)
  have "csrs (snd (body a m)) = csrs m" for a m by (rule "2.prems")
  then have b: "body a m = (r, m1) \<Longrightarrow> csrs m1 = csrs m" for a m r m1 by (metis snd_conv)
  show ?case using 2 b by (auto simp: Let_def csrs_dealloc split: prod.splits result.splits)
qed simp

lemma csrs_unmap [csrs_simps]: "csrs (snd (unmap root m)) = csrs m"
proof -
  have 1: "csrs (snd (unmap_lv1 t m)) = csrs m" for t m
    unfolding unmap_lv1_def by (simp add: csrs_for_branches)
  have 2: "csrs (snd (unmap_lv2 t m)) = csrs m" for t m
    unfolding unmap_lv2_def by (simp add: csrs_for_branches 1)
  show ?thesis unfolding unmap_def by (rule csrs_for_branches) (rule 2)
qed

lemma csrs_fold_dealloc: "csrs (fold (\<lambda>x. dealloc (f x) (g x)) xs m) = csrs m"
  by (induction xs arbitrary: m) (simp_all add: csrs_dealloc)

lemma csrs_ArchProcess_free: "csrs (snd (ArchProcess_free ap m)) = csrs m"
  unfolding ArchProcess_free_def Let_def
  by (rule csrs_and_then) (simp_all add: csrs_unmap csrs_dealloc csrs_fold_dealloc)

lemma csrs_setup_pagetable: "csrs (snd (setup_pagetable ep ap m)) = csrs m"
proof -
  obtain root m1 where a: "alloc_zeroed (0x1000, 0x1000) m = (root, m1)" by fastforce
  have m1: "csrs m1 = csrs m" using csrs_alloc_zeroed [of "(0x1000, 0x1000)" m] a by simp
  have stk: "csrs (snd (case alloc l m of (u, m5) \<Rightarrow> and_then (map_pt r v u b 0 m5) (\<lambda>_ m6. (f u, m6)))) = csrs m"
    for l m r v b f
    using csrs_alloc [of l m] by (cases "alloc l m") (auto intro!: csrs_and_then simp: csrs_map_pt)
  show ?thesis
    unfolding setup_pagetable_def a prod.case
    by (simp only: if_distrib [of snd] if_distrib [of csrs] snd_conv m1)
      (auto intro!: csrs_and_then simp: csrs_map_pt m1 stk simp del: eb_val.simps)
qed

lemma csrs_ArchProcess_init: "csrs (snd (ArchProcess_init ep sp start k n ap m)) = csrs m"
  unfolding ArchProcess_init_def
  by (rule csrs_and_then) (simp_all add: csrs_setup_pagetable Let_def tf_set_def)

lemma csrs_ArchProcess_new: "csrs (snd (ArchProcess_new pid m)) = csrs m"
  using csrs_alloc_zeroed [of "(0x1000, 0x1000)" m]
  by (cases "alloc_zeroed (0x1000, 0x1000) m") (simp add: ArchProcess_new_def)

lemma csrs_Process_new: "csrs (snd (Process_new pid m)) = csrs m"
  using csrs_ArchProcess_new [of pid m]
  by (cases "ArchProcess_new pid m") (simp add: Process_new_def)

lemma sat_on_hw [sat_simps]:
  "sat R G Q (on_hw f s) = (case f (hw s) of (r, m) \<Rightarrow> Q r (s\<lparr>hw := m\<rparr>))"
  by (simp add: on_hw_def sat_simps split: prod.split)

lemma for_branches_no_Err:
  "(\<And>a m e. fst (body a m) \<noteq> Err e) \<Longrightarrow> fst (for_branches body t is m) \<noteq> Err e"
proof (induction body t "is" m rule: for_branches.induct)
  case (2 body t i "is" m)
  have "body a m \<noteq> (Err e, m1)" for a m e m1 using "2.prems" [of a m e] by (metis fst_conv)
  then show ?case using 2 by (auto simp: Let_def split: prod.splits result.splits)
qed simp

lemma ArchProcess_free_no_Err: "fst (ArchProcess_free ap m) \<noteq> Err e"
proof -
  have 1: "fst (unmap_lv1 t m) \<noteq> Err e" for t m and e :: 'a
    unfolding unmap_lv1_def by (simp add: for_branches_no_Err)
  have 2: "fst (unmap_lv2 t m) \<noteq> Err e" for t m and e :: 'a
    unfolding unmap_lv2_def by (simp add: for_branches_no_Err 1)
  have "fst (unmap root m) \<noteq> Err e" for root m and e :: 'a
    unfolding unmap_def by (rule for_branches_no_Err) (rule 2)
  then show ?thesis unfolding ArchProcess_free_def Let_def and_then_def
    by (auto split: prod.splits result.splits) (metis fst_conv)
qed

lemma map_walk_no_Err: "fst (map_walk vaddr lv v m) \<noteq> Err e"
  by (induction vaddr lv v m rule: map_walk.induct) (auto simp: Let_def)

lemma map_pt_no_Err: "fst (map_pt r v p b k m) \<noteq> Err e"
proof -
  let ?w = "map_walk v (rev [k ..< LEVELS - 1]) (entry_add r (vpn v (LEVELS - 1))) m :: ('a, usize) result \<times> machine"
  have "fst ?w \<noteq> Err e" by (rule map_walk_no_Err)
  then show ?thesis unfolding map_pt_def by (cases ?w; cases "fst ?w") auto
qed

definition no_err :: "('e, 'a) result \<times> 's \<Rightarrow> bool" where
  "no_err p \<longleftrightarrow> (\<forall>e. fst p \<noteq> Err e)"

lemma no_err_and_then: "no_err p \<Longrightarrow> (\<And>a s. no_err (f a s)) \<Longrightarrow> no_err (and_then p f)"
  unfolding no_err_def by (cases p; cases "fst p") auto

lemma no_err_map_pt: "no_err (map_pt r v p b k m)"
  by (simp add: no_err_def map_pt_no_Err)

lemma no_err_setup_pagetable: "no_err (setup_pagetable ep ap m)"
proof -
  have ok: "no_err (Ok a, m)" "no_err (Panic e, m)" for a e and m :: 's by (simp_all add: no_err_def)
  have stk: "no_err (case alloc l m of (u, m5) \<Rightarrow> and_then (map_pt r v u b 0 m5) (\<lambda>_ m6. (Ok (f u), m6)))"
    for l m r v b f
    by (cases "alloc l m") (simp add: no_err_and_then no_err_map_pt ok)
  show ?thesis unfolding setup_pagetable_def
    by (cases "alloc_zeroed (0x1000, 0x1000) m")
      (simp add: ok no_err_and_then no_err_map_pt stk del: eb_val.simps)
qed

lemma no_err_ArchProcess_init: "no_err (ArchProcess_init ep sp start k n ap m)"
  unfolding ArchProcess_init_def
  by (rule no_err_and_then [OF no_err_setup_pagetable]) (simp add: no_err_def Let_def)

lemmas ArchProcess_init_no_Err = no_err_ArchProcess_init [unfolded no_err_def, rule_format]

text \<open>A call that releases memory either succeeds or panics.\<close>

definition keeps_or_panic :: "bool \<Rightarrow> ProcessManager \<Rightarrow> 'a \<Rightarrow> ('e, 'a) result \<Rightarrow> ProcessManager \<Rightarrow> bool" where
  "keeps_or_panic irq s v r s' \<longleftrightarrow> (r = Ok v \<and> keeps irq s s') \<or> (\<exists>msg. r = Panic msg)"

lemma keeps_or_panic_simps [simp]:
  "keeps_or_panic irq s v (Ok w) s' \<longleftrightarrow> w = v \<and> keeps irq s s'" "keeps_or_panic irq s v (Panic msg) s'"
  "\<not> keeps_or_panic irq s v (Err e) s'"
  by (auto simp: keeps_or_panic_def)

lemma keeps_or_panicI: "psat irq (\<lambda>r s'. r = Ok v \<and> keeps irq s s') p \<Longrightarrow> psat irq (keeps_or_panic irq s v) p"
  by (erule sat_post) (simp add: keeps_or_panic_def)

text \<open>The part of \<open>kill\<close> after the process has been marked \<open>Free\<close>.\<close>

lemma kill_rest:
  assumes k: "keeps irq (off s) s1" and p: "ptable s1 pid = Some p" and d: "d_count (defer_sched s) + 1 \<noteq> 0"
  shows "psat irq (keeps_or_panic irq s ())
    (bind (get_process pid) (\<lambda>p.
     seq (on_hw (ArchProcess_free (arch_proc p)))
    (bind (get_process pid) (\<lambda>p.
     seq (modify (\<lambda>s. s\<lparr>hw := dealloc (p_kernel_stack p) (KERNEL_STACK_SIZE, 0x1000) (hw s)\<rparr>))
    (seq (event_signal (ExitEvent pid))
    (seq schedule
         (irq_restore (imask s))))))) s1)"
proof -
  obtain r m where f: "ArchProcess_free (arch_proc p) (hw s1) = (r :: (ProcessError, unit) result, m)" by fastforce
  let ?s2 = "s1\<lparr>hw := dealloc (p_kernel_stack p) (KERNEL_STACK_SIZE, 0x1000) m\<rparr>"
  have "csrs m = csrs (hw s1)"
    using csrs_ArchProcess_free [of "arch_proc p" "hw s1", where ?'a = ProcessError] f by simp
  then have "ie ?s2 = ie s1" by (simp add: ie_def csrs_dealloc)
  with k have k2: "keeps irq (off s) ?s2" by (simp add: keeps_def)
  have "psat irq (\<lambda>r t. r = Ok () \<and> keeps irq ?s2 t) (event_signal (ExitEvent pid) ?s2)"
    by (rule event_signal_keeps) (use k2 d in \<open>simp_all add: keeps_def\<close>)
  then have "psat irq (post_bind (rely irq) guar (keeps_or_panic irq s ()) (\<lambda>_. seq schedule (irq_restore (imask s))))
      (event_signal (ExitEvent pid) ?s2)"
  proof (rule sat_post)
    fix r :: "(ProcessError, unit) result" and t assume a: "r = Ok () \<and> keeps irq ?s2 t"
    then have "keeps irq (off s) t" using k2 keeps_trans by blast
    from schedule_restore [OF this]
    have "psat irq (keeps_or_panic irq s ()) (seq schedule (irq_restore (imask s)) t)"
      by (intro keeps_or_panicI) (simp only: sat_seq)
    then show "post_bind (rely irq) guar (keeps_or_panic irq s ()) (\<lambda>_. seq schedule (irq_restore (imask s))) r t"
      using a by simp
  qed
  moreover have "r \<noteq> Err e" for e
    using f ArchProcess_free_no_Err [of "arch_proc p" "hw s1" e] by (metis fst_conv)
  ultimately show ?thesis using p f by (cases r) (auto simp: sat_simps)
qed

lemma kill_keeps:
  assumes inv: "pm_inv s" and p: "ptable s pid = Some p" and d: "d_count (defer_sched s) + 1 \<noteq> 0"
  shows "psat irq (keeps_or_panic irq s ()) (kill pid s)"
proof (cases "p_state p = Free")
  case True
  have "keeps irq (off s) (off s)" using inv by (simp add: keeps_def)
  from kill_rest [OF this _ d, of pid p] show ?thesis
    using p True by (simp add: kill_def sat_simps)
next
  case False
  let ?s1 = "off (s\<lparr>ptable := (ptable s)(pid \<mapsto> p\<lparr>p_state := Free\<rparr>)\<rparr>)"
  have "keeps irq (off s) ?s1" using inv_set_state [OF inv p, of Free] p by (simp add: keeps_def)
  from kill_rest [OF this _ d, of pid "p\<lparr>p_state := Free\<rparr>"] show ?thesis
    using p False by (simp add: kill_def sat_simps)
qed

subsection \<open>Creation\<close>

lemma hw_out [simp]:
  "ptable_update f (hw_update g s) = hw_update g (ptable_update f s)"
  "curr_pid_update h (hw_update g s) = hw_update g (curr_pid_update h s)"
  "running_update h (hw_update g s) = hw_update g (running_update h s)"
  by simp_all

lemma inv_new_process:
  assumes inv: "pm_inv s" and w: "curr_pid s + 1 \<noteq> 0"
    and p: "p_state p = Suspend" "p_children p = []"
  shows "pm_inv (s\<lparr>curr_pid := curr_pid s + 1, ptable := (ptable s)(curr_pid s \<mapsto> p)\<rparr>)" (is "pm_inv ?s")
proof -
  let ?pid = "curr_pid s"
  have lt: "x < ?pid + 1" if "x \<le> ?pid" for x
  proof -
    have "unat ?pid \<noteq> 2 ^ 64 - 1"
    proof
      assume "unat ?pid = 2 ^ 64 - 1"
      then have "unat ?pid = unat (- 1 :: usize)" by (simp add: unsigned_minus_1_eq_mask mask_eq_exp_minus_1)
      then have "?pid = - 1" by (simp only: word_unat_eq_iff)
      then show False using w by simp
    qed
    then have "unat ?pid + 1 < 2 ^ 64"
      using unsigned_less [where ?'b = 64 and ?'a = nat, of ?pid] by simp
    then show ?thesis using that by (simp add: word_less_nat_alt word_le_nat_alt unat_word_ariths)
  qed
  have new: "?pid \<notin> dom (ptable s)" using pm_invD(11) [OF inv] by auto
  have prio: "map_option p_priority (((ptable s)(?pid \<mapsto> p)) (pd_pid d)) = Some (pd_priority d)"
    if "d \<in> set (pqueue s)" for d
    using pm_invD(3) [OF inv that] new by auto
  have st: "st ?s x = (if x = ?pid then Some Suspend else st s x)" for x
    by (simp add: st_def p)
  have old: "x < ?pid + 1" if "ptable s x = Some y" for x y
    using lt [OF order_less_imp_le] pm_invD(11) [OF inv, of x] that by blast
  show ?thesis
    unfolding pm_inv_def st
    using new p prio lt old pm_invD(1,2) [OF inv]
    by (auto simp: order_less_imp_le split: if_splits dest: pm_invD(4-11) [OF inv])
qed

lemma pm_inv_upd_arch:
  assumes "pm_inv s" "ptable s pid = Some p"
  shows "pm_inv (s\<lparr>ptable := (ptable s)(pid \<mapsto> p\<lparr>arch_proc := ap\<rparr>)\<rparr>)"
  by (subst pm_inv_upd_ptable) (use assms in auto)

lemma setup_kernel_process_keeps:
  assumes inv: "pm_inv s" and p: "ptable s pid = Some p"
  shows "psat irq (keeps_or_panic irq s ()) (setup_kernel_process ep self_ptr pid func s)"
proof -
  obtain ap m1 where a: "ArchProcess_new pid (hw s) = (ap, m1)" by fastforce
  obtain r m2 where i: "ArchProcess_init ep (self_ptr pid) func (p_kernel_stack p) KERNEL_STACK_SIZE ap m1 =
      (r :: (ProcessError, ArchProcess) result, m2)" by fastforce
  have c: "csrs m1 = csrs (hw s)" "csrs m2 = csrs m1"
    using csrs_ArchProcess_new [of pid "hw s"] a
      csrs_ArchProcess_init [of ep "self_ptr pid" func "p_kernel_stack p" KERNEL_STACK_SIZE ap m1, where ?'a = ProcessError] i
    by simp_all
  have ne: "r \<noteq> Err e" for e
    using ArchProcess_init_no_Err [of ep "self_ptr pid" func "p_kernel_stack p" KERNEL_STACK_SIZE ap m1 e] i by simp
  show ?thesis
  proof (cases r)
    case (Ok ap')
    let ?s = "s\<lparr>ptable := (ptable s)(pid \<mapsto> p\<lparr>arch_proc := ap'\<rparr>)\<rparr>"
    have "keeps irq s (?s\<lparr>hw := m2\<rparr>)"
      using pm_inv_upd_arch [OF inv p, of ap'] p c by (simp add: keeps_def) (simp add: ie_def)
    then show ?thesis using Ok p a i by (simp add: setup_kernel_process_def sat_simps)
  qed (use ne p a i in \<open>auto simp: setup_kernel_process_def sat_simps\<close>)
qed

lemma create_process_keeps:
  assumes inv: "pm_inv s" and w: "curr_pid s + 1 \<noteq> 0" and d: "d_count (defer_sched s) + 1 \<noteq> 0"
  shows "psat irq (keeps_or_panic irq s (curr_pid s)) (create_process ep self_ptr name priority do_setup s)"
proof -
  let ?pid = "curr_pid s"
  obtain p m1 where n: "Process_new ?pid (hw s) = (p, m1)" by fastforce
  obtain stk m2 where a: "alloc (KERNEL_STACK_SIZE, 0x1000) m1 = (stk, m2)" by fastforce
  have c: "csrs m2 = csrs (hw s)"
    using csrs_Process_new [of ?pid "hw s"] n csrs_alloc [of "(KERNEL_STACK_SIZE, 0x1000)" m1] a by simp
  have ch: "p_children p = []" using n by (auto simp: Process_new_def split: prod.splits)
  let ?p = "p\<lparr>p_priority := priority, p_name := name, p_kernel_stack := stk, p_state := Suspend\<rparr>"
  let ?s1 = "s\<lparr>curr_pid := ?pid + 1, ptable := (ptable s)(?pid \<mapsto> ?p)\<rparr>"
  let ?s = "started (?s1\<lparr>hw := m2\<rparr>)"
  have "pm_inv ?s1" by (rule inv_new_process [OF inv w]) (simp_all add: ch)
  then have i: "pm_inv ?s" by simp
  have k: "keeps irq (started s) ?s" using i c by (auto simp: keeps_def ie_def grows_def)
  have stop: "psat irq (keeps_or_panic irq s ?pid) (seq (defer_schedule Stop) (ret ?pid) t)" if "keeps irq ?s t" for t
  proof -
    have "keeps irq (started s) t" using k that keeps_trans by blast
    then have "psat irq (\<lambda>r t'. r = Ok () \<and> keeps irq s t') (defer_schedule Stop t)"
      by (intro defer_stop_keeps) (use d in \<open>auto simp: keeps_def\<close>)
    then show ?thesis unfolding sat_seq by (rule sat_post) (simp add: sat_simps)
  qed
  show ?thesis
  proof (cases do_setup)
    case True
    have "psat irq (keeps_or_panic irq ?s ()) (setup_process ep self_ptr ?pid ?s)"
      unfolding setup_process_def by (rule setup_kernel_process_keeps [OF i]) simp
    then have "psat irq (post_bind (rely irq) guar (keeps_or_panic irq s ?pid) (\<lambda>_. seq (defer_schedule Stop) (ret ?pid)))
        (setup_process ep self_ptr ?pid ?s)"
      by (rule sat_post) (auto simp: keeps_or_panic_def stop)
    then show ?thesis using True n a by (simp add: create_process_def sat_simps)
  next
    case False
    have "keeps irq ?s ?s" using i by (simp add: keeps_def)
    from stop [OF this] show ?thesis using False n a by (simp add: create_process_def sat_simps)
  qed
qed

lemma create_kernel_process_keeps:
  assumes inv: "pm_inv s" and w: "curr_pid s + 1 \<noteq> 0" and d: "d_count (defer_sched s) + 1 \<noteq> 0"
  shows "psat irq (\<lambda>r s'. (r = Ok (curr_pid s) \<and> keeps irq s s') \<or> (\<exists>msg. r = Panic msg) \<or>
      r = Err (ProcessNotFound (curr_pid s))) (create_kernel_process ep self_ptr name priority func s)"
proof -
  let ?Q = "\<lambda>r s'. (r = Ok (curr_pid s) \<and> keeps irq s s') \<or> (\<exists>msg. r = Panic msg) \<or>
      r = Err (ProcessNotFound (curr_pid s))"
  have "psat irq (post_bind (rely irq) guar ?Q (\<lambda>pid. seq (setup_kernel_process ep self_ptr pid func) (ret pid)))
      (create_process ep self_ptr name priority False s)"
  proof (rule sat_post [OF create_process_keeps [OF inv w d]])
    fix r :: "(ProcessError, usize) result" and t assume a: "keeps_or_panic irq s (curr_pid s) r t"
    show "post_bind (rely irq) guar ?Q (\<lambda>pid. seq (setup_kernel_process ep self_ptr pid func) (ret pid)) r t"
    proof (cases r)
      case (Ok v)
      then have k: "v = curr_pid s" "keeps irq s t" using a by simp_all
      show ?thesis
      proof (cases "ptable t v")
        case None
        then show ?thesis using Ok k by (simp add: setup_kernel_process_def sat_simps)
      next
        case (Some p)
        have "pm_inv t" using k by (simp add: keeps_def)
        from setup_kernel_process_keeps [OF this Some]
        have "psat irq (post_bind (rely irq) guar ?Q (\<lambda>_. ret v)) (setup_kernel_process ep self_ptr v func t)"
        proof (rule sat_post)
          fix r :: "(ProcessError, unit) result" and t' assume "keeps_or_panic irq t () r t'"
          then show "post_bind (rely irq) guar ?Q (\<lambda>_. ret v) r t'"
            using k keeps_trans by (cases r) (auto simp: sat_simps)
        qed
        then show ?thesis using Ok by (simp add: sat_simps)
      qed
    qed (use a in auto)
  qed
  then show ?thesis by (simp only: create_kernel_process_def sat_bind)
qed

subsection \<open>Waiting for children\<close>

lemma reap_none:
  assumes "\<And>c. c \<in> set cs \<Longrightarrow> \<exists>p. ptable s c = Some p \<and> p_state p \<noteq> Free"
  shows "reap_child r cs s = Done (Ok False) s"
  using assms by (induction cs) (fastforce simp: kop_defs get_process_def)+

lemma reap_some:
  assumes "\<And>c. c \<in> set cs \<Longrightarrow> ptable s c \<noteq> None" "\<exists>c \<in> set cs. st s c = Some Free" "ptable s r = Some p"
  shows "\<exists>c \<in> set cs. reap_child r cs s =
    Done (Ok True) (s\<lparr>ptable := (ptable s)(r \<mapsto> p\<lparr>p_children := remove_at c (p_children p)\<rparr>)\<rparr>)"
  using assms
proof (induction cs)
  case (Cons c cs)
  obtain q where q: "ptable s c = Some q" using Cons.prems(1) [of c] by auto
  show ?case
  proof (cases "p_state q = Free")
    case True
    then show ?thesis using q Cons.prems(3)
      by (intro bexI [of _ c]) (simp_all add: kop_defs get_process_def upd_process_def fun_upd_def)
  next
    case False
    then have "\<exists>c \<in> set cs. st s c = Some Free" using Cons.prems(2) q by (auto simp: st_def)
    then have "\<exists>c \<in> set cs. reap_child r cs s =
        Done (Ok True) (s\<lparr>ptable := (ptable s)(r \<mapsto> p\<lparr>p_children := remove_at c (p_children p)\<rparr>)\<rparr>)"
      by (intro Cons.IH Cons.prems(1,3)) auto
    then obtain c' where "c' \<in> set cs" "reap_child r cs s =
        Done (Ok True) (s\<lparr>ptable := (ptable s)(r \<mapsto> p\<lparr>p_children := remove_at c' (p_children p)\<rparr>)\<rparr>)"
      by blast
    then show ?thesis using q False
      by (intro bexI [of _ c']) (simp_all add: kop_defs get_process_def fun_upd_def)
  qed
qed simp

lemma wait_exit_keeps:
  assumes inv: "pm_inv s" and d: "d_count (defer_sched s) + 1 \<noteq> 0" and p: "ptable s (running s) = Some p"
    and alive: "\<And>c. c \<in> set (p_children p) \<Longrightarrow> st s c \<noteq> Some Free"
  shows "psat irq (\<lambda>r s'. r = Ok () \<and> keeps irq s s') (wait_exit s)"
proof -
  let ?f = "\<lambda>pid. bind (gets running) (\<lambda>r. event_wait r (ExitEvent pid))"
  have "reap_child (running s) (p_children p) (off s) = Done (Ok False) (off s)"
  proof (rule reap_none)
    fix c assume c: "c \<in> set (p_children p)"
    then show "\<exists>q. ptable (off s) c = Some q \<and> p_state q \<noteq> Free"
      using pm_invD(10) [OF inv p c] alive [OF c] by (auto simp: st_def)
  qed
  moreover have "psat irq (\<lambda>r t. r = Ok () \<and> keeps irq (started (off s)) t) (for_each ?f (p_children p) (started (off s)))"
  proof (rule for_each_keeps)
    fix x t assume k: "keeps irq (started (off s)) t"
    then obtain q where "ptable t (running t) = Some q" using pm_invD(1) [of t] by (auto simp: keeps_def)
    moreover have "pm_inv t" using k by (simp add: keeps_def)
    ultimately show "psat irq (\<lambda>r t'. r = Ok () \<and> keeps irq t t') (?f x t)"
      using event_wait_keeps by (simp add: sat_simps)
  qed (use inv in simp)
  then have "psat irq (post_bind (rely irq) guar (\<lambda>r s'. r = Ok () \<and> keeps irq s s')
      (\<lambda>_. seq (defer_schedule Stop) (seq schedule (irq_restore (imask s))))) (for_each ?f (p_children p) (started (off s)))"
    by (rule sat_post) (use stop_schedule_restore [OF _ d] in \<open>auto simp: sat_simps\<close>)
  ultimately show ?thesis using p by (simp add: wait_exit_def sat_simps)
qed

subsection \<open>Initialisation\<close>

lemma pm_init_sat:
  "sat R G (\<lambda>r s'. (r = Ok () \<and> pm_inv s' \<and> running s' = 0 \<and> st s' 0 = Some Running \<and>
      d_count (defer_sched s') = 0 \<and> curr_pid s' = 1 \<and> csrs (hw s') = csrs m) \<or> (\<exists>msg. r = Panic msg))
    (pm_init ep self_ptr (ProcessManager_new m))"
proof -
  obtain p m1 where n: "Process_new 0 m = (p, m1)" by fastforce
  obtain stk m2 where a: "alloc (KERNEL_STACK_SIZE, 0x1000) m1 = (stk, m2)" by fastforce
  obtain ap m3 where ap: "ArchProcess_new 0 m2 = (ap, m3)" by fastforce
  obtain r m4 where i: "ArchProcess_init ep (self_ptr 0) (ep_user_trap_return ep) stk KERNEL_STACK_SIZE ap m3 =
      (r :: (ProcessError, ArchProcess) result, m4)" by fastforce
  have ne: "r \<noteq> Err e" for e using ArchProcess_init_no_Err i by (metis fst_conv)
  have c: "csrs m4 = csrs m"
    using csrs_Process_new [of 0 m] n csrs_alloc [of "(KERNEL_STACK_SIZE, 0x1000)" m1] a
      csrs_ArchProcess_new [of 0 m2] ap
      csrs_ArchProcess_init [of ep "self_ptr 0" "ep_user_trap_return ep" stk KERNEL_STACK_SIZE ap m3, where ?'a = ProcessError] i
    by simp
  have ch: "p_children p = []" using n by (auto simp: Process_new_def split: prod.splits)
  show ?thesis
  proof (cases r)
    case (Ok ap')
    then show ?thesis
      using n a ap i c ch
      by (simp add: pm_init_def create_process_def setup_process_def setup_kernel_process_def sat_simps
          ProcessManager_new_def defer_schedule_def pm_inv_def st_def pq.heap_def)
  qed (use n a ap i ne in \<open>simp_all add: pm_init_def create_process_def setup_process_def
      setup_kernel_process_def sat_simps ProcessManager_new_def\<close>)
qed

end
