(* ===== verification/Process_System.thy ===== *)
theory Process_System
  imports Process_Life
begin

text \<open>
  The process manager as a system: any number of processes, each calling any sequence of the
  manager's operations, suspended in the middle of a call by a context switch and resumed later.
  The invariant holds in every reachable state.
\<close>

section \<open>Calls\<close>

datatype KCall =
    K_schedule | K_ready usize | K_create_semaphore isize | K_wait usize | K_signal usize | K_delete usize
  | K_sleep usize usize | K_wakeup | K_event_wait usize ProcessEvent | K_event_signal ProcessEvent
  | K_io_wait usize | K_io_signal usize | K_kill usize | K_create string usize bool | K_wait_exit

definition ignore :: "('s, 'e, 'a) kop \<Rightarrow> ('s, 'e, unit) kop" where
  "ignore m = seq m (ret ())"

fun run_call :: "entry_points \<Rightarrow> (usize \<Rightarrow> usize) \<Rightarrow> KCall \<Rightarrow> unit pop" where
  "run_call ep sp K_schedule = schedule"
| "run_call ep sp (K_ready pid) = ready pid"
| "run_call ep sp (K_create_semaphore cnt) = ignore (create_semaphore cnt)"
| "run_call ep sp (K_wait sid) = wait_semaphore sid"
| "run_call ep sp (K_signal sid) = signal_semaphore sid"
| "run_call ep sp (K_delete sid) = delete_semaphore sid"
| "run_call ep sp (K_sleep pid delay) = sleep pid delay"
| "run_call ep sp K_wakeup = wakeup"
| "run_call ep sp (K_event_wait pid ev) = event_wait pid ev"
| "run_call ep sp (K_event_signal ev) = event_signal ev"
| "run_call ep sp (K_io_wait pid) = io_wait pid"
| "run_call ep sp (K_io_signal pid) = io_signal pid"
| "run_call ep sp (K_kill pid) = kill pid"
| "run_call ep sp (K_create name priority do_setup) = ignore (create_process ep sp name priority do_setup)"
| "run_call ep sp K_wait_exit = wait_exit"

text \<open>The counters do not overflow: semaphores start at a count that is not negative, and neither a count
  nor the next process number is at the end of its range.\<close>

fun in_range :: "KCall \<Rightarrow> ProcessManager \<Rightarrow> bool" where
  "in_range (K_create_semaphore cnt) s = (0 \<le> sint cnt)"
| "in_range (K_wait sid) s = (case stable s sid of None \<Rightarrow> True | Some x \<Rightarrow> sint (s_count x) \<noteq> - (2 ^ 63))"
| "in_range (K_signal sid) s = (case stable s sid of None \<Rightarrow> True | Some x \<Rightarrow> sint (s_count x) \<noteq> 2 ^ 63 - 1)"
| "in_range (K_create name priority do_setup) s = (curr_pid s + 1 \<noteq> 0)"
| "in_range c s = True"

text \<open>What a call leaves behind: the invariant and no open deferral, unless it panicked.\<close>

definition settled :: "('e, 'a) result \<Rightarrow> ProcessManager \<Rightarrow> bool" where
  "settled r s \<longleftrightarrow> (\<exists>m. r = Panic m) \<or> (pm_inv s \<and> d_count (defer_sched s) = 0)"

lemma settled_simps [simp]:
  "settled (Panic m) s" "settled (Ok a) s \<longleftrightarrow> pm_inv s \<and> d_count (defer_sched s) = 0"
  "settled (Err e) s \<longleftrightarrow> pm_inv s \<and> d_count (defer_sched s) = 0"
  by (auto simp: settled_def)

lemma settledI:
  assumes "psat False (\<lambda>r s'. r = Ok v \<and> keeps False s s') p" "d_count (defer_sched s) = 0"
  shows "psat False settled p"
  by (rule sat_post [OF assms(1)]) (use assms(2) in \<open>auto simp: keeps_def\<close>)

lemma settled_panicI:
  assumes "psat False (keeps_or_panic False s v) p" "d_count (defer_sched s) = 0"
  shows "psat False settled p"
  by (rule sat_post [OF assms(1)]) (use assms(2) in \<open>auto simp: keeps_or_panic_def keeps_def\<close>)

lemma inv_fewer_children:
  assumes inv: "pm_inv s" and p: "ptable s pid = Some p" and sub: "set cs \<subseteq> set (p_children p)"
  shows "pm_inv (s\<lparr>ptable := (ptable s)(pid \<mapsto> p\<lparr>p_children := cs\<rparr>)\<rparr>)"
proof -
  have dom: "insert pid (dom (ptable s)) = dom (ptable s)" using p by auto
  have "set cs \<subseteq> dom (ptable s)" using sub pm_invD(10) [OF inv p] by blast
  then show ?thesis
    using inv p unfolding pm_inv_def
    by (simp add: st_upd dom del: domIff) (auto simp: st_def)
qed

lemma wait_exit_settled:
  assumes inv: "pm_inv s" and d: "d_count (defer_sched s) = 0"
  shows "psat False settled (wait_exit s)"
proof -
  obtain p where p: "ptable s (running s) = Some p" using pm_invD(1) [OF inv] by auto
  have ch: "ptable s c \<noteq> None" if "c \<in> set (p_children p)" for c
    using pm_invD(10) [OF inv p that] by auto
  show ?thesis
  proof (cases "\<exists>c \<in> set (p_children p). st s c = Some Free")
    case False
    have "psat False (\<lambda>r s'. r = Ok () \<and> keeps False s s') (wait_exit s)"
      by (rule wait_exit_keeps [OF inv _ p]) (use d False in auto)
    then show ?thesis by (rule settledI) (rule d)
  next
    case True
    then obtain c where c: "reap_child (running s) (p_children p) (off s) =
        Done (Ok True) (off s\<lparr>ptable := (ptable s)(running s \<mapsto> p\<lparr>p_children := remove_at c (p_children p)\<rparr>)\<rparr>)"
      using reap_some [of "p_children p" "off s" "running s" p] ch p by auto
    have "pm_inv (s\<lparr>ptable := (ptable s)(running s \<mapsto> p\<lparr>p_children := remove_at c (p_children p)\<rparr>)\<rparr>)"
      by (rule inv_fewer_children [OF inv p]) (auto simp: remove_at_def dest: in_set_takeD in_set_dropD)
    then show ?thesis using c p d by (simp add: wait_exit_def sat_simps)
  qed
qed

text \<open>The semaphore or process that a call names exists. A call that names an unknown one returns an error; every other
  call keeps the invariant, or panics.\<close>

fun known :: "KCall \<Rightarrow> ProcessManager \<Rightarrow> bool" where
  "known (K_wait sid) s = (stable s sid \<noteq> None)"
| "known (K_signal sid) s = (stable s sid \<noteq> None)"
| "known (K_delete sid) s = (stable s sid \<noteq> None)"
| "known (K_ready pid) s = (ptable s pid \<noteq> None)"
| "known (K_sleep pid delay) s = (ptable s pid \<noteq> None)"
| "known (K_event_wait pid ev) s = (ptable s pid \<noteq> None)"
| "known (K_io_wait pid) s = (ptable s pid \<noteq> None)"
| "known (K_io_signal pid) s = (ptable s pid \<noteq> None)"
| "known (K_kill pid) s = (ptable s pid \<noteq> None)"
| "known c s = True"

lemma call_unknown:
  assumes "\<not> known c s"
  shows "\<exists>e. run_call ep sp c s = Done (Err e) s \<or> run_call ep sp c s = Done (Err e) (off s)"
  using assms by (cases c) (auto simp: semaphore_missing process_missing)

lemma ignore_keeps:
  assumes "psat irq (keeps_or_panic irq s v) (m s)"
  shows "psat irq (keeps_or_panic irq s ()) (ignore m s)"
  unfolding ignore_def sat_seq
proof (rule sat_post [OF assms])
  fix r t assume "keeps_or_panic irq s v r t"
  then show "post_bind (rely irq) guar (keeps_or_panic irq s ()) (\<lambda>_. ret ()) r t" by (cases r) (auto simp: sat_simps)
qed

lemma call_keeps:
  assumes inv: "pm_inv s" and d: "d_count (defer_sched s) = 0" and c: "in_range c s" "known c s"
    and w: "c = K_wait_exit \<longrightarrow> (\<forall>p. ptable s (running s) = Some p \<longrightarrow> (\<forall>x \<in> set (p_children p). st s x \<noteq> Some Free))"
  shows "psat irq (keeps_or_panic irq s ()) (run_call ep sp c s)"
proof -
  have d1: "d_count (defer_sched s) + 1 \<noteq> 0" using d by simp
  obtain p where p: "ptable s (running s) = Some p" using pm_invD(1) [OF inv] by auto
  note calls = schedule_keeps [OF inv] ready_keeps [OF inv] wait_semaphore_keeps [OF inv] signal_semaphore_keeps [OF inv]
    delete_semaphore_keeps [OF inv _ d1] sleep_keeps [OF inv] wakeup_keeps [OF inv d1] event_wait_keeps [OF inv]
    event_signal_keeps [OF inv d1] io_wait_keeps [OF inv] io_signal_keeps [OF inv]
  show ?thesis
  proof (cases c)
    case (K_create_semaphore cnt)
    then show ?thesis using c by (auto intro: ignore_keeps [where s = s and v = "curr_sid s"] keeps_or_panicI [OF create_semaphore_keeps [OF inv]])
  next
    case (K_create name priority do_setup)
    then show ?thesis using c by (auto intro: ignore_keeps [where s = s and v = "curr_pid s"] create_process_keeps [OF inv _ d1])
  next
    case (K_kill pid)
    then show ?thesis using c kill_keeps [OF inv _ d1] by auto
  next
    case K_wait_exit
    then show ?thesis using w p wait_exit_keeps [OF inv d1 p] by (auto intro: keeps_or_panicI)
  qed (use c in \<open>auto intro!: keeps_or_panicI intro: calls\<close>)
qed


lemma call_settled:
  assumes inv: "pm_inv s" and d: "d_count (defer_sched s) = 0" and c: "in_range c s"
  shows "psat False settled (run_call ep sp c s)"
proof -
  consider "c = K_wait_exit" | "c \<noteq> K_wait_exit" "known c s" | "\<not> known c s" by blast
  then show ?thesis
  proof cases
    case 1
    then show ?thesis using wait_exit_settled [OF inv d] by simp
  next
    case 2
    then show ?thesis by (intro settled_panicI [OF call_keeps [OF inv d c]] d) simp_all
  next
    case 3
    from call_unknown [OF 3, of ep sp] show ?thesis using inv d by auto
  qed
qed

section \<open>The system\<close>

type_synonym kprog = "(ProcessManager, ProcessError, unit) prog"
type_synonym conts = "usize \<Rightarrow> (ProcessManager \<Rightarrow> kprog) option"

text \<open>Between calls (\<open>Idle\<close>), in a call of the running process (\<open>Busy\<close>), or stopped by a panic; the map
  holds what is left of the calls of the processes that were switched away from.\<close>

datatype config = Idle ProcessManager conts | Busy kprog conts | Halted string

inductive sys_step :: "entry_points \<Rightarrow> (usize \<Rightarrow> usize) \<Rightarrow> config \<Rightarrow> config \<Rightarrow> bool" for ep sp where
  call: "in_range c s \<Longrightarrow> sys_step ep sp (Idle s k) (Busy (run_call ep sp c s) k)"
| user: "sys_step ep sp (Idle s k) (Idle (s\<lparr>hw := m\<rparr>) k)"
| ok: "sys_step ep sp (Busy (Done (Ok ()) s) k) (Idle s k)"
| error: "sys_step ep sp (Busy (Done (Err e) s) k) (Idle s k)"
| panic: "sys_step ep sp (Busy (Done (Panic m) s) k) (Halted m)"
| resume: "(k(p \<mapsto> c)) (running s) = Some c' \<Longrightarrow>
    sys_step ep sp (Busy (Switch p s c) k) (Busy (c' s) ((k(p \<mapsto> c))(running s := None)))"
| start: "(k(p \<mapsto> c)) (running s) = None \<Longrightarrow>
    sys_step ep sp (Busy (Switch p s c) k) (Idle s (k(p \<mapsto> c)))"

inductive_cases sys_step_IdleE: "sys_step ep sp (Idle s k) x"
inductive_cases sys_step_BusyE: "sys_step ep sp (Busy p k) x"
inductive_cases sys_step_HaltedE: "sys_step ep sp (Halted m) x"

inductive sys_reach :: "entry_points \<Rightarrow> (usize \<Rightarrow> usize) \<Rightarrow> config \<Rightarrow> config \<Rightarrow> bool" for ep sp where
  refl: "sys_reach ep sp x x"
| step: "sys_reach ep sp x y \<Longrightarrow> sys_step ep sp y z \<Longrightarrow> sys_reach ep sp x z"

definition conts_ok :: "conts \<Rightarrow> bool" where
  "conts_ok k \<longleftrightarrow> (\<forall>p c s. k p = Some c \<longrightarrow> pm_inv s \<longrightarrow> running s = p \<longrightarrow> d_count (defer_sched s) = 0 \<longrightarrow>
     psat False settled (c s))"

fun sys_inv :: "config \<Rightarrow> bool" where
  "sys_inv (Idle s k) = (pm_inv s \<and> d_count (defer_sched s) = 0 \<and> conts_ok k)"
| "sys_inv (Busy p k) = (psat False settled p \<and> conts_ok k)"
| "sys_inv (Halted m) = True"

lemma sys_step_inv:
  assumes "sys_step ep sp x y" "sys_inv x"
  shows "sys_inv y"
  using assms
proof (induction rule: sys_step.induct)
  case (call c s k)
  then show ?case using call_settled by auto
next
  case (resume k p c s c')
  then have k: "conts_ok (k(p \<mapsto> c))" and s: "pm_inv s" "d_count (defer_sched s) = 0"
    by (auto simp: conts_ok_def guar_def rely_def)
  then have "psat False settled (c' s)" using resume.hyps by (simp add: conts_ok_def)
  moreover have "conts_ok ((k(p \<mapsto> c))(running s := None))" using k unfolding conts_ok_def by (auto split: if_splits)
  ultimately show ?case by simp
next
  case (start k p c s)
  then show ?case by (auto simp: conts_ok_def guar_def rely_def)
qed auto

lemma sys_reach_inv: "sys_reach ep sp x y \<Longrightarrow> sys_inv x \<Longrightarrow> sys_inv y"
  by (induction rule: sys_reach.induct) (auto intro: sys_step_inv)

end
