(* ===== verification/Process_Props.thy ===== *)
theory Process_Props
  imports Process_System
begin

text \<open>
  The properties of the process manager: the reachable states, the choice of the scheduler,
  semaphores, and the interrupt state.
\<close>

section \<open>The scheduler, case by case\<close>

definition dispatch :: "usize \<Rightarrow> usize \<Rightarrow> ProcessManager \<Rightarrow> kprog" where
  "dispatch msk new s =
     Switch (running s)
       (context_switch (running s) new
          (s\<lparr>ptable := (ptable s)(new := map_option (\<lambda>p. p\<lparr>p_state := Running\<rparr>) (ptable s new)), running := new\<rparr>))
       (\<lambda>s'. Done (Ok ()) (restored msk s'))"

lemma switch_to_eq:
  "ptable s new = Some p \<Longrightarrow> switch_to msk (running s) new s = dispatch msk new s"
  by (simp add: switch_to_def kop_defs set_state_def upd_process_def irq_restore_eq dispatch_def)

lemma schedule_none:
  assumes "d_count (defer_sched s) = 0" "pop_ready (ptable s) (pqueue s) = (Ok None, q)"
  shows "schedule s = Done (Ok ()) (s\<lparr>pqueue := q\<rparr>)"
  using assms restored_off [of "s\<lparr>pqueue := q\<rparr>"]
  by (simp add: schedule_def kop_defs irq_disable_eq irq_restore_eq pop_ready_proc_def del: restored_off)

lemma schedule_some:
  assumes "d_count (defer_sched s) = 0" "pop_ready (ptable s) (pqueue s) = (Ok (Some d), q)"
    and old: "ptable s (running s) = Some old" and new: "ptable s (pd_pid d) = Some new"
    and ne: "p_state old = Running \<longrightarrow> running s \<noteq> pd_pid d"
  shows "schedule s =
    (if p_state old \<noteq> Running then dispatch (imask s) (pd_pid d) (off (s\<lparr>pqueue := q\<rparr>))
     else if p_priority old \<le> p_priority new then
       dispatch (imask s) (pd_pid d)
         (off (s\<lparr>ptable := (ptable s)(running s \<mapsto> old\<lparr>p_state := Ready\<rparr>),
                 pqueue := heap_push desc_le (ProcessDesc (p_priority old) (running s)) q\<rparr>))
     else Done (Ok ()) (s\<lparr>pqueue := heap_push desc_le (ProcessDesc (p_priority new) (pd_pid d)) q\<rparr>))"
proof -
  let ?s = "off (s\<lparr>pqueue := q\<rparr>)"
  let ?s2 = "off (s\<lparr>ptable := (ptable s)(running s \<mapsto> old\<lparr>p_state := Ready\<rparr>),
                 pqueue := heap_push desc_le (ProcessDesc (p_priority old) (running s)) q\<rparr>)"
  let ?s3 = "s\<lparr>pqueue := heap_push desc_le (ProcessDesc (p_priority new) (pd_pid d)) q\<rparr>"
  have sw: "switch_to (imask s) (running s) (pd_pid d) ?s = dispatch (imask s) (pd_pid d) ?s"
    using switch_to_eq [of ?s "pd_pid d" new "imask s"] new by simp
  have sw2: "switch_to (imask s) (running s) (pd_pid d) ?s2 = dispatch (imask s) (pd_pid d) ?s2"
    if "p_state old = Running"
    using switch_to_eq [of ?s2 "pd_pid d" new "imask s"] new ne that by simp
  have r3: "restored (imask s) (off ?s3) = ?s3" using restored_off [of ?s3] by simp
  have red: "schedule s =
    (if p_priority old \<le> p_priority new then
       (if p_state old = Running then switch_to (imask s) (running s) (pd_pid d) ?s2
        else switch_to (imask s) (running s) (pd_pid d) ?s)
     else if p_state old = Running then Done (Ok ()) (restored (imask s) (off ?s3))
     else switch_to (imask s) (running s) (pd_pid d) ?s)"
    using assms(1,2) old new
    by (simp add: schedule_def bind_def seq_def ret_def gets_def lift_def modify_def irq_disable_eq irq_restore_eq
        pop_ready_proc_def get_process_def Let_def set_state_def upd_process_def push_ready_def)
  show ?thesis unfolding red sw r3 using sw2 by simp
qed

section \<open>A small system to evaluate on\<close>

definition proc0 :: "usize \<Rightarrow> usize \<Rightarrow> State \<Rightarrow> Process" where
  "proc0 pid priority state =
     \<lparr>p_state = state, arch_proc = fst (ArchProcess_new pid machine0), p_pid = pid, p_priority = priority,
      p_children = [], p_name = ''p'', p_kernel_stack = 0x81000000, p_user_stack = 0\<rparr>"

text \<open>Process 1 runs, process 0 is ready, process 2 waits for semaphore 1.\<close>

definition pm0 :: ProcessManager where
  "pm0 = (ProcessManager_new machine0)\<lparr>
     ptable := [0 \<mapsto> proc0 0 0 Ready, 1 \<mapsto> proc0 1 5 Running, 2 \<mapsto> proc0 2 7 SemaWait],
     pqueue := [ProcessDesc 0 0], curr_pid := 3, curr_sid := 2, running := 1,
     stable := [0 \<mapsto> Semaphore_new 0, 1 \<mapsto> (Semaphore_new (- 1))\<lparr>s_queue := [2]\<rparr>]\<rparr>"

definition ep0 :: entry_points where
  "ep0 = \<lparr>ep_trampoline = 0x80001000, ep_uservec = 0x80001000, ep_userret = 0x80001100, ep_killme = 0x80003000,
     ep_kernelvec = 0x80004000, ep_user_trap = 0x80004100, ep_user_trap_return = 0x80004200\<rparr>"

lemma proc0_fields [simp]:
  "(proc0 a b c)\<lparr>p_state := d\<rparr> = proc0 a b d" "p_state (proc0 a b c) = c" "p_priority (proc0 a b c) = b" "p_children (proc0 a b c) = []"
  by (simp_all add: proc0_def)

lemma pm0_fields [simp]:
  "ptable pm0 = [0 \<mapsto> proc0 0 0 Ready, 1 \<mapsto> proc0 1 5 Running, 2 \<mapsto> proc0 2 7 SemaWait]"
  "stable pm0 = [0 \<mapsto> Semaphore_new 0, 1 \<mapsto> (Semaphore_new (- 1))\<lparr>s_queue := [2]\<rparr>]"
  "pqueue pm0 = [ProcessDesc 0 0]" "sleep_queue pm0 = []" "event_queue pm0 = (\<lambda>_. None)"
  "defer_sched pm0 = \<lparr>d_count = 0, d_attempt = False\<rparr>" "curr_pid pm0 = 3" "running pm0 = 1" "hw pm0 = machine0"
  by (simp_all add: pm0_def ProcessManager_new_def)

lemma pm0_inv: "pm_inv pm0"
  by (auto simp: pm_inv_def pq.heap_def sema_ok_def Semaphore_new_def st_def split: if_splits)

section \<open>Reachable states\<close>


lemma pop_ready_one:
  "pt (pd_pid d) = Some p \<Longrightarrow> p_state p = Ready \<Longrightarrow> pop_ready pt [d] = (Ok (Some d), [])"
  by (subst pop_ready.simps) (simp add: heap_pop_def)

lemma pm0_wait: "\<exists>s c. wait_semaphore 0 pm0 = Switch 1 s c \<and> running s = 0"
proof -
  let ?x = "(Semaphore_new (- 1))\<lparr>s_queue := [1]\<rparr>"
  let ?s = "off (pm0\<lparr>ptable := (ptable pm0)(1 \<mapsto> proc0 1 5 SemaWait), stable := (stable pm0)(0 \<mapsto> ?x)\<rparr>)"
  have "schedule ?s = dispatch (imask ?s) 0 (off (?s\<lparr>pqueue := []\<rparr>))"
    by (subst schedule_some [where d = "ProcessDesc 0 0" and q = "[]" and old = "proc0 1 5 SemaWait" and new = "proc0 0 0 Ready"])
      (simp_all add: pop_ready_one)
  moreover have "wait_semaphore 0 pm0 = bind_prog (schedule ?s) (\<lambda>_. irq_restore (imask pm0))"
    by (simp add: wait_semaphore_def bind_def seq_def gets_def irq_disable_eq upd_semaphore_def get_semaphore_def
        set_state_def upd_process_def Semaphore_new_def word_sless_alt)
  ultimately show ?thesis by (simp add: dispatch_def)
qed



section \<open>The choice of the scheduler\<close>

definition prio :: "ProcessManager \<Rightarrow> usize \<Rightarrow> usize" where
  "prio s p = (case ptable s p of None \<Rightarrow> 0 | Some q \<Rightarrow> p_priority q)"

text \<open>C4: when scheduling is not deferred, \<open>schedule\<close> gives the processor to a ready process of the
  highest priority: it switches away unless no process is ready or the running process may go on and
  has a higher priority than every ready one; a preempted process becomes ready again.\<close>

theorem schedule_highest_priority:
  assumes inv: "pm_inv s" and d: "d_count (defer_sched s) = 0"
  shows "case schedule s of
      Done r s' \<Rightarrow> r = Ok () \<and> running s' = running s \<and> st s' = st s \<and>
        ((\<forall>x. st s x \<noteq> Some Ready) \<or>
         (st s (running s) = Some Running \<and>
          (\<forall>x. st s x = Some Ready \<longrightarrow> prio s x < prio s (running s))))
    | Switch p s' k \<Rightarrow> p = running s \<and> st s (running s') = Some Ready \<and> st s' (running s') = Some Running \<and>
        (\<forall>x. st s x = Some Ready \<longrightarrow> prio s x \<le> prio s (running s')) \<and>
        (st s p = Some Running \<longrightarrow> prio s p \<le> prio s (running s') \<and> st s' p = Some Ready)"
  using inv
proof (cases rule: ready_cases)
  case none
  then show ?thesis using schedule_none [OF d none(1)] by simp
next
  case (some d' q p)
  obtain old where old: "ptable s (running s) = Some old" using pm_invD(1) [OF inv] by auto
  have ne: "p_state old = Running \<longrightarrow> running s \<noteq> pd_pid d'" using some(5,6) old by auto
  have top: "prio s x \<le> p_priority p" if "st s x = Some Ready" for x
    using some(9) [of x] that by (auto simp: prio_def st_def)
  have new: "prio s (pd_pid d') = p_priority p" "prio s (running s) = p_priority old"
    using some(5) old by (simp_all add: prio_def)
  have st: "st s (pd_pid d') = Some Ready" "st s (running s) = Some (p_state old)"
    using some(5,6) old by (simp_all add: st_def)
  show ?thesis
    unfolding schedule_some [OF d some(1) old some(5) ne]
    using top new st ne some(5) old
    by (auto simp: dispatch_def not_le) (auto simp: st_def intro: order_le_less_trans)
qed

lemma st_pm0: "st pm0 x = (if x = 0 then Some Ready else if x = 1 then Some Running
    else if x = 2 then Some SemaWait else None)"
  by (simp add: st_def)

lemma st_pm0_Ready: "st pm0 x = Some Ready \<longleftrightarrow> x = 0"
  by (simp add: st_pm0)

theorem schedule_highest_priority_witness: "\<exists>s'. schedule pm0 = Done (Ok ()) s' \<and> running s' = 1"
  using schedule_highest_priority [OF pm0_inv]
  by (cases "schedule pm0") (auto simp: st_pm0 prio_def split: if_splits)

section \<open>Semaphores\<close>

text \<open>The state in which a call gives up the processor for the first time, or returns.\<close>

fun first_state :: "('s, 'e, 'a) prog \<Rightarrow> 's" where
  "first_state (Done r s) = s"
| "first_state (Switch p s k) = s"

lemma first_state_restore [simp]:
  "st (first_state (bind_prog p (\<lambda>_. irq_restore msk))) = st (first_state p)"
  "stable (first_state (bind_prog p (\<lambda>_. irq_restore msk))) = stable (first_state p)"
  by (cases p; simp add: irq_restore_eq split: result.split)+

lemma schedule_first:
  assumes inv: "pm_inv s"
  shows "stable (first_state (schedule s)) = stable s"
    "st s x \<noteq> Some Ready \<Longrightarrow> st s x \<noteq> Some Running \<Longrightarrow> st (first_state (schedule s)) x = st s x"
    "st s x = Some Ready \<Longrightarrow> st (first_state (schedule s)) x \<in> {Some Ready, Some Running}"
proof -
  have all: "stable (first_state (schedule s)) = stable s \<and>
    (st s x \<noteq> Some Ready \<longrightarrow> st s x \<noteq> Some Running \<longrightarrow> st (first_state (schedule s)) x = st s x) \<and>
    (st s x = Some Ready \<longrightarrow> st (first_state (schedule s)) x \<in> {Some Ready, Some Running})"
  proof (cases "d_count (defer_sched s) = 0")
    case False
    then show ?thesis by (simp add: schedule_deferred word_gt_0)
  next
    case d: True
    from inv show ?thesis
    proof (cases rule: ready_cases)
      case none
      then show ?thesis using schedule_none [OF d none(1)] by simp
    next
      case (some d' q p)
      obtain old where old: "ptable s (running s) = Some old" using pm_invD(1) [OF inv] by auto
      have ne: "p_state old = Running \<longrightarrow> running s \<noteq> pd_pid d'" using some(5,6) old by auto
      show ?thesis
        unfolding schedule_some [OF d some(1) old some(5) ne]
        using some(5,6) old ne by (auto simp: dispatch_def) (auto simp: st_def)
    qed
  qed
  show "stable (first_state (schedule s)) = stable s" using all by simp
  show "st s x \<noteq> Some Ready \<Longrightarrow> st s x \<noteq> Some Running \<Longrightarrow> st (first_state (schedule s)) x = st s x"
    using all by simp
  show "st s x = Some Ready \<Longrightarrow> st (first_state (schedule s)) x \<in> {Some Ready, Some Running}"
    using all by simp
qed

lemma schedule_blocked:
  assumes inv: "pm_inv s" and d: "d_count (defer_sched s) = 0" and b: "st s (running s) \<noteq> Some Running"
    and q: "st s q = Some Ready"
  shows "\<exists>s' k. schedule s = Switch (running s) s' k"
  using inv
proof (cases rule: ready_cases)
  case (some d' q p)
  obtain old where old: "ptable s (running s) = Some old" using pm_invD(1) [OF inv] by auto
  then have nr: "p_state old \<noteq> Running" using b by (simp add: st_def)
  then have ne: "p_state old = Running \<longrightarrow> running s \<noteq> pd_pid d'" by simp
  show ?thesis unfolding schedule_some [OF d some(1) old some(5) ne] using nr by (simp add: dispatch_def)
qed (use q in auto)

text \<open>C15: \<open>wait_semaphore\<close> takes one unit of the count; if none was there, the caller is marked as waiting,
  put at the end of the semaphore's queue and gives the processor to another process as soon as one
  is ready; otherwise the call returns at once.\<close>

theorem wait_semaphore_blocks:
  assumes inv: "pm_inv s" and x: "stable s sid = Some x" "sint (s_count x) \<noteq> - (2 ^ 63)"
    and d: "d_count (defer_sched s) = 0"
  shows "if 0 < sint (s_count x)
    then wait_semaphore sid s = Done (Ok ()) (s\<lparr>stable := (stable s)(sid \<mapsto> x\<lparr>s_count := s_count x - 1\<rparr>)\<rparr>)
    else (let s' = first_state (wait_semaphore sid s)
          in st s' (running s) = Some SemaWait \<and>
             stable s' sid = Some (x\<lparr>s_count := s_count x - 1, s_queue := s_queue x @ [running s]\<rparr>) \<and>
             (\<forall>q. q \<noteq> running s \<and> st s q = Some Ready \<longrightarrow> (\<exists>k. wait_semaphore sid s = Switch (running s) s' k)))"
proof (cases "0 < sint (s_count x)")
  case True
  let ?s = "s\<lparr>stable := (stable s)(sid \<mapsto> x\<lparr>s_count := s_count x - 1\<rparr>)\<rparr>"
  have "\<not> s_count x - 1 <s 0" using True x(2) sint_minus_1 [of "s_count x"] by (simp add: word_sless_alt)
  moreover have "restored (imask s) (off ?s) = ?s" using restored_off [of ?s] by simp
  ultimately show ?thesis using True x(1)
    by (simp add: wait_semaphore_def bind_def seq_def gets_def ret_def irq_disable_eq irq_restore_eq upd_semaphore_def
        get_semaphore_def)
next
  case False
  obtain p where p: "ptable s (running s) = Some p" using pm_invD(1) [OF inv] by auto
  let ?y = "x\<lparr>s_count := s_count x - 1, s_queue := s_queue x @ [running s]\<rparr>"
  let ?s1 = "s\<lparr>ptable := (ptable s)(running s \<mapsto> p\<lparr>p_state := SemaWait\<rparr>)\<rparr>"
  let ?s = "off (?s1\<lparr>stable := (stable s)(sid \<mapsto> ?y)\<rparr>)"
  have neg: "s_count x - 1 <s 0" using False x(2) sint_minus_1 [of "s_count x"] by (simp add: word_sless_alt)
  have eq: "wait_semaphore sid s = bind_prog (schedule ?s) (\<lambda>_. irq_restore (imask s))"
    using neg p x(1)
    by (simp add: wait_semaphore_def bind_def seq_def gets_def irq_disable_eq upd_semaphore_def
        get_semaphore_def set_state_def upd_process_def)
  have c: "sint (s_count x - 1) = sint (s_count x) - 1" using x(2) by (rule sint_minus_1)
  have ok: "sema_ok x" "set (s_queue x) \<subseteq> dom (ptable s)" using pm_invD(4,5) [OF inv x(1)] by auto
  have "sema_ok ?y" using ok(1) c False by (simp add: sema_ok_def)
  moreover have "pm_inv ?s1" using inv_set_state [OF inv p] by simp
  ultimately have i: "pm_inv ?s" using inv_upd_sema [of ?s1 ?y sid] ok p by auto
  have sw: "\<exists>s' k. schedule ?s = Switch (running s) s' k" if q: "st s q = Some Ready" "q \<noteq> running s" for q
    using schedule_blocked [OF i, of q] q d by (simp add: st_upd)
  have f: "st (first_state (schedule ?s)) (running s) = Some SemaWait"
    using schedule_first(2) [OF i, of "running s"] by (simp add: st_upd)
  have g: "stable (first_state (schedule ?s)) sid = Some ?y" using schedule_first(1) [OF i] by simp
  have "\<exists>k. bind_prog (schedule ?s) (\<lambda>_. irq_restore (imask s)) =
      Switch (running s) (first_state (bind_prog (schedule ?s) (\<lambda>_. irq_restore (imask s)))) k"
    if "st s q = Some Ready" "q \<noteq> running s" for q
    using sw [OF that] by auto
  then show ?thesis using False f g unfolding eq Let_def first_state_restore by auto
qed

theorem wait_semaphore_blocks_witness:
  "\<exists>s' k. wait_semaphore 0 pm0 = Switch 1 s' k \<and> st s' 1 = Some SemaWait"
  using wait_semaphore_blocks [OF pm0_inv, of 0 "Semaphore_new 0"]
  by (auto simp: Let_def Semaphore_new_def st_pm0_Ready)

text \<open>C16: \<open>signal_semaphore\<close> on a semaphore with waiters takes the process that has waited longest off the
  queue and makes it ready (it may get the processor at once); without waiters it adds one to the
  count and returns.\<close>

theorem signal_semaphore_wakes_first:
  assumes inv: "pm_inv s" and x: "stable s sid = Some x" "sint (s_count x) \<noteq> 2 ^ 63 - 1"
  shows "case s_queue x of
      [] \<Rightarrow> signal_semaphore sid s = Done (Ok ()) (s\<lparr>stable := (stable s)(sid \<mapsto> x\<lparr>s_count := s_count x + 1\<rparr>)\<rparr>)
    | pid # rest \<Rightarrow>
        (let s' = first_state (signal_semaphore sid s)
         in stable s' sid = Some (x\<lparr>s_queue := rest, s_count := s_count x + 1\<rparr>) \<and>
            (st s pid = Some SemaWait \<longrightarrow> st s' pid \<in> {Some Ready, Some Running}))"
proof -
  have c: "sint (s_count x + 1) = sint (s_count x) + 1" using x(2) by (rule sint_plus_1)
  have ok: "sema_ok x" "set (s_queue x) \<subseteq> dom (ptable s)" using pm_invD(4,5) [OF inv x(1)] by auto
  show ?thesis
  proof (cases "s_queue x")
    case Nil
    let ?s = "s\<lparr>stable := (stable s)(sid \<mapsto> x\<lparr>s_count := s_count x + 1\<rparr>)\<rparr>"
    have "\<not> s_count x <s 0" using ok Nil by (auto simp: sema_ok_def word_sless_alt)
    moreover have "restored (imask s) (off ?s) = ?s" using restored_off [of ?s] by simp
    ultimately show ?thesis using Nil x(1)
      by (simp add: signal_semaphore_def bind_def seq_def irq_disable_eq irq_restore_eq upd_semaphore_def get_semaphore_def)
  next
    case (Cons pid rest)
    let ?y = "x\<lparr>s_queue := rest, s_count := s_count x + 1\<rparr>"
    let ?s = "off (s\<lparr>stable := (stable s)(sid \<mapsto> ?y)\<rparr>)"
    obtain p where p: "ptable s pid = Some p" using ok(2) Cons by auto
    have neg: "s_count x <s 0" using ok Cons by (auto simp: sema_ok_def word_sless_alt)
    then have "sema_ok ?y" using ok c Cons by (simp add: sema_ok_def word_sless_alt)
    then have i: "pm_inv ?s" using inv_upd_sema [OF inv, of ?y sid] ok Cons by auto
    have eq: "signal_semaphore sid s = bind_prog (ready pid ?s) (\<lambda>_. irq_restore (imask s))"
      using neg x(1) Cons p
      by (simp add: signal_semaphore_def pop_waiter_def bind_def seq_def ret_def irq_disable_eq upd_semaphore_def
          get_semaphore_def)
    have i2: "pm_inv (?s\<lparr>ptable := (ptable ?s)(pid \<mapsto> p\<lparr>p_state := Ready\<rparr>),
        pqueue := heap_push desc_le (ProcessDesc (p_priority p) pid) (pqueue ?s)\<rparr>)" (is "pm_inv ?t")
      by (rule inv_make_ready [OF i]) (use p in simp)
    have rd: "ready pid ?s = (if p_state p = Free \<or> p_state p = Running \<or> p_state p = Ready
        then Done (Ok ()) ?s else schedule ?t)"
      using p by (simp add: ready_def bind_def seq_def ret_def get_process_def set_state_def upd_process_def
          push_ready_def modify_def)
    have "st ?t pid = Some Ready" by (simp add: st_def)
    then show ?thesis
      using Cons p schedule_first(1) [OF i2] schedule_first(3) [OF i2, of pid]
      unfolding eq rd Let_def by (auto simp: st_def)
  qed
qed

theorem signal_semaphore_wakes_first_witness:
  "let s' = first_state (signal_semaphore 1 pm0) in st s' 2 \<in> {Some Ready, Some Running}"
  using signal_semaphore_wakes_first [OF pm0_inv, of 1 "(Semaphore_new (- 1))\<lparr>s_queue := [2]\<rparr>"]
  by (simp add: Let_def Semaphore_new_def st_pm0)

lemma mark_ready_st:
  "st (mark_ready pid s) x = (if x = pid \<and> st s x \<notin> {None, Some Free, Some Running, Some Ready} then Some Ready else st s x)"
  by (auto simp: mark_ready_def st_def split: option.splits)

lemma wake_waiters_all:
  assumes "pm_inv s" "d_count (defer_sched s) > 0" "stable s sid = Some x" "length (s_queue x) < n"
  shows "\<exists>s' x'. wake_waiters n sid s = Done (Ok ()) s' \<and> stable s' sid = Some x' \<and> s_queue x' = [] \<and>
    0 \<le> sint (s_count x') \<and> (\<forall>p. st s' p = (if p \<in> set (s_queue x) \<and> st s p \<notin> {None, Some Free, Some Running, Some Ready}
       then Some Ready else st s p))"
  using assms
proof (induction n arbitrary: s x)
  case (Suc n)
  have ok: "sema_ok x" "set (s_queue x) \<subseteq> dom (ptable s)"
    using pm_invD(4,5) [OF Suc.prems(1,3)] by auto
  show ?case
  proof (cases "s_count x <s 0")
    case True
    then obtain pid rest where q: "s_queue x = pid # rest"
      using ok(1) by (cases "s_queue x") (auto simp: sema_ok_def word_sless_alt)
    obtain p where p: "ptable s pid = Some p" using ok(2) q by auto
    have c: "sint (s_count x + 1) = sint (s_count x) + 1"
      using True by (intro sint_plus_1) (auto simp: word_sless_alt)
    let ?y = "x\<lparr>s_queue := rest, s_count := s_count x + 1\<rparr>"
    let ?s = "mark_ready pid (s\<lparr>stable := (stable s)(sid \<mapsto> ?y)\<rparr>)"
    have "sema_ok ?y" using ok c True q by (simp add: sema_ok_def word_sless_alt)
    then have inv: "pm_inv ?s"
      using mark_ready_inv inv_upd_sema [OF Suc.prems(1), of ?y sid] ok q by auto
    have "\<exists>s' x'. wake_waiters n sid ?s = Done (Ok ()) s' \<and> stable s' sid = Some x' \<and> s_queue x' = [] \<and>
      0 \<le> sint (s_count x') \<and> (\<forall>p. st s' p = (if p \<in> set (s_queue ?y) \<and> st ?s p \<notin> {None, Some Free, Some Running, Some Ready}
       then Some Ready else st ?s p))"
      by (rule Suc.IH [OF inv]) (use Suc.prems(2,4) q in simp_all)
    moreover have "wake_waiters (Suc n) sid s = wake_waiters n sid ?s"
      using True q p Suc.prems(2,3)
      by (simp add: kop_defs get_semaphore_def pop_waiter_def upd_semaphore_def ready_deferred)
    ultimately show ?thesis using q by (auto simp: mark_ready_st)
  next
    case False
    then have "s_queue x = []" using ok by (auto simp: sema_ok_def word_sless_alt)
    then show ?thesis using False Suc.prems by (simp add: kop_defs get_semaphore_def word_sless_alt)
  qed
qed simp

text \<open>The loop of \<open>delete_semaphore\<close> ends within the \<open>Suc (length queue)\<close> iterations it is given, never
  finds the queue empty (\<open>unwrap\<close> does not panic), and leaves the semaphore without waiters, with a count
  that is not negative and every process that waited in it ready.\<close>

theorem delete_loop_wakes_all:
  assumes "pm_inv s" "d_count (defer_sched s) > 0" "stable s sid = Some x"
  shows "\<exists>s' x'. wake_waiters (Suc (length (s_queue x))) sid s = Done (Ok ()) s' \<and>
    stable s' sid = Some x' \<and> s_queue x' = [] \<and> 0 \<le> sint (s_count x') \<and>
    (\<forall>p \<in> set (s_queue x). st s p = Some SemaWait \<longrightarrow> st s' p = Some Ready)"
proof -
  obtain s' x' where w: "wake_waiters (Suc (length (s_queue x))) sid s = Done (Ok ()) s'"
    "stable s' sid = Some x'" "s_queue x' = []" "0 \<le> sint (s_count x')"
    "\<And>p. st s' p = (if p \<in> set (s_queue x) \<and> st s p \<notin> {None, Some Free, Some Running, Some Ready}
       then Some Ready else st s p)"
    using wake_waiters_all [OF assms, of "Suc (length (s_queue x))"] by auto
  have "st s' p = Some Ready" if "p \<in> set (s_queue x)" "st s p = Some SemaWait" for p
    using that by (simp add: w(5))
  with w(1-4) show ?thesis by blast
qed

theorem delete_loop_wakes_all_witness:
  "\<exists>s'. wake_waiters 2 1 (started pm0) = Done (Ok ()) s' \<and> st s' 2 = Some Ready"
  using delete_loop_wakes_all [of "started pm0" 1 "(Semaphore_new (- 1))\<lparr>s_queue := [2]\<rparr>"] pm0_inv st_pm0 [of 2]
  by (auto simp: started_def numeral_2_eq_2 simp del: wake_waiters.simps)

text \<open>A process that is killed while it waits for a semaphore stays in the semaphore's queue, and
  swallows a later signal: the call takes the dead process off the queue, counts it as woken and makes no
  process ready, although others wait behind it.\<close>

theorem signal_lost_on_killed_waiter:
  assumes "stable s sid = Some x" "s_count x <s 0" "s_queue x = pid # rest" "st s pid = Some Free"
  shows "signal_semaphore sid s =
    Done (Ok ()) (s\<lparr>stable := (stable s)(sid \<mapsto> x\<lparr>s_queue := rest, s_count := s_count x + 1\<rparr>)\<rparr>)"
proof -
  let ?s = "s\<lparr>stable := (stable s)(sid \<mapsto> x\<lparr>s_queue := rest, s_count := s_count x + 1\<rparr>)\<rparr>"
  obtain p where p: "ptable s pid = Some p" "p_state p = Free" using assms(4) by (auto simp: st_def)
  have "restored (imask s) (off ?s) = ?s" using restored_off [of ?s] by simp
  then show ?thesis using assms(1-3) p
    by (simp add: signal_semaphore_def pop_waiter_def ready_def bind_def seq_def ret_def irq_disable_eq irq_restore_eq
        upd_semaphore_def get_semaphore_def get_process_def)
qed

definition pm_killed :: ProcessManager where
  "pm_killed = pm0\<lparr>ptable := (ptable pm0)(2 \<mapsto> proc0 2 7 Free)\<rparr>"

theorem signal_lost_on_killed_waiter_witness:
  "\<exists>s'. signal_semaphore 1 pm_killed = Done (Ok ()) s' \<and> st s' = st pm_killed"
  using signal_lost_on_killed_waiter [of pm_killed 1 "(Semaphore_new (- 1))\<lparr>s_queue := [2]\<rparr>" 2 "[]"]
  by (simp add: pm_killed_def st_def Semaphore_new_def word_sless_alt)

section \<open>Interrupts\<close>



text \<open>C24: the error paths do not: a call with an unknown semaphore or process returns through \<open>?\<close> before
  \<open>interrupt_restore\<close>, so that it leaves interrupts off and everything else untouched.\<close>

theorem error_paths_leave_interrupts_off:
  assumes "c \<in> {K_wait i, K_signal i, K_delete i} \<and> stable s i = None \<or>
    c \<in> {K_sleep i n, K_event_wait i ev, K_io_wait i, K_io_signal i, K_kill i} \<and> ptable s i = None"
  shows "\<exists>e. run_call ep sp c s = Done (Err e) (off s) \<and> \<not> ie (off s)"
  using assms semaphore_missing [of s i] process_missing [of s i] by auto

theorem error_paths_leave_interrupts_off_witness:
  "\<exists>e. run_call ep0 (\<lambda>_. 0) (K_wait 7) pm0 = Done (Err e) (off pm0) \<and> \<not> ie (off pm0)"
  using error_paths_leave_interrupts_off [of "K_wait 7" 7 pm0] by simp

end
