(* ===== verification/Sleep_Queue.thy ===== *)
theory Sleep_Queue
  imports Process_Props
begin

text \<open>
  The sleep queue (\<open>sleep\<close> and \<open>wakeup\<close> of \<open>src/src/process.rs\<close>): delays relative to the entry before,
  against the specification of a list of absolute due times. \<open>sleep\<close> inserts in the order of due
  times and disturbs no other sleeper; repeated ticks wake every sleeper at its own tick.
\<close>

section \<open>Due times\<close>

text \<open>The entries with the number of ticks until each is due, as numbers without wrap-around.\<close>

fun due :: "nat \<Rightarrow> ProcessDelay list \<Rightarrow> (usize \<times> nat) list" where
  "due t [] = []"
| "due t (d # q) = (dl_pid d, t + unat (dl_delay d)) # due (t + unat (dl_delay d)) q"

abbreviation due_in :: "ProcessDelay list \<Rightarrow> (usize \<times> nat) list" where
  "due_in q \<equiv> due 0 q"

definition sleep_ok :: "ProcessDelay list \<Rightarrow> bool" where
  "sleep_ok q \<longleftrightarrow> (\<forall>x \<in> set (due_in q). snd x < 2 ^ 64)"

lemma due_ge: "x \<in> set (due t q) \<Longrightarrow> t \<le> snd x"
  by (induction q arbitrary: t) fastforce+

lemma due_sorted: "sorted (map snd (due t q))"
  by (induction q arbitrary: t) (auto dest: due_ge)

lemma due_shift: "due (t + k) q = map (\<lambda>(p, n). (p, n + k)) (due t q)"
proof (induction q arbitrary: t)
  case (Cons d q)
  have "due (t + k + unat (dl_delay d)) q = due (t + unat (dl_delay d) + k) q" by (simp add: ac_simps)
  then show ?case using Cons by simp
qed simp

lemma due_shift0: "due k q = map (\<lambda>(p, n). (p, n + k)) (due 0 q)"
  using due_shift [of 0 k q] by simp

lemma unat_plus_small: "unat (a::usize) + unat b < 2 ^ 64 \<Longrightarrow> unat (a + b) = unat a + unat b"
  by (rule unat_plus_simple [THEN iffD1]) (simp add: no_olen_add_nat)

lemma unat_minus_le: "b \<le> a \<Longrightarrow> unat (a - b) = unat a - unat (b::usize)"
  by (rule unat_sub)

lemma insert_due:
  assumes "\<forall>x \<in> set (due (unat t) q). snd x < 2 ^ 64" "t \<le> delay"
  shows "\<exists>xs ys. due (unat t) q = xs @ ys \<and>
    due (unat t) (sleep_insert pid delay t q) = xs @ (pid, unat delay) # ys \<and>
    (\<forall>x \<in> set xs. snd x \<le> unat delay) \<and> (\<forall>y \<in> set ys. unat delay < snd y)"
  using assms
proof (induction pid delay t q rule: sleep_insert.induct)
  case (1 pid delay t)
  then show ?case by (simp add: unat_minus_le word_le_nat_alt)
next
  case (2 pid delay t node q)
  have s: "unat (t + dl_delay node) = unat t + unat (dl_delay node)"
    using 2(2) by (intro unat_plus_small) simp
  have m: "unat (delay - t) = unat delay - unat t" using 2(3) by (rule unat_minus_le)
  show ?case
  proof (cases "delay < t + dl_delay node")
    case True
    then have lt: "unat delay < unat t + unat (dl_delay node)" by (simp add: word_less_nat_alt s)
    have le: "unat t \<le> unat delay" using 2(3) by (simp add: word_le_nat_alt)
    have "delay - t \<le> dl_delay node" unfolding word_le_nat_alt m using lt by simp
    then have d: "unat (dl_delay node - (delay - t)) = unat t + unat (dl_delay node) - unat delay"
      using le by (simp add: unat_minus_le m)
    have "due (unat t) (sleep_insert pid delay t (node # q)) = [] @ (pid, unat delay) # due (unat t) (node # q)"
      using True le lt by (simp add: Let_def m d)
    moreover have "\<forall>y \<in> set (due (unat t) (node # q)). unat delay < snd y"
      using lt due_ge [of _ "unat t + unat (dl_delay node)" q] by fastforce
    ultimately show ?thesis by (intro exI [of _ "[]"] exI [of _ "due (unat t) (node # q)"]) simp
  next
    case False
    then have le: "t + dl_delay node \<le> delay" by simp
    obtain xs ys where i: "due (unat t + unat (dl_delay node)) q = xs @ ys"
      "due (unat t + unat (dl_delay node)) (sleep_insert pid delay (t + dl_delay node) q) = xs @ (pid, unat delay) # ys"
      "\<forall>x \<in> set xs. snd x \<le> unat delay" "\<forall>y \<in> set ys. unat delay < snd y"
      using 2(1) [OF False] 2(2) le s by auto
    show ?thesis
      using False i le s
      by (intro exI [of _ "(dl_pid node, unat t + unat (dl_delay node)) # xs"] exI [of _ ys])
        (auto simp: word_le_nat_alt)
  qed
qed

text \<open>\<open>sleep\<close> puts the sleeper behind everyone due no later than it and before everyone due later,
  and leaves the due time of every other sleeper as it was, although only relative delays are stored
  and the entry after the new one is rewritten.\<close>

theorem sleep_insert_in_order:
  assumes "sleep_ok q"
  shows "\<exists>xs ys. due_in q = xs @ ys \<and> due_in (sleep_insert pid delay 0 q) = xs @ (pid, unat delay) # ys \<and>
    (\<forall>x \<in> set xs. snd x \<le> unat delay) \<and> (\<forall>y \<in> set ys. unat delay < snd y)"
  using insert_due [of 0 q delay pid] assms by (simp add: sleep_ok_def)

theorem sleep_insert_in_order_witness:
  "due_in [ProcessDelay 1 3, ProcessDelay 2 4] = [(1, 3), (2, 7)] \<and>
   due_in (sleep_insert 9 5 0 [ProcessDelay 1 3, ProcessDelay 2 4]) = [(1, 3), (9, 5), (2, 7)]"
  using sleep_insert_in_order [of "[ProcessDelay 1 3, ProcessDelay 2 4]" 9 5]
  by (simp add: sleep_ok_def)

lemma sleep_insert_ok: "sleep_ok q \<Longrightarrow> sleep_ok (sleep_insert pid delay 0 q)"
proof -
  assume ok: "sleep_ok q"
  obtain xs ys where "due_in q = xs @ ys" "due_in (sleep_insert pid delay 0 q) = xs @ (pid, unat delay) # ys"
    using insert_due [of 0 q delay pid] ok by (auto simp: sleep_ok_def)
  then show ?thesis using ok unsigned_less [of delay] by (auto simp: sleep_ok_def)
qed

section \<open>Ticks\<close>

text \<open>Entries due at once are taken off the front.\<close>

lemma take_due: "map dl_pid (takeWhile (\<lambda>p. dl_delay p = 0) q) = map fst (filter (\<lambda>x. snd x = 0) (due_in q))"
proof (induction q)
  case (Cons d q)
  show ?case
  proof (cases "dl_delay d = 0")
    case False
    then have "0 < unat (dl_delay d)" by (simp add: unat_gt_0)
    then have "filter (\<lambda>x. snd x = 0) (due (unat (dl_delay d)) q) = []"
      by (auto simp: filter_empty_conv dest: due_ge)
    then show ?thesis using False by (simp add: unat_eq_0)
  qed (use Cons in simp)
qed simp

lemma drop_due: "due_in (dropWhile (\<lambda>p. dl_delay p = 0) q) = filter (\<lambda>x. 0 < snd x) (due_in q)"
proof (induction q)
  case (Cons d q)
  show ?case
  proof (cases "dl_delay d = 0")
    case False
    then have "0 < unat (dl_delay d)" by (simp add: unat_gt_0)
    then have "filter (\<lambda>x. 0 < snd x) (due (unat (dl_delay d)) q) = due (unat (dl_delay d)) q"
      by (auto simp: filter_id_conv dest: due_ge)
    then show ?thesis using False by (simp add: unat_gt_0)
  qed (use Cons in simp)
qed simp

lemma tick_due:
  assumes "\<forall>x \<in> set (due_in q). 0 < snd x"
  shows "fst (sleep_tick q) = map fst (filter (\<lambda>x. snd x = 1) (due_in q))"
    "due_in (snd (sleep_tick q)) = map (\<lambda>(p, n). (p, n - 1)) (filter (\<lambda>x. 1 < snd x) (due_in q))"
proof -
  define q' where "q' = (case q of [] \<Rightarrow> [] | p # rest \<Rightarrow> ProcessDelay (dl_pid p) (dl_delay p - 1) # rest)"
  have t: "sleep_tick q = (map dl_pid (takeWhile (\<lambda>p. dl_delay p = 0) q'), dropWhile (\<lambda>p. dl_delay p = 0) q')"
  proof (cases q)
    case (Cons p rest)
    then have "1 \<le> dl_delay p" using assms by (simp add: word_le_nat_alt Suc_le_eq)
    then show ?thesis using Cons by (simp add: sleep_tick_def q'_def Let_def)
  qed (simp add: sleep_tick_def q'_def)
  have d: "due_in q' = map (\<lambda>(p, n). (p, n - 1)) (due_in q)"
  proof (cases q)
    case (Cons p rest)
    then have g: "0 < unat (dl_delay p)" using assms by simp
    then have "unat (dl_delay p - 1) = unat (dl_delay p) - 1"
      by (subst unat_minus_le) (simp_all add: word_le_nat_alt Suc_le_eq)
    moreover have "due (unat (dl_delay p) - 1) rest = map (\<lambda>(p, n). (p, n - 1)) (due (unat (dl_delay p)) rest)"
      using g unfolding due_shift0 [of "unat (dl_delay p) - 1"] due_shift0 [of "unat (dl_delay p)"]
      by (auto simp: comp_def split_beta)
    ultimately show ?thesis using Cons by (simp add: q'_def)
  qed (simp add: q'_def)
  have f: "filter (\<lambda>x. snd x = 0) (due_in q') = map (\<lambda>(p, n). (p, n - 1)) (filter (\<lambda>x. snd x = 1) (due_in q))"
    "filter (\<lambda>x. 0 < snd x) (due_in q') = map (\<lambda>(p, n). (p, n - 1)) (filter (\<lambda>x. 1 < snd x) (due_in q))"
    unfolding d filter_map comp_def using assms
    by (auto intro!: arg_cong [where f = "map _"] filter_cong simp: split_beta)
  show "fst (sleep_tick q) = map fst (filter (\<lambda>x. snd x = 1) (due_in q))"
    unfolding t fst_conv take_due f by (simp add: comp_def split_beta)
  show "due_in (snd (sleep_tick q)) = map (\<lambda>(p, n). (p, n - 1)) (filter (\<lambda>x. 1 < snd x) (due_in q))"
    unfolding t snd_conv drop_due f ..
qed

text \<open>The processes taken off by the tick after \<open>n\<close> ticks.\<close>

fun woken_at :: "nat \<Rightarrow> ProcessDelay list \<Rightarrow> usize list" where
  "woken_at 0 q = fst (sleep_tick q)"
| "woken_at (Suc n) q = woken_at n (snd (sleep_tick q))"

lemma woken_at_due:
  "\<forall>x \<in> set (due_in q). 0 < snd x \<Longrightarrow> woken_at n q = map fst (filter (\<lambda>x. snd x = Suc n) (due_in q))"
proof (induction n arbitrary: q)
  case 0
  then show ?case using tick_due(1) by simp
next
  case (Suc n)
  have "\<forall>x \<in> set (due_in (snd (sleep_tick q))). 0 < snd x"
    unfolding tick_due(2) [OF Suc.prems] by (auto simp: split_beta)
  from Suc.IH [OF this] show ?case unfolding woken_at.simps tick_due(2) [OF Suc.prems]
    by (auto simp: filter_map comp_def split_beta intro!: arg_cong [where f = "map _"] filter_cong)
qed

text \<open>C26: a process that goes to sleep for \<open>delay\<close> ticks, at least one, is woken by the \<open>delay\<close>-th tick from
  then on and by no other one, and every other sleeper is woken at the same tick as without it.\<close>

theorem sleep_wakes_on_time:
  assumes "sleep_ok q" "\<forall>x \<in> set (due_in q). 0 < snd x" "0 < delay" "pid \<notin> fst ` set (due_in q)"
  shows "(pid \<in> set (woken_at n (sleep_insert pid delay 0 q)) \<longleftrightarrow> Suc n = unat delay) \<and>
    (\<forall>p. p \<noteq> pid \<longrightarrow> (p \<in> set (woken_at n (sleep_insert pid delay 0 q)) \<longleftrightarrow> p \<in> set (woken_at n q)))"
proof -
  obtain xs ys where i: "due_in q = xs @ ys" "due_in (sleep_insert pid delay 0 q) = xs @ (pid, unat delay) # ys"
    using insert_due [of 0 q delay pid] assms(1) by (auto simp: sleep_ok_def)
  have g: "0 < unat delay" using assms(3) by (simp add: word_less_nat_alt)
  have w: "woken_at n (sleep_insert pid delay 0 q) = map fst (filter (\<lambda>x. snd x = Suc n) (xs @ (pid, unat delay) # ys))"
    "woken_at n q = map fst (filter (\<lambda>x. snd x = Suc n) (xs @ ys))"
    using woken_at_due [of "sleep_insert pid delay 0 q" n] woken_at_due [of q n] assms(2) i g by auto
  have "pid \<in> set (woken_at n (sleep_insert pid delay 0 q)) \<longleftrightarrow> Suc n = unat delay"
    unfolding w using assms(4) i(1) by force
  then show ?thesis unfolding w by auto
qed

theorem sleep_wakes_on_time_witness:
  "9 \<in> set (woken_at 4 (sleep_insert 9 5 0 [ProcessDelay 1 3, ProcessDelay 2 4])) \<and>
   1 \<in> set (woken_at 2 (sleep_insert 9 5 0 [ProcessDelay 1 3, ProcessDelay 2 4]))"
  using sleep_wakes_on_time [of "[ProcessDelay 1 3, ProcessDelay 2 4]" 5 9 4]
    sleep_wakes_on_time [of "[ProcessDelay 1 3, ProcessDelay 2 4]" 5 9 2]
    woken_at_due [of "[ProcessDelay 1 3, ProcessDelay 2 4]" 2]
  by (simp add: sleep_ok_def)

text \<open>A sleeper with delay 0 at the front of the queue costs the others a tick: that tick takes it off
  and counts nobody down.\<close>

theorem zero_sleep_stalls_tick:
  assumes "dl_delay d = 0"
  shows "due_in (snd (sleep_tick (d # q))) = filter (\<lambda>x. 0 < snd x) (due_in (d # q))"
proof -
  have "snd (sleep_tick (d # q)) = dropWhile (\<lambda>p. dl_delay p = 0) (d # q)"
    using assms by (simp add: sleep_tick_def Let_def)
  then show ?thesis using drop_due [of "d # q"] by simp
qed

theorem zero_sleep_stalls_tick_witness:
  "due_in (snd (sleep_tick [ProcessDelay 1 0, ProcessDelay 2 5])) = [(2, 5)]"
  using zero_sleep_stalls_tick [of "ProcessDelay 1 0" "[ProcessDelay 2 5]"] by simp

section \<open>The timer tick on the manager\<close>

definition awake :: "ProcessManager \<Rightarrow> usize \<Rightarrow> bool" where
  "awake s x \<longleftrightarrow> st s x \<in> {Some Ready, Some Running}"

text \<open>Scheduling puts nobody to sleep and leaves the sleep queue alone.\<close>

lemma schedule_awake:
  assumes inv: "pm_inv s"
  shows "(awake s x \<longrightarrow> awake (first_state (schedule s)) x) \<and> sleep_queue (first_state (schedule s)) = sleep_queue s"
proof (cases "d_count (defer_sched s) = 0")
  case False
  then show ?thesis by (simp add: schedule_deferred word_gt_0 awake_def)
next
  case d: True
  from inv show ?thesis
  proof (cases rule: ready_cases)
    case none
    then show ?thesis using schedule_none [OF d none(1)] by (simp add: awake_def)
  next
    case (some d' q p)
    obtain old where old: "ptable s (running s) = Some old" using pm_invD(1) [OF inv] by auto
    have ne: "p_state old = Running \<longrightarrow> running s \<noteq> pd_pid d'" using some(5,6) old by auto
    show ?thesis
      unfolding schedule_some [OF d some(1) old some(5) ne] awake_def
      using some(5,6) old ne by (auto simp: dispatch_def st_def context_switch_def Let_def split: option.splits)
  qed
qed

lemma schedule_twice_awake:
  assumes inv: "pm_inv s"
  shows "(awake s x \<longrightarrow> awake (first_state (bind_prog (schedule s) (\<lambda>_. schedule))) x) \<and>
    sleep_queue (first_state (bind_prog (schedule s) (\<lambda>_. schedule))) = sleep_queue s"
proof (cases "schedule s")
  case (Done r t)
  have "psat False (\<lambda>r s'. r = Ok () \<and> keeps False s s') (schedule s)" by (rule schedule_keeps [OF inv])
  then have "r = Ok ()" "pm_inv t" using Done by (simp_all add: keeps_def)
  then show ?thesis using schedule_awake [of t x] schedule_awake [OF inv, of x] Done by auto
next
  case (Switch p t k)
  then show ?thesis using schedule_awake [OF inv, of x] by simp
qed

text \<open>The loop over the due processes, while scheduling is deferred.\<close>

definition wake_sleeper :: "usize \<Rightarrow> ProcessManager \<Rightarrow> ProcessManager" where
  "wake_sleeper pid s = (if st s pid = Some Sleep then mark_ready pid s else s)"

lemma wake_sleepers:
  assumes "d_count (defer_sched s) > 0" "set pids \<subseteq> dom (ptable s)" "pm_inv s"
  shows "for_each (\<lambda>pid. bind (get_process pid) (\<lambda>p. if p_state p = Sleep then ready pid else ret ())) pids s
      = Done (Ok ()) (fold wake_sleeper pids s) \<and>
    pm_inv (fold wake_sleeper pids s) \<and>
    d_count (defer_sched (fold wake_sleeper pids s)) = d_count (defer_sched s) \<and>
    sleep_queue (fold wake_sleeper pids s) = sleep_queue s \<and>
    (awake s x \<or> (x \<in> set pids \<and> st s x = Some Sleep) \<longrightarrow> awake (fold wake_sleeper pids s) x)"
  using assms
proof (induction pids arbitrary: s)
  case (Cons pid pids)
  obtain p where p: "ptable s pid = Some p" using Cons.prems by auto
  have w: "d_count (defer_sched (wake_sleeper pid s)) = d_count (defer_sched s)"
      "dom (ptable (wake_sleeper pid s)) = dom (ptable s)" "pm_inv (wake_sleeper pid s)"
      "sleep_queue (wake_sleeper pid s) = sleep_queue s"
    using Cons.prems mark_ready_inv by (simp_all add: wake_sleeper_def)
  have g: "get_process pid s = Done (Ok p) s" using p by (simp add: get_process_def)
  have r: "ready pid s = Done (Ok ()) (mark_ready pid s)" using ready_deferred [OF _ p] Cons.prems by simp
  let ?f = "\<lambda>pid. bind (get_process pid) (\<lambda>p. if p_state p = Sleep then ready pid else ret ())"
  have "?f pid s = Done (Ok ()) (wake_sleeper pid s)"
    using g r p by (simp add: bind_def ret_def wake_sleeper_def st_def)
  then have f: "for_each ?f (pid # pids) s = for_each ?f pids (wake_sleeper pid s)" by (simp add: seq_def bind_def)
  have "awake s x \<or> (x \<in> set (pid # pids) \<and> st s x = Some Sleep) \<longrightarrow>
      awake (wake_sleeper pid s) x \<or> (x \<in> set pids \<and> st (wake_sleeper pid s) x = Some Sleep)"
    by (auto simp: wake_sleeper_def awake_def mark_ready_st)
  then show ?case unfolding f using Cons.IH [of "wake_sleeper pid s"] Cons.prems w by auto
qed (auto simp: ret_def)

lemma defer_stop_eq:
  "defer_schedule Stop s = (let s' = s\<lparr>defer_sched := (defer_sched s)\<lparr>d_count := d_count (defer_sched s) - 1\<rparr>\<rparr>
     in if d_count (defer_sched s') = 0 \<and> d_attempt (defer_sched s) then schedule s' else Done (Ok ()) s')"
  by (simp add: defer_schedule_def kop_defs Let_def)

lemma first_state_restore_sleep [simp]:
  "sleep_queue (first_state (bind_prog p (\<lambda>_. irq_restore msk))) = sleep_queue (first_state p)"
  "awake (first_state (bind_prog p (\<lambda>_. irq_restore msk))) x = awake (first_state p) x"
  by (cases p; simp add: irq_restore_eq awake_def restored_def split: result.split)+

text \<open>A timer tick (\<open>wakeup\<close>) takes one tick off the sleep queue and makes every sleeping process whose
  delay has run out ready (or running already, when it gets the processor at once).\<close>

theorem wakeup_readies_due:
  assumes inv: "pm_inv s" and d: "d_count (defer_sched s) = 0"
  shows "let s' = first_state (wakeup s); (pids, q) = sleep_tick (sleep_queue s)
    in sleep_queue s' = q \<and> (\<forall>p \<in> set pids. st s p = Some Sleep \<longrightarrow> st s' p \<in> {Some Ready, Some Running})"
proof (cases "sleep_queue s = []")
  case True
  then show ?thesis
    by (simp add: wakeup_def bind_def seq_def ret_def gets_def irq_disable_eq irq_restore_eq restored_def sleep_tick_def)
next
  case False
  obtain pids q where t: "sleep_tick (sleep_queue s) = (pids, q)" by fastforce
  let ?s = "started (off (s\<lparr>sleep_queue := q\<rparr>))"
  have all: "dl_pid ` set (sleep_queue s) \<subseteq> dom (ptable s)" using pm_invD(6) [OF inv] by blast
  have sub: "set pids \<subseteq> dom (ptable s)" "dl_pid ` set q \<subseteq> dom (ptable s)"
    using sleep_tick_pids [OF t] all by blast+
  have i: "pm_inv ?s" using inv_sleep_queue [OF inv sub(2)] by simp
  let ?w = "fold wake_sleeper pids ?s"
  have w: "for_each (\<lambda>pid. bind (get_process pid) (\<lambda>p. if p_state p = Sleep then ready pid else ret ())) pids ?s
      = Done (Ok ()) ?w" "pm_inv ?w" "d_count (defer_sched ?w) = 1" "sleep_queue ?w = q"
    using wake_sleepers [of ?s pids] i sub(1) d by simp_all
  have aw: "awake ?w x" if "x \<in> set pids" "st s x = Some Sleep" for x
    using wake_sleepers [of ?s pids x] i sub(1) d that by (simp add: started_def)
  let ?u = "?w\<lparr>defer_sched := (defer_sched ?w)\<lparr>d_count := 0\<rparr>\<rparr>"
  have u: "pm_inv ?u" "sleep_queue ?u = q" "awake ?u = awake ?w" using w by (simp_all add: awake_def fun_eq_iff)
  have eq: "wakeup s = bind_prog (if d_attempt (defer_sched ?w) then bind_prog (schedule ?u) (\<lambda>_. schedule) else schedule ?u)
      (\<lambda>_. irq_restore (imask s))"
    using False t w(1,3)
    by (simp add: wakeup_def bind_def seq_def ret_def gets_def modify_def irq_disable_eq defer_start_eq
        defer_stop_eq Let_def)
  have "sleep_queue (first_state (wakeup s)) = q"
    using u schedule_awake [OF u(1)] schedule_twice_awake [OF u(1)] by (simp add: eq)
  moreover have "awake (first_state (wakeup s)) x" if "x \<in> set pids" "st s x = Some Sleep" for x
    using u schedule_awake [OF u(1), of x] schedule_twice_awake [OF u(1), of x] aw [OF that] by (simp add: eq)
  ultimately show ?thesis by (auto simp: t Let_def awake_def)
qed

definition pm_sleep :: ProcessManager where
  "pm_sleep = pm0\<lparr>ptable := (ptable pm0)(2 \<mapsto> proc0 2 7 Sleep), stable := (\<lambda>_. None),
     sleep_queue := [ProcessDelay 2 1, ProcessDelay 1 3]\<rparr>"

lemma pm_sleep_fields [simp]:
  "ptable pm_sleep = [0 \<mapsto> proc0 0 0 Ready, 1 \<mapsto> proc0 1 5 Running, 2 \<mapsto> proc0 2 7 Sleep]"
  "stable pm_sleep = (\<lambda>_. None)" "pqueue pm_sleep = [ProcessDesc 0 0]"
  "sleep_queue pm_sleep = [ProcessDelay 2 1, ProcessDelay 1 3]" "event_queue pm_sleep = (\<lambda>_. None)"
  "defer_sched pm_sleep = \<lparr>d_count = 0, d_attempt = False\<rparr>" "curr_pid pm_sleep = 3" "running pm_sleep = 1"
  by (simp_all add: pm_sleep_def)

lemma pm_sleep_inv: "pm_inv pm_sleep"
  by (auto simp: pm_inv_def pq.heap_def st_def split: if_splits)

theorem wakeup_readies_due_witness:
  "sleep_queue (first_state (wakeup pm_sleep)) = [ProcessDelay 1 3] \<and>
   st (first_state (wakeup pm_sleep)) 2 \<in> {Some Ready, Some Running}"
  using wakeup_readies_due [OF pm_sleep_inv] by (simp add: sleep_tick_def Let_def st_def [of pm_sleep])

end
