(* ===== verification/Assembly.thy ===== *)
theory Assembly
  imports Arch_Process
begin

text \<open>
  The kernel's assembly: \<open>context_switch\<close> (\<open>src/src/arch/riscv64/process.rs\<close>), \<open>uservec\<close> and \<open>userret\<close>
  (\<open>trampoline.rs\<close>), \<open>kernelvec\<close> (\<open>trap.rs\<close>) and \<open>timervec\<close> (\<open>clint.rs\<close>) as the instruction lists of the
  source, executed on the machine.

  The address translation of the hardware is the parameter \<open>tr\<close> (\<open>satp\<close>, memory, virtual address);
  \<open>mapped\<close> says what the code needs of it, that a block of memory is reachable and stays so while the
  block itself is written.
\<close>

section \<open>Instructions\<close>

datatype Instr =
    SD Reg usize Reg | LD Reg usize Reg | ADDI Reg Reg usize | ADD Reg Reg Reg | LI Reg usize
  | CSRR Reg Csr | CSRW Csr Reg | CSRRW Reg Csr Reg | SFENCE_VMA | JR Reg | RET | SRET | MRET
  | MUL Reg Reg Reg | CALL usize usize

type_synonym translation = "usize \<Rightarrow> (usize \<Rightarrow> usize) \<Rightarrow> usize \<Rightarrow> usize option"

text \<open>After an instruction: on to the next one, a jump to an address, or a page fault.\<close>

datatype outcome = Next machine | Jump usize machine | Fault

definition set_reg :: "Reg \<Rightarrow> usize \<Rightarrow> machine \<Rightarrow> machine" where
  "set_reg r x m = m\<lparr>regs := (regs m)(r := x)\<rparr>"

definition set_csr :: "Csr \<Rightarrow> usize \<Rightarrow> machine \<Rightarrow> machine" where
  "set_csr c x m = m\<lparr>csrs := csr_write c x (csrs m)\<rparr>"

definition put_bit :: "nat \<Rightarrow> bool \<Rightarrow> usize \<Rightarrow> usize" where
  "put_bit n b w = (if b then w OR push_bit n 1 else w AND NOT (push_bit n 1))"

text \<open>\<open>xRET\<close>: the interrupt-enable bit is set from the saved one, the saved one is set, the previous
  privilege is cleared.\<close>

definition sret_status :: "usize \<Rightarrow> usize" where
  "sret_status s = put_bit 8 False (put_bit 5 True (put_bit 1 (bit s 5) s))"

definition mret_status :: "usize \<Rightarrow> usize" where
  "mret_status s = put_bit 12 False (put_bit 11 False (put_bit 7 True (put_bit 3 (bit s 7) s)))"

fun exec1 :: "translation \<Rightarrow> Instr \<Rightarrow> machine \<Rightarrow> outcome" where
  "exec1 tr (SD rs k b) m = (case tr (csrs m Satp) (mem m) (regs m b + k) of
     None \<Rightarrow> Fault | Some p \<Rightarrow> Next (m\<lparr>mem := (mem m)(p := regs m rs)\<rparr>))"
| "exec1 tr (LD rd k b) m = (case tr (csrs m Satp) (mem m) (regs m b + k) of
     None \<Rightarrow> Fault | Some p \<Rightarrow> Next (set_reg rd (mem m p) m))"
| "exec1 tr (ADDI rd rs k) m = Next (set_reg rd (regs m rs + k) m)"
| "exec1 tr (ADD rd r1 r2) m = Next (set_reg rd (regs m r1 + regs m r2) m)"
| "exec1 tr (LI rd k) m = Next (set_reg rd k m)"
| "exec1 tr (CSRR rd c) m = Next (set_reg rd (csr_read c (csrs m)) m)"
| "exec1 tr (CSRW c rs) m = Next (set_csr c (regs m rs) m)"
| "exec1 tr (CSRRW rd c rs) m = Next (set_reg rd (csr_read c (csrs m)) (set_csr c (regs m rs) m))"
| "exec1 tr SFENCE_VMA m = Next m"
| "exec1 tr (JR r) m = Jump (regs m r) m"
| "exec1 tr RET m = Jump (regs m Ra) m"
| "exec1 tr SRET m = Jump (csrs m Sepc) (set_csr Sstatus (sret_status (csrs m Sstatus)) m)"
| "exec1 tr MRET m = Jump (csrs m Mepc) (set_csr Mstatus (mret_status (csrs m Mstatus)) m)"
| "exec1 tr (MUL rd r1 r2) m = Next (set_reg rd (regs m r1 * regs m r2) m)"
| "exec1 tr (CALL a next_pc) m = Jump a (set_reg Ra next_pc m)"

fun exec :: "translation \<Rightarrow> Instr list \<Rightarrow> machine \<Rightarrow> outcome" where
  "exec tr [] m = Next m"
| "exec tr (i # is) m = (case exec1 tr i m of Next m' \<Rightarrow> exec tr is m' | Jump a m' \<Rightarrow> Jump a m' | Fault \<Rightarrow> Fault)"

section \<open>The code\<close>

definition context_switch_asm :: "Instr list" where
  "context_switch_asm =
     [SD Ra 0 A0, SD Sp 8 A0, SD S0 16 A0, SD S1 24 A0, SD S2 32 A0, SD S3 40 A0, SD S4 48 A0, SD S5 56 A0,
      SD S6 64 A0, SD S7 72 A0, SD S8 80 A0, SD S9 88 A0, SD S10 96 A0, SD S11 104 A0,
      CSRR T0 Sstatus, SD T0 120 A0,
      LD Ra 0 A1, LD Sp 8 A1, LD S0 16 A1, LD S1 24 A1, LD S2 32 A1, LD S3 40 A1, LD S4 48 A1, LD S5 56 A1,
      LD S6 64 A1, LD S7 72 A1, LD S8 80 A1, LD S9 88 A1, LD S10 96 A1, LD S11 104 A1,
      LD A0 112 A1, LD T0 120 A1, CSRW Sstatus T0, RET]"

definition uservec :: "Instr list" where
  "uservec =
     [CSRRW A0 Sscratch A0,
      SD Ra 40 A0, SD Sp 48 A0, SD Gp 56 A0, SD Tp 64 A0, SD T0 72 A0, SD T1 80 A0, SD T2 88 A0, SD S0 96 A0,
      SD S1 104 A0, SD A1 120 A0, SD A2 128 A0, SD A3 136 A0, SD A4 144 A0, SD A5 152 A0, SD A6 160 A0,
      SD A7 168 A0, SD S2 176 A0, SD S3 184 A0, SD S4 192 A0, SD S5 200 A0, SD S6 208 A0, SD S7 216 A0,
      SD S8 224 A0, SD S9 232 A0, SD S10 240 A0, SD S11 248 A0, SD T3 256 A0, SD T4 264 A0, SD T5 272 A0,
      SD T6 280 A0,
      CSRR T0 Sscratch, SD T0 112 A0, LD Sp 8 A0, LD Tp 32 A0, LD T0 16 A0, LD T1 0 A0, LD A0 288 A0,
      CSRW Satp T1, SFENCE_VMA, JR T0]"

definition userret :: "Instr list" where
  "userret =
     [CSRW Satp A1, SFENCE_VMA, LD T0 112 A0, CSRW Sscratch T0,
      LD Ra 40 A0, LD Sp 48 A0, LD Gp 56 A0, LD Tp 64 A0, LD T0 72 A0, LD T1 80 A0, LD T2 88 A0, LD S0 96 A0,
      LD S1 104 A0, LD A1 120 A0, LD A2 128 A0, LD A3 136 A0, LD A4 144 A0, LD A5 152 A0, LD A6 160 A0,
      LD A7 168 A0, LD S2 176 A0, LD S3 184 A0, LD S4 192 A0, LD S5 200 A0, LD S6 208 A0, LD S7 216 A0,
      LD S8 224 A0, LD S9 232 A0, LD S10 240 A0, LD S11 248 A0, LD T3 256 A0, LD T4 264 A0, LD T5 272 A0,
      LD T6 280 A0,
      CSRRW A0 Sscratch A0, SRET]"

text \<open>\<open>killme\<close>: the stub a user program returns to asks for system call 62; \<open>ecall\<close> follows.\<close>

definition killme :: "Instr list" where
  "killme = [LI A0 62]"

text \<open>\<open>kernelvec\<close> before and after its call of \<open>kernel_trap\<close>.\<close>

definition kernelvec_entry :: "Instr list" where
  "kernelvec_entry =
     [ADDI Sp Sp (- 256),
      SD Ra 0 Sp, SD Sp 8 Sp, SD Gp 16 Sp, SD Tp 24 Sp, SD T0 32 Sp, SD T1 40 Sp, SD T2 48 Sp, SD S0 56 Sp,
      SD S1 64 Sp, SD A0 72 Sp, SD A1 80 Sp, SD A2 88 Sp, SD A3 96 Sp, SD A4 104 Sp, SD A5 112 Sp, SD A6 120 Sp,
      SD A7 128 Sp, SD S2 136 Sp, SD S3 144 Sp, SD S4 152 Sp, SD S5 160 Sp, SD S6 168 Sp, SD S7 176 Sp,
      SD S8 184 Sp, SD S9 192 Sp, SD S10 200 Sp, SD S11 208 Sp, SD T3 216 Sp, SD T4 224 Sp, SD T5 232 Sp,
      SD T6 240 Sp]"

definition kernelvec_exit :: "Instr list" where
  "kernelvec_exit =
     [LD Ra 0 Sp, LD Sp 8 Sp, LD Gp 16 Sp, LD T0 32 Sp, LD T1 40 Sp, LD T2 48 Sp, LD S0 56 Sp,
      LD S1 64 Sp, LD A0 72 Sp, LD A1 80 Sp, LD A2 88 Sp, LD A3 96 Sp, LD A4 104 Sp, LD A5 112 Sp, LD A6 120 Sp,
      LD A7 128 Sp, LD S2 136 Sp, LD S3 144 Sp, LD S4 152 Sp, LD S5 160 Sp, LD S6 168 Sp, LD S7 176 Sp,
      LD S8 184 Sp, LD S9 192 Sp, LD S10 200 Sp, LD S11 208 Sp, LD T3 216 Sp, LD T4 224 Sp, LD T5 232 Sp,
      LD T6 240 Sp,
      ADDI Sp Sp 256, SRET]"

definition timervec :: "Instr list" where
  "timervec =
     [CSRRW A0 Mscratch A0, SD A1 0 A0, SD A2 8 A0, SD A3 16 A0, LD A1 24 A0, LD A2 32 A0, LD A3 0 A1,
      ADD A3 A3 A2, SD A3 0 A1, LI A1 2, CSRW Sip A1, LD A3 16 A0, LD A2 8 A0, LD A1 0 A0,
      CSRRW A0 Mscratch A0, MRET]"

section \<open>Blocks of memory\<close>

definition mapped :: "translation \<Rightarrow> usize \<Rightarrow> (usize \<Rightarrow> usize) \<Rightarrow> usize \<Rightarrow> usize \<Rightarrow> usize \<Rightarrow> bool" where
  "mapped tr satp M v p n \<longleftrightarrow>
     (\<forall>M'. (\<forall>a. n \<le> a - p \<longrightarrow> M' a = M a) \<longrightarrow> (\<forall>k < n. tr satp M' (v + k) = Some (p + k)))"

lemma mappedD: "mapped tr satp M v p n \<Longrightarrow> k < n \<Longrightarrow> tr satp M (v + k) = Some (p + k)"
  by (simp add: mapped_def)

lemma mapped_write: "mapped tr satp M v p n \<Longrightarrow> k < n \<Longrightarrow> mapped tr satp (M(p + k := x)) v p n"
  unfolding mapped_def by (metis add_diff_cancel_left' fun_upd_other linorder_not_less)

fun store_all :: "usize \<Rightarrow> (Reg \<times> usize) list \<Rightarrow> (Reg \<Rightarrow> usize) \<Rightarrow> (usize \<Rightarrow> usize) \<Rightarrow> usize \<Rightarrow> usize" where
  "store_all p [] R M = M"
| "store_all p ((r, k) # xs) R M = store_all p xs R (M(p + k := R r))"

fun load_all :: "usize \<Rightarrow> (Reg \<times> usize) list \<Rightarrow> (usize \<Rightarrow> usize) \<Rightarrow> (Reg \<Rightarrow> usize) \<Rightarrow> Reg \<Rightarrow> usize" where
  "load_all p [] M R = R"
| "load_all p ((r, k) # xs) M R = load_all p xs M (R(r := M (p + k)))"

abbreviation saves :: "Reg \<Rightarrow> (Reg \<times> usize) list \<Rightarrow> Instr list" where
  "saves b xs \<equiv> map (\<lambda>(r, k). SD r k b) xs"

abbreviation loads :: "Reg \<Rightarrow> (Reg \<times> usize) list \<Rightarrow> Instr list" where
  "loads b xs \<equiv> map (\<lambda>(r, k). LD r k b) xs"

lemma store_all_other: "\<forall>k \<in> snd ` set xs. a \<noteq> p + k \<Longrightarrow> store_all p xs R M a = M a"
  by (induction p xs R M rule: store_all.induct) auto

lemma store_all_get:
  "distinct (map snd xs) \<Longrightarrow> (r, k) \<in> set xs \<Longrightarrow> store_all p xs R M (p + k) = R r"
proof (induction p xs R M rule: store_all.induct)
  case (2 p r' k' xs R M)
  show ?case
  proof (cases "(r, k) \<in> set xs")
    case False
    then have e: "r = r'" "k = k'" using 2(3) by auto
    have "\<forall>j \<in> snd ` set xs. p + k \<noteq> p + j" using 2(2) e by auto
    then show ?thesis using e store_all_other [of xs "p + k" p R] by simp
  qed (use 2 in \<open>simp add: fun_upd_def\<close>)
qed simp

lemma load_all_other: "r \<notin> fst ` set xs \<Longrightarrow> load_all p xs M R r = R r"
  by (induction p xs M R rule: load_all.induct) auto

lemma load_all_get: "distinct (map fst xs) \<Longrightarrow> (r, k) \<in> set xs \<Longrightarrow> load_all p xs M R r = M (p + k)"
proof (induction p xs M R rule: load_all.induct)
  case (2 p r' k' xs M R)
  show ?case
  proof (cases "(r, k) \<in> set xs")
    case False
    then have e: "r = r'" "k = k'" using 2(3) by auto
    have "r \<notin> fst ` set xs" using 2(2) e by auto
    then show ?thesis using e load_all_other [of r xs p M] by simp
  qed (use 2 in \<open>simp add: fun_upd_def\<close>)
qed simp

lemma mapped_store_all:
  "mapped tr satp M v p n \<Longrightarrow> \<forall>k \<in> snd ` set xs. k < n \<Longrightarrow> mapped tr satp (store_all p xs R M) v p n"
  by (induction p xs R M rule: store_all.induct) (auto simp: mapped_write)

lemma exec_append: "exec tr (xs @ ys) m = (case exec tr xs m of Next m' \<Rightarrow> exec tr ys m' | x \<Rightarrow> x)"
  by (induction xs arbitrary: m) (auto split: outcome.split)

lemma exec_saves:
  "mapped tr (csrs m Satp) (mem m) (regs m b) p n \<Longrightarrow> \<forall>k \<in> snd ` set xs. k < n \<Longrightarrow>
   exec tr (saves b xs) m = Next (m\<lparr>mem := store_all p xs (regs m) (mem m)\<rparr>)"
proof (induction xs arbitrary: m)
  case (Cons x xs)
  obtain r k where x: "x = (r, k)" by (cases x)
  let ?m = "m\<lparr>mem := (mem m)(p + k := regs m r)\<rparr>"
  have "exec tr (saves b xs) ?m = Next (?m\<lparr>mem := store_all p xs (regs ?m) (mem ?m)\<rparr>)"
    by (rule Cons.IH) (use Cons.prems x mapped_write [of tr _ "mem m" _ p n k] in \<open>simp_all add: fun_upd_def\<close>)
  then show ?case using Cons.prems x mappedD [of tr _ "mem m" "regs m b" p n k] by simp
qed simp

lemma exec_loads:
  assumes "\<forall>k \<in> snd ` set xs. tr (csrs m Satp) (mem m) (regs m b + k) = Some (p + k)"
    "\<forall>(r, k) \<in> set xs. r = b \<longrightarrow> mem m (p + k) = regs m b"
  shows "exec tr (loads b xs) m = Next (m\<lparr>regs := load_all p xs (mem m) (regs m)\<rparr>)"
  using assms
proof (induction xs arbitrary: m)
  case (Cons x xs)
  obtain r k where x: "x = (r, k)" by (cases x)
  let ?m = "set_reg r (mem m (p + k)) m"
  have b: "regs ?m b = regs m b" using Cons.prems x by (auto simp: set_reg_def)
  have "exec tr (loads b xs) ?m = Next (?m\<lparr>regs := load_all p xs (mem ?m) (regs ?m)\<rparr>)"
    by (rule Cons.IH) (use Cons.prems x b in \<open>auto simp: set_reg_def\<close>)
  then show ?case using Cons.prems x by (simp add: set_reg_def)
qed simp

lemma exec_Next: "exec tr xs m = Next m' \<Longrightarrow> exec tr (xs @ ys) m = exec tr ys m'"
  by (simp add: exec_append)

section \<open>Traps from user mode\<close>

definition user_regs :: "Reg list" where
  "user_regs = [Ra, Sp, Gp, Tp, T0, T1, T2, S0, S1, A1, A2, A3, A4, A5, A6, A7, S2, S3, S4, S5, S6, S7, S8, S9, S10,
     S11, T3, T4, T5, T6]"

definition frame_slots :: "(Reg \<times> usize) list" where
  "frame_slots = map (\<lambda>r. (r, reg_offset r)) user_regs"

lemma user_regs_all: "r \<noteq> A0 \<longleftrightarrow> r \<in> set user_regs"
  by (cases r) (simp_all add: user_regs_def)

lemma frame_slots_facts:
  "distinct (map fst frame_slots)" "distinct (map snd frame_slots)" "\<forall>k \<in> snd ` set frame_slots. k < 0x1000"
  "(r, k) \<in> set frame_slots \<longleftrightarrow> r \<noteq> A0 \<and> k = reg_offset r"
  by (simp_all add: frame_slots_def user_regs_all image_iff) (auto simp: user_regs_def)

lemma reg_offset_A0: "reg_offset r = 112 \<longleftrightarrow> r = A0"
  by (cases r) simp_all

lemma header_offsets: "k \<in> {0, 8, 16, 24, 32, 112, 288} \<Longrightarrow> \<forall>j \<in> snd ` set frame_slots. tf + k \<noteq> tf + j"
  by (auto simp: frame_slots_def user_regs_def)

lemma uservec_split:
  "uservec = [CSRRW A0 Sscratch A0] @ saves A0 frame_slots @ [CSRR T0 Sscratch, SD T0 112 A0] @
     loads A0 [(Sp, 8), (Tp, 32), (T0, 16), (T1, 0)] @ [LD A0 288 A0, CSRW Satp T1, SFENCE_VMA, JR T0]"
  by (simp add: uservec_def frame_slots_def user_regs_def)

lemma userret_split:
  "userret = [CSRW Satp A1, SFENCE_VMA, LD T0 112 A0, CSRW Sscratch T0] @ loads A0 frame_slots @
     [CSRRW A0 Sscratch A0, SRET]"
  by (simp add: userret_def frame_slots_def user_regs_def)

lemmas step_simps = set_reg_def set_csr_def csr_read_def csr_write_def

lemma uservec_saves:
  assumes map: "mapped tr (csrs m Satp) (mem m) v tf 0x1000" and scr: "csrs m Sscratch = v"
  shows "\<exists>m'. exec tr uservec m = Jump (tf_get tf TF_kernel_trap m) m' \<and>
    (\<forall>r. tf_get tf (TF_reg r) m' = regs m r) \<and>
    (\<forall>fld \<in> {TF_kernel_satp, TF_kernel_sp, TF_kernel_trap, TF_epc, TF_kernel_hartid, TF_arch_proc}.
       tf_get tf fld m' = tf_get tf fld m) \<and>
    (\<forall>a. 0x1000 \<le> a - tf \<longrightarrow> mem m' a = mem m a) \<and>
    regs m' Sp = tf_get tf TF_kernel_sp m \<and> regs m' Tp = tf_get tf TF_kernel_hartid m \<and>
    regs m' A0 = tf_get tf TF_arch_proc m \<and>
    csrs m' = (csrs m)(Sscratch := regs m A0, Satp := tf_get tf TF_kernel_satp m)"
proof -
  let ?m0 = "m\<lparr>regs := (regs m)(A0 := v), csrs := (csrs m)(Sscratch := regs m A0)\<rparr>"
  define M1 where "M1 = store_all tf frame_slots (regs ?m0) (mem m)"
  define M2 where "M2 = M1(tf + 112 := regs m A0)"
  have e0: "exec tr [CSRRW A0 Sscratch A0] m = Next ?m0" using scr by (simp add: step_simps)
  have map1: "mapped tr (csrs m Satp) M1 v tf 0x1000"
    unfolding M1_def by (rule mapped_store_all [OF map frame_slots_facts(3)])
  then have map2: "mapped tr (csrs m Satp) M2 v tf 0x1000" unfolding M2_def by (rule mapped_write) simp
  let ?m1 = "?m0\<lparr>mem := M1\<rparr>"
  have e1: "exec tr (saves A0 frame_slots) ?m0 = Next ?m1"
    using exec_saves [of tr ?m0 A0 tf "0x1000" frame_slots] map frame_slots_facts(3) by (simp add: M1_def)
  let ?m2 = "?m0\<lparr>regs := (regs ?m0)(T0 := regs m A0), mem := M2\<rparr>"
  have e2: "exec tr [CSRR T0 Sscratch, SD T0 112 A0] ?m1 = Next ?m2"
    using mappedD [OF map1, of 112] by (simp add: step_simps M2_def)
  let ?xs = "[(Sp, 8), (Tp, 32), (T0, 16), (T1, 0)]"
  let ?m3 = "?m2\<lparr>regs := load_all tf ?xs M2 (regs ?m2)\<rparr>"
  have e3: "exec tr (loads A0 ?xs) ?m2 = Next ?m3"
    using exec_loads [of ?xs tr ?m2 A0 tf] mappedD [OF map2, of 8] mappedD [OF map2, of 32] mappedD [OF map2, of 16]
      mappedD [OF map2, of 0] by simp
  have M2: "M2 (tf + k) = mem m (tf + k)" if "k \<in> {0, 8, 16, 24, 32, 288}" for k
    using that store_all_other [OF header_offsets, of k tf] by (auto simp: M2_def M1_def)
  let ?m4 = "?m3\<lparr>regs := (regs ?m3)(A0 := M2 (tf + 288)), csrs := (csrs ?m3)(Satp := M2 tf)\<rparr>"
  have e4: "exec tr [LD A0 288 A0, CSRW Satp T1, SFENCE_VMA, JR T0] ?m3 = Jump (M2 (tf + 16)) ?m4"
    using mappedD [OF map2, of 288] by (simp add: step_simps)
  have "exec tr uservec m = Jump (tf_get tf TF_kernel_trap m) ?m4"
    unfolding uservec_split exec_Next [OF e0] exec_Next [OF e1] exec_Next [OF e2] exec_Next [OF e3] e4
    using M2 [of 16] by (simp add: tf_get_def)
  moreover have "tf_get tf (TF_reg r) ?m4 = regs m r" for r
  proof (cases "r = A0")
    case False
    then have "M1 (tf + reg_offset r) = regs ?m0 r" unfolding M1_def
      by (intro store_all_get) (simp_all add: frame_slots_facts)
    then show ?thesis using False reg_offset_A0 [of r] by (simp add: tf_get_def M2_def)
  qed (simp add: tf_get_def M2_def)
  moreover have "mem ?m4 a = mem m a" if "0x1000 \<le> a - tf" for a
  proof -
    have ne: "a \<noteq> tf + k" if "k < 0x1000" for k
      using that \<open>0x1000 \<le> a - tf\<close> by (metis add_diff_cancel_left' linorder_not_less)
    then have "M1 a = mem m a" unfolding M1_def using frame_slots_facts(3) by (intro store_all_other) blast
    then show ?thesis using ne [of 112] by (simp add: M2_def)
  qed
  ultimately show ?thesis
    using M2 [of 0] M2 [of 8] M2 [of 16] M2 [of 24] M2 [of 32] M2 [of 288]
    by (intro exI [of _ ?m4]) (simp add: tf_get_def fun_eq_iff)
qed

lemma userret_restores:
  assumes map: "mapped tr satp (mem m) v tf 0x1000" and args: "regs m A0 = v" "regs m A1 = satp"
  shows "\<exists>m'. exec tr userret m = Jump (csrs m Sepc) m' \<and> (\<forall>r. regs m' r = tf_get tf (TF_reg r) m) \<and>
    mem m' = mem m \<and>
    csrs m' = (csrs m)(Satp := satp, Sscratch := v, Sstatus := sret_status (csrs m Sstatus))"
proof -
  let ?m1 = "m\<lparr>regs := (regs m)(T0 := mem m (tf + 112)), csrs := (csrs m)(Satp := satp, Sscratch := mem m (tf + 112))\<rparr>"
  have e1: "exec tr [CSRW Satp A1, SFENCE_VMA, LD T0 112 A0, CSRW Sscratch T0] m = Next ?m1"
    using mappedD [OF map, of 112] args by (simp add: step_simps)
  let ?m2 = "?m1\<lparr>regs := load_all tf frame_slots (mem m) (regs ?m1)\<rparr>"
  have t: "\<forall>k \<in> snd ` set frame_slots. tr satp (mem m) (v + k) = Some (tf + k)"
    using frame_slots_facts(3) mappedD [OF map] by blast
  have "\<forall>(r, k) \<in> set frame_slots. r = A0 \<longrightarrow> mem ?m1 (tf + k) = regs ?m1 A0" by (auto simp: frame_slots_facts(4))
  then have e2: "exec tr (loads A0 frame_slots) ?m1 = Next ?m2"
    using exec_loads [of frame_slots tr ?m1 A0 tf] t args by simp
  have "A0 \<notin> fst ` set frame_slots" by (auto simp: frame_slots_facts(4))
  then have A0: "regs ?m2 A0 = v" using load_all_other [of A0 frame_slots tf "mem m" "regs ?m1"] args by simp
  let ?m3 = "?m2\<lparr>regs := (regs ?m2)(A0 := mem m (tf + 112)),
     csrs := (csrs ?m2)(Sscratch := v, Sstatus := sret_status (csrs m Sstatus))\<rparr>"
  have "exec tr [CSRRW A0 Sscratch A0, SRET] ?m2 = Jump (csrs m Sepc) ?m3"
    using A0 by (simp add: step_simps fun_upd_def)
  then have "exec tr userret m = Jump (csrs m Sepc) ?m3"
    unfolding userret_split exec_Next [OF e1] exec_Next [OF e2] .
  moreover have "regs ?m3 r = tf_get tf (TF_reg r) m" for r
    using load_all_get [OF frame_slots_facts(1), of r "reg_offset r" tf "mem m" "regs ?m1"]
    by (cases "r = A0") (simp_all add: tf_get_def frame_slots_facts(4))
  ultimately show ?thesis by (intro exI [of _ ?m3]) (auto simp: fun_eq_iff)
qed

text \<open>C25: a trap from user mode and the return from it. \<open>uservec\<close> puts every register of the user program
  into its trap frame and enters the kernel's handler on the kernel's stack and page table with the
  process as argument; whenever the kernel then runs \<open>userret\<close> with the saved registers still in the
  frame, but for the result \<open>x\<close> in \<open>a0\<close>, the program goes on at \<open>sepc\<close> with exactly those registers and
  everything set for the next trap.\<close>

theorem user_trap_roundtrip:
  assumes "mapped tr (csrs m Satp) (mem m) TRAPFRAME tf 0x1000" "csrs m Sscratch = TRAPFRAME"
  shows "\<exists>k. exec tr uservec m = Jump (tf_get tf TF_kernel_trap m) k \<and>
    regs k A0 = tf_get tf TF_arch_proc m \<and> regs k Sp = tf_get tf TF_kernel_sp m \<and>
    csrs k Satp = tf_get tf TF_kernel_satp m \<and>
    (\<forall>n x. mapped tr (csrs m Satp) (mem n) TRAPFRAME tf 0x1000 \<and>
       regs n A0 = TRAPFRAME \<and> regs n A1 = csrs m Satp \<and>
       (\<forall>r. tf_get tf (TF_reg r) n = (if r = A0 then x else tf_get tf (TF_reg r) k)) \<longrightarrow>
       (\<exists>u. exec tr userret n = Jump (csrs n Sepc) u \<and> regs u = (regs m)(A0 := x) \<and>
          csrs u Satp = csrs m Satp \<and> csrs u Sscratch = TRAPFRAME))"
proof -
  obtain k where k: "exec tr uservec m = Jump (tf_get tf TF_kernel_trap m) k"
    "\<forall>r. tf_get tf (TF_reg r) k = regs m r" "regs k Sp = tf_get tf TF_kernel_sp m"
    "regs k A0 = tf_get tf TF_arch_proc m"
    "csrs k = (csrs m)(Sscratch := regs m A0, Satp := tf_get tf TF_kernel_satp m)"
    using uservec_saves [OF assms] by blast
  have "\<exists>u. exec tr userret n = Jump (csrs n Sepc) u \<and> regs u = (regs m)(A0 := x) \<and>
      csrs u Satp = csrs m Satp \<and> csrs u Sscratch = TRAPFRAME"
    if n: "mapped tr (csrs m Satp) (mem n) TRAPFRAME tf 0x1000" "regs n A0 = TRAPFRAME" "regs n A1 = csrs m Satp"
      "\<forall>r. tf_get tf (TF_reg r) n = (if r = A0 then x else tf_get tf (TF_reg r) k)" for n x
    using userret_restores [OF n(1,2,3)] n(4) k(2) by (auto simp: fun_eq_iff)
  then show ?thesis using k by (intro exI [of _ k]) auto
qed

section \<open>The context switch\<close>

definition ctx_at :: "(usize \<Rightarrow> usize) \<Rightarrow> usize \<Rightarrow> Context" where
  "ctx_at M p = \<lparr>ctx_ra = M p, ctx_sp = M (p + 8), ctx_s0 = M (p + 16), ctx_s1 = M (p + 24), ctx_s2 = M (p + 32),
     ctx_s3 = M (p + 40), ctx_s4 = M (p + 48), ctx_s5 = M (p + 56), ctx_s6 = M (p + 64), ctx_s7 = M (p + 72),
     ctx_s8 = M (p + 80), ctx_s9 = M (p + 88), ctx_s10 = M (p + 96), ctx_s11 = M (p + 104), ctx_a0 = M (p + 112),
     ctx_sstatus = M (p + 120)\<rparr>"

definition ctx_slots :: "(Reg \<times> usize) list" where
  "ctx_slots = [(Ra, 0), (Sp, 8), (S0, 16), (S1, 24), (S2, 32), (S3, 40), (S4, 48), (S5, 56), (S6, 64), (S7, 72),
     (S8, 80), (S9, 88), (S10, 96), (S11, 104)]"

lemma context_switch_split:
  "context_switch_asm = saves A0 ctx_slots @ [CSRR T0 Sstatus, SD T0 120 A0] @
     loads A1 (ctx_slots @ [(A0, 112), (T0, 120)]) @ [CSRW Sstatus T0, RET]"
  by (simp add: context_switch_asm_def ctx_slots_def)

text \<open>C28: the assembly of \<open>context_switch\<close> does what the model of the process table assumes of it: the
  callee-saved registers and \<open>sstatus\<close> go into the context at \<open>a0\<close>, those of the context at \<open>a1\<close> into the
  processor, and it returns to the new context's \<open>ra\<close>; no other memory is touched.\<close>

theorem context_switch_refines:
  assumes old: "mapped tr (csrs m Satp) (mem m) (regs m A0) p 128"
    and new: "\<forall>M. (\<forall>a. 128 \<le> a - p \<longrightarrow> M a = mem m a) \<longrightarrow> (\<forall>k < 128. tr (csrs m Satp) M (regs m A1 + k) = Some (q + k))"
    and disj: "\<forall>k < 128. 128 \<le> (q + k) - p"
  shows "\<exists>m'. exec tr context_switch_asm m = Jump (ctx_ra (ctx_at (mem m) q)) m' \<and>
    ctx_at (mem m') p = save_context m (ctx_at (mem m) p) \<and>
    m' = (load_context (ctx_at (mem m) q) m)\<lparr>mem := mem m'\<rparr> \<and>
    (\<forall>a. 128 \<le> a - p \<longrightarrow> mem m' a = mem m a)"
proof -
  define M1 where "M1 = store_all p ctx_slots (regs m) (mem m)"
  define M2 where "M2 = M1(p + 120 := csrs m Sstatus)"
  have lt: "\<forall>k \<in> snd ` set ctx_slots. k < 128" by (simp add: ctx_slots_def)
  have e1: "exec tr (saves A0 ctx_slots) m = Next (m\<lparr>mem := M1\<rparr>)"
    using exec_saves [OF old lt] by (simp add: M1_def)
  have map1: "mapped tr (csrs m Satp) M1 (regs m A0) p 128" unfolding M1_def by (rule mapped_store_all [OF old lt])
  let ?m2 = "m\<lparr>mem := M2, regs := (regs m)(T0 := csrs m Sstatus)\<rparr>"
  have e2: "exec tr [CSRR T0 Sstatus, SD T0 120 A0] (m\<lparr>mem := M1\<rparr>) = Next ?m2"
    using mappedD [OF map1, of 120] by (simp add: step_simps M2_def)
  have other: "M2 a = mem m a" if "128 \<le> a - p" for a
  proof -
    have ne: "a \<noteq> p + k" if "k < 128" for k
      using that \<open>128 \<le> a - p\<close> by (metis add_diff_cancel_left' linorder_not_less)
    then have "M1 a = mem m a" unfolding M1_def using lt by (intro store_all_other) blast
    then show ?thesis using ne [of 120] by (simp add: M2_def)
  qed
  have qM: "M2 (q + k) = mem m (q + k)" if "k < 128" for k using other disj that by blast
  have q0: "M2 q = mem m q" using qM [of 0] by simp
  let ?xs = "ctx_slots @ [(A0, 112), (T0, 120)]"
  let ?m3 = "?m2\<lparr>regs := load_all q ?xs M2 (regs ?m2)\<rparr>"
  have "tr (csrs m Satp) M2 (regs m A1 + k) = Some (q + k)" if "k < 128" for k using new other that by blast
  moreover have "\<forall>k \<in> snd ` set ?xs. k < 128" using lt by simp
  ultimately have t: "\<forall>k \<in> snd ` set ?xs. tr (csrs ?m2 Satp) (mem ?m2) (regs ?m2 A1 + k) = Some (q + k)" by simp
  have "\<forall>(r, k) \<in> set ?xs. r = A1 \<longrightarrow> mem ?m2 (q + k) = regs ?m2 A1" by (simp add: ctx_slots_def)
  then have e3: "exec tr (loads A1 ?xs) ?m2 = Next ?m3" using exec_loads [of ?xs tr ?m2 A1 q, OF t] by simp
  let ?m4 = "?m3\<lparr>csrs := (csrs m)(Sstatus := M2 (q + 120))\<rparr>"
  have e4: "exec tr [CSRW Sstatus T0, RET] ?m3 = Jump (M2 q) ?m4"
    by (simp add: step_simps ctx_slots_def)
  have "exec tr context_switch_asm m = Jump (ctx_ra (ctx_at (mem m) q)) ?m4"
    unfolding context_switch_split exec_Next [OF e1] exec_Next [OF e2] exec_Next [OF e3] e4
    using q0 by (simp add: ctx_at_def)
  moreover have "ctx_at (mem ?m4) p = save_context m (ctx_at (mem m) p)"
    by (simp add: M2_def M1_def ctx_slots_def ctx_at_def save_context_def)
  moreover have "?m4 = (load_context (ctx_at (mem m) q) m)\<lparr>mem := mem ?m4\<rparr>"
    using q0 by (simp add: qM load_context_def ctx_at_def ctx_slots_def fun_upd_twist)
  ultimately show ?thesis using other by (intro exI [of _ ?m4]) simp
qed

section \<open>Traps from supervisor mode\<close>

definition kernel_slots :: "(Reg \<times> usize) list" where
  "kernel_slots = [(Ra, 0), (Sp, 8), (Gp, 16), (Tp, 24), (T0, 32), (T1, 40), (T2, 48), (S0, 56), (S1, 64), (A0, 72),
     (A1, 80), (A2, 88), (A3, 96), (A4, 104), (A5, 112), (A6, 120), (A7, 128), (S2, 136), (S3, 144), (S4, 152),
     (S5, 160), (S6, 168), (S7, 176), (S8, 184), (S9, 192), (S10, 200), (S11, 208), (T3, 216), (T4, 224), (T5, 232),
     (T6, 240)]"

abbreviation restored_slots :: "(Reg \<times> usize) list" where
  "restored_slots \<equiv> filter (\<lambda>x. fst x \<noteq> Tp) kernel_slots"

lemma kernelvec_split:
  "kernelvec_entry = [ADDI Sp Sp (- 256)] @ saves Sp kernel_slots"
  "kernelvec_exit = loads Sp restored_slots @ [ADDI Sp Sp 256, SRET]"
  by (simp_all add: kernelvec_entry_def kernelvec_exit_def kernel_slots_def)

lemma kernel_slots_facts:
  "distinct (map fst kernel_slots)" "distinct (map snd kernel_slots)" "\<forall>k \<in> snd ` set kernel_slots. k < 256"
  by (simp_all add: kernel_slots_def)

lemma kernel_slots_all: "\<exists>k. (r, k) \<in> set kernel_slots"
  by (cases r) (simp_all add: kernel_slots_def)


section \<open>The timer interrupt\<close>

text \<open>The machine-mode timer interrupt moves \<open>mtimecmp\<close> on by the interval in the scratch area, raises the
  supervisor software interrupt and returns with every register and \<open>mscratch\<close> as they were; apart
  from \<open>mtimecmp\<close> it writes only its three scratch words.\<close>

theorem timervec_ticks:
  assumes phys: "\<forall>M a. tr (csrs m Satp) M a = Some a"
    and sc: "sc = csrs m Mscratch" "c = mem m (sc + 24)" "40 \<le> c - sc"
  shows "\<exists>m'. exec tr timervec m = Jump (csrs m Mepc) m' \<and> regs m' = regs m \<and>
    mem m' c = mem m c + mem m (sc + 32) \<and> csrs m' Sip = 2 \<and> csrs m' Mscratch = csrs m Mscratch \<and>
    (\<forall>a. a \<notin> {c, sc, sc + 8, sc + 16} \<longrightarrow> mem m' a = mem m a)"
proof -
  have ne: "c \<noteq> sc + k" if "k < 40" for k
    using that sc(3) by (metis add_diff_cancel_left' linorder_not_less)
  have c: "c \<noteq> sc" "sc \<noteq> c" "c \<noteq> sc + 8" "sc + 8 \<noteq> c" "c \<noteq> sc + 16" "sc + 16 \<noteq> c" "sc + 24 \<noteq> c" "sc + 32 \<noteq> c"
    using ne [of 0] ne [of 8] ne [of 16] ne [of 24] ne [of 32] by auto
  have p: "tr (csrs m Satp) M a = Some a" for M a using phys by blast
  show ?thesis
    by (simp add: timervec_def step_simps p sc(1) [symmetric] sc(2) [symmetric] c fun_upd_def fun_eq_iff)
qed

section \<open>Concrete runs\<close>

text \<open>A translation that moves one block, and a machine with distinct registers.\<close>

definition tr_move :: "usize \<Rightarrow> usize \<Rightarrow> translation" where
  "tr_move v p = (\<lambda>satp M a. Some (a - v + p))"

lemma mapped_move: "mapped (tr_move v p) satp M v p n"
  by (simp add: mapped_def tr_move_def)

definition cpu0 :: machine where
  "cpu0 = machine0\<lparr>regs := (\<lambda>r. 1000 + reg_offset r), csrs := (\<lambda>_. 7)(Sscratch := TRAPFRAME, Sepc := 0x4000),
     mem := (\<lambda>a. a + 1)\<rparr>"

lemma cpu0_fields [simp]:
  "csrs cpu0 Satp = 7" "csrs cpu0 Sscratch = TRAPFRAME" "csrs cpu0 Sepc = 0x4000" "mem cpu0 a = a + 1"
  by (simp_all add: cpu0_def)

theorem user_trap_roundtrip_witness:
  "\<exists>k. exec (tr_move TRAPFRAME 0x80020000) uservec cpu0 = Jump 0x80020011 k \<and> regs k Sp = 0x80020009 \<and>
     (\<exists>u. exec (tr_move TRAPFRAME 0x80020000) userret
        (k\<lparr>regs := (regs k)(A0 := TRAPFRAME, A1 := 7), mem := (mem k)(0x80020000 + 112 := 42)\<rparr>) = Jump 0x4000 u \<and>
       regs u = (regs cpu0)(A0 := 42))"
proof -
  let ?tr = "tr_move TRAPFRAME 0x80020000"
  have map: "mapped ?tr satp M TRAPFRAME 0x80020000 0x1000" for satp M by (rule mapped_move)
  obtain k' where k': "exec ?tr uservec cpu0 = Jump (tf_get 0x80020000 TF_kernel_trap cpu0) k'" "csrs k' Sepc = 0x4000"
    using uservec_saves [OF map, of cpu0] by auto
  obtain k where k: "exec ?tr uservec cpu0 = Jump (tf_get 0x80020000 TF_kernel_trap cpu0) k"
    "regs k Sp = tf_get 0x80020000 TF_kernel_sp cpu0"
    "\<And>n x. mapped ?tr (csrs cpu0 Satp) (mem n) TRAPFRAME 0x80020000 0x1000 \<Longrightarrow> regs n A0 = TRAPFRAME \<Longrightarrow>
       regs n A1 = csrs cpu0 Satp \<Longrightarrow>
       \<forall>r. tf_get 0x80020000 (TF_reg r) n = (if r = A0 then x else tf_get 0x80020000 (TF_reg r) k) \<Longrightarrow>
       \<exists>u. exec ?tr userret n = Jump (csrs n Sepc) u \<and> regs u = (regs cpu0)(A0 := x)"
    using user_trap_roundtrip [OF map cpu0_fields(2)] by metis
  let ?n = "k\<lparr>regs := (regs k)(A0 := TRAPFRAME, A1 := 7), mem := (mem k)(0x80020000 + 112 := 42)\<rparr>"
  have "\<forall>r. tf_get 0x80020000 (TF_reg r) ?n = (if r = A0 then 42 else tf_get 0x80020000 (TF_reg r) k)"
    using reg_offset_A0 by (simp add: tf_get_def)
  from k(3) [OF map _ _ this] obtain u where "exec ?tr userret ?n = Jump (csrs ?n Sepc) u" "regs u = (regs cpu0)(A0 := 42)"
    by auto
  moreover have "csrs ?n Sepc = 0x4000" using k' k(1) by simp
  ultimately show ?thesis using k(1,2) by (intro exI [of _ k]) (simp add: tf_get_def)
qed

theorem context_switch_refines_witness:
  "\<exists>m'. exec (\<lambda>_ _ a. Some a) context_switch_asm (cpu0\<lparr>regs := (regs cpu0)(A0 := 0x1000, A1 := 0x2000)\<rparr>) = Jump 0x2001 m' \<and>
     regs m' Sp = 0x2009 \<and> mem m' 0x1008 = 1048"
proof -
  have k: "\<forall>k < 128. 128 \<le> ((0x2000 :: usize) + k) - 0x1000"
    unfolding word_less_nat_alt word_le_nat_alt by (auto simp: unat_word_ariths)
  from context_switch_refines [of "\<lambda>_ _ a. Some a" "cpu0\<lparr>regs := (regs cpu0)(A0 := 0x1000, A1 := 0x2000)\<rparr>" "0x1000" "0x2000"] k
  obtain m' where "exec (\<lambda>_ _ a. Some a) context_switch_asm (cpu0\<lparr>regs := (regs cpu0)(A0 := 0x1000, A1 := 0x2000)\<rparr>) =
      Jump (ctx_ra (ctx_at (mem cpu0) 0x2000)) m'"
    "ctx_at (mem m') 0x1000 = save_context (cpu0\<lparr>regs := (regs cpu0)(A0 := 0x1000, A1 := 0x2000)\<rparr>) (ctx_at (mem cpu0) 0x1000)"
    "regs m' = regs (load_context (ctx_at (mem cpu0) 0x2000) (cpu0\<lparr>regs := (regs cpu0)(A0 := 0x1000, A1 := 0x2000)\<rparr>))"
    by (auto simp: mapped_def dest!: arg_cong [of _ _ regs])
  then show ?thesis
    by (auto simp: ctx_at_def save_context_def load_context_def cpu0_def)
qed


theorem timervec_ticks_witness:
  "\<exists>m'. exec (\<lambda>_ _ a. Some a) timervec (cpu0\<lparr>csrs := (csrs cpu0)(Mscratch := 0x5000),
       mem := (mem cpu0)(0x5018 := 0x2004000, 0x5020 := 100000)\<rparr>) = Jump 7 m' \<and>
     regs m' = regs cpu0 \<and> mem m' 0x2004000 = 0x2004001 + 100000"
  using timervec_ticks [of "\<lambda>_ _ a. Some a" "cpu0\<lparr>csrs := (csrs cpu0)(Mscratch := 0x5000),
       mem := (mem cpu0)(0x5018 := 0x2004000, 0x5020 := 100000)\<rparr>" "0x5000" "0x2004000"]
  by (auto simp: cpu0_def)

end
