(* ===== verification/Fat.thy ===== *)
theory Fat
  imports Process
begin

text \<open>
  The FAT32 file system (\<open>src/src/fs/fat.rs\<close>) on a disk, the implementation of the trait \<open>Disk\<close> it is
  given (a parameter): the directory search, the cluster chains and the reading of files.

  Buffers are lists of bytes. Memory safety is checked: an access beyond the end of a buffer, which the
  source makes through a raw pointer, ends in \<open>Panic\<close>, as do the source's own panics. Strings are
  lists of the characters up to U+00FF, all that the code builds strings from.
\<close>

section \<open>Data\<close>

record disk =
  dk_read :: "usize \<Rightarrow> u8 list"
  dk_sector_size :: usize

datatype Error = Msg string | FileNotOpen | FileNotExist | UnknownOption

record DirEntry =
  file_name :: "u8 list"
  de_attr :: u8
  creation_time_sec :: u8
  creation_time :: u16
  creation_date :: u16
  last_access_date :: u16
  first_cluster_high :: u16
  last_mod_time :: u16
  last_mod_date :: u16
  first_cluster_low :: u16
  de_size :: u32

record LFNEntry =
  lfn_order :: u8
  name1 :: "u16 list"
  lfn_attr :: u8
  lfn_type :: u8
  lfn_checksum :: u8
  name2 :: "u16 list"
  name3 :: "u16 list"

record Fat32BootSector =
  BPB_BytsPerSec :: u16
  BPB_SecPerClus :: u8
  BPB_RsvdSecCnt :: u16
  BPB_NumFATs :: u8
  BPB_RootEntCnt :: u16
  BPB_TotSec16 :: u16
  BPB_FATSz16 :: u16
  BPB_TotSec32 :: u32
  BPB_FATSz32 :: u32
  BPB_RootClus :: u32

record Fat32 =
  f_buffer :: "u8 list"
  fat_begin :: u32
  cluster_begin :: u32
  sectors_per_cluster :: u8
  root_dir_first_cluster :: u32
  sector_size :: u32
  f_sid :: usize

section \<open>Bytes\<close>

text \<open>Little-endian fields at an offset (\<open>repr(C, packed)\<close>).\<close>

fun le_val :: "u8 list \<Rightarrow> nat" where
  "le_val [] = 0"
| "le_val (b # bs) = unat b + 256 * le_val bs"

definition bytes_at :: "nat \<Rightarrow> nat \<Rightarrow> u8 list \<Rightarrow> u8 list" where
  "bytes_at k n bs = take n (drop k bs)"

definition u8_at :: "nat \<Rightarrow> u8 list \<Rightarrow> u8" where
  "u8_at k bs = of_nat (le_val (bytes_at k 1 bs))"

definition u16_at :: "nat \<Rightarrow> u8 list \<Rightarrow> u16" where
  "u16_at k bs = of_nat (le_val (bytes_at k 2 bs))"

definition u32_at :: "nat \<Rightarrow> u8 list \<Rightarrow> u32" where
  "u32_at k bs = of_nat (le_val (bytes_at k 4 bs))"

definition as_DirEntry :: "u8 list \<Rightarrow> DirEntry" where
  "as_DirEntry e = \<lparr>file_name = bytes_at 0 11 e, de_attr = u8_at 11 e, creation_time_sec = u8_at 13 e,
     creation_time = u16_at 14 e, creation_date = u16_at 16 e, last_access_date = u16_at 18 e,
     first_cluster_high = u16_at 20 e, last_mod_time = u16_at 22 e, last_mod_date = u16_at 24 e,
     first_cluster_low = u16_at 26 e, de_size = u32_at 28 e\<rparr>"

definition as_LFNEntry :: "u8 list \<Rightarrow> LFNEntry" where
  "as_LFNEntry e = \<lparr>lfn_order = u8_at 0 e, name1 = map (\<lambda>i. u16_at (1 + 2 * i) e) [0..<5], lfn_attr = u8_at 11 e,
     lfn_type = u8_at 12 e, lfn_checksum = u8_at 13 e, name2 = map (\<lambda>i. u16_at (14 + 2 * i) e) [0..<6],
     name3 = map (\<lambda>i. u16_at (28 + 2 * i) e) [0..<2]\<rparr>"

definition as_BootSector :: "u8 list \<Rightarrow> Fat32BootSector" where
  "as_BootSector bs = \<lparr>BPB_BytsPerSec = u16_at 11 bs, BPB_SecPerClus = u8_at 13 bs, BPB_RsvdSecCnt = u16_at 14 bs,
     BPB_NumFATs = u8_at 16 bs, BPB_RootEntCnt = u16_at 17 bs, BPB_TotSec16 = u16_at 19 bs,
     BPB_FATSz16 = u16_at 22 bs, BPB_TotSec32 = u32_at 32 bs, BPB_FATSz32 = u32_at 36 bs,
     BPB_RootClus = u32_at 44 bs\<rparr>"

section \<open>Names\<close>

text \<open>\<open>u8 as char\<close>, \<open>char::is_whitespace\<close> and \<open>str::to_uppercase\<close> on the characters up to U+00FF. The upper
  case of \<open>\<mu>\<close> and of \<open>y\<close> with diaeresis lies beyond (\<open>None\<close>), that of sharp s is \<open>SS\<close>.\<close>

definition as_char :: "u8 \<Rightarrow> char" where
  "as_char b = char_of (unat b)"

definition is_whitespace :: "char \<Rightarrow> bool" where
  "is_whitespace c = (of_char c \<in> ({9, 10, 11, 12, 13, 32, 0x85, 0xa0} :: nat set))"

definition char_upper :: "char \<Rightarrow> string option" where
  "char_upper c =
     (let n = of_char c :: nat
      in if 97 \<le> n \<and> n \<le> 122 \<or> 0xe0 \<le> n \<and> n \<le> 0xfe \<and> n \<noteq> 0xf7 then Some [char_of (n - 32)]
         else if n = 0xdf then Some ''SS''
         else if n = 0xb5 \<or> n = 0xff then None
         else Some [c])"

fun to_uppercase :: "string \<Rightarrow> string option" where
  "to_uppercase [] = Some []"
| "to_uppercase (c # cs) =
     (case (char_upper c, to_uppercase cs) of (Some u, Some us) \<Rightarrow> Some (u @ us) | _ \<Rightarrow> None)"

text \<open>The three loops of \<open>lfn_to_string\<close> have the same body.\<close>

fun lfn_chars :: "u16 list \<Rightarrow> string" where
  "lfn_chars [] = []"
| "lfn_chars (ch # chs) =
     (if ch = 0xffff then lfn_chars chs
      else if ch = 0 then lfn_chars chs
      else if is_whitespace (as_char (ucast ch)) then lfn_chars chs
      else as_char (ucast ch) # lfn_chars chs)"

definition lfn_to_string :: "LFNEntry \<Rightarrow> string" where
  "lfn_to_string lfn = lfn_chars (name1 lfn) @ lfn_chars (name2 lfn) @ lfn_chars (name3 lfn)"

definition dir_entry_name :: "DirEntry \<Rightarrow> string" where
  "dir_entry_name entry =
     (let res = filter (\<lambda>c. \<not> is_whitespace c) (map as_char (take 8 (file_name entry)));
          ext = filter (\<lambda>c. \<not> is_whitespace c) (map as_char (bytes_at 8 3 (file_name entry)))
      in if length ext = 0 then res else res @ ''.'' @ ext)"

section \<open>Sectors and clusters\<close>

type_synonym ('a, 's) fat_res = "(Error, 'a) result \<times> 's"

text \<open>\<open>disk.read_sector(sector, buffer)\<close> fills the front of the buffer.\<close>

definition disk_read :: "disk \<Rightarrow> usize \<Rightarrow> u8 list \<Rightarrow> ('e, u8 list) result" where
  "disk_read d sector buf =
     (let data = dk_read d sector
      in if length buf < length data then Panic ''write beyond the buffer'' else Ok (data @ drop (length data) buf))"

fun read_sectors :: "disk \<Rightarrow> usize \<Rightarrow> nat \<Rightarrow> nat \<Rightarrow> u8 list \<Rightarrow> ('e, u8 list) result" where
  "read_sectors d sector i 0 buf = Ok buf"
| "read_sectors d sector i (Suc n) buf =
     (case disk_read d (sector + of_nat i) buf of
        Ok buf' \<Rightarrow> read_sectors d sector (Suc i) n buf' | Err e \<Rightarrow> Err e | Panic m \<Rightarrow> Panic m)"

text \<open>\<open>Fat32::read_sector\<close>: every disk sector of a file-system sector goes to the front of the same buffer.\<close>

definition read_sector :: "disk \<Rightarrow> Fat32 \<Rightarrow> u32 \<Rightarrow> u8 list \<Rightarrow> ('e, u8 list) result" where
  "read_sector d f sector_num buf =
     (if dk_sector_size d = 0 then Panic ''division by zero''
      else read_sectors d (ucast sector_num) 0 (unat (ucast (sector_size f) div dk_sector_size d)) buf)"

definition sector_of_cluster :: "Fat32 \<Rightarrow> u32 \<Rightarrow> u32" where
  "sector_of_cluster f cluster_num = ((cluster_num - 2) * ucast (sectors_per_cluster f)) + cluster_begin f"

fun read_cluster_loop :: "disk \<Rightarrow> Fat32 \<Rightarrow> u32 \<Rightarrow> nat \<Rightarrow> nat \<Rightarrow> u8 list \<Rightarrow> ('e, u8 list) result" where
  "read_cluster_loop d f first_sector i 0 buf = Ok buf"
| "read_cluster_loop d f first_sector i (Suc n) buf =
     (let start = unat (of_nat i * sector_size f)
      in if length buf < start then Panic ''slice index out of range''
         else case read_sector d f (first_sector + of_nat i) (drop start buf) of
                Ok tail \<Rightarrow> read_cluster_loop d f first_sector (Suc i) n (take start buf @ tail)
              | Err e \<Rightarrow> Err e
              | Panic m \<Rightarrow> Panic m)"

definition read_cluster :: "disk \<Rightarrow> Fat32 \<Rightarrow> u32 \<Rightarrow> u8 list \<Rightarrow> ('e, u8 list) result" where
  "read_cluster d f cluster_num buf =
     read_cluster_loop d f (sector_of_cluster f cluster_num) 0 (unat (sectors_per_cluster f)) buf"

text \<open>\<open>next_cluster\<close>: the entry of the file allocation table, read through the volume's own buffer.\<close>

definition next_cluster :: "disk \<Rightarrow> u32 \<Rightarrow> Fat32 \<Rightarrow> ('e, u32 option) result \<times> Fat32" where
  "next_cluster d cluster_num f =
     (if sector_size f = 0 then (Panic ''division by zero'', f)
      else let fat_offset = cluster_num * 4;
               fat_sector = fat_begin f + fat_offset div sector_size f;
               ent_offset = unat (fat_offset mod sector_size f)
           in case disk_read d (ucast fat_sector) (f_buffer f) of
                Err e \<Rightarrow> (Err e, f)
              | Panic m \<Rightarrow> (Panic m, f)
              | Ok buf \<Rightarrow>
                  (let f' = f\<lparr>f_buffer := buf\<rparr>;
                       table_value = u32_at ent_offset buf AND 0x0FFFFFFF
                   in if length buf < ent_offset + 4 then (Panic ''read beyond the buffer'', f')
                      else if table_value \<ge> 0x0FFFFFF8 then (Ok None, f')
                      else if table_value = 0x0FFFFFF7 then (Panic ''bad cluster'', f')
                      else (Ok (Some table_value), f')))"

section \<open>Directories\<close>

definition is_end :: "u8 list \<Rightarrow> bool" where
  "is_end e \<longleftrightarrow> u8_at 0 e = 0"

definition is_lfn :: "u8 list \<Rightarrow> bool" where
  "is_lfn e \<longleftrightarrow> u8_at 11 e = 0x0F"

text \<open>The buffer, the index in it and the cluster it holds; \<open>advance\<close> goes on to the next entry, into the
  next cluster after the sixteenth (\<open>None\<close> when the chain has ended).\<close>

type_synonym cursor = "u8 list \<times> nat \<times> u32"

definition entry_of :: "cursor \<Rightarrow> u8 list" where
  "entry_of c = (case c of (buf, idx, _) \<Rightarrow> bytes_at (32 * idx) 32 buf)"

definition advance :: "disk \<Rightarrow> cursor \<Rightarrow> Fat32 \<Rightarrow> ('e, cursor option) result \<times> Fat32" where
  "advance d c f =
     (case c of (buf, idx, dir_cluster) \<Rightarrow>
        if idx + 1 \<ge> 16 then
          and_then (next_cluster d dir_cluster f) (\<lambda>nxt f'.
            case nxt of
              None \<Rightarrow> (Ok None, f')
            | Some cluster \<Rightarrow>
                (case read_cluster d f' cluster buf of
                   Ok buf' \<Rightarrow> (Ok (Some (buf', (idx + 1) mod 16, cluster)), f')
                 | Err e \<Rightarrow> (Err e, f')
                 | Panic m \<Rightarrow> (Panic m, f')))
        else (Ok (Some (buf, idx + 1, dir_cluster)), f))"

definition name_matches :: "string \<Rightarrow> u8 list \<Rightarrow> bool" where
  "name_matches name e \<longleftrightarrow> to_uppercase name = Some (dir_entry_name (as_DirEntry e))"

text \<open>The loop of \<open>find_file\<close>, with fuel for its iterations.\<close>

fun find_loop :: "nat \<Rightarrow> disk \<Rightarrow> string \<Rightarrow> cursor \<Rightarrow> Fat32 \<Rightarrow> ('e, DirEntry option) result \<times> Fat32" where
  "find_loop 0 d name c f = (Panic ''out of fuel'', f)"
| "find_loop (Suc n) d name c f =
     (if is_end (entry_of c) then (Ok None, f)
      else if is_lfn (entry_of c) then
        (let found = lfn_to_string (as_LFNEntry (entry_of c)) = name
         in and_then (advance d c f) (\<lambda>c' f'.
              case c' of
                None \<Rightarrow> (Ok None, f')
              | Some c' \<Rightarrow>
                  if found \<or> name_matches name (entry_of c') then (Ok (Some (as_DirEntry (entry_of c'))), f')
                  else and_then (advance d c' f') (\<lambda>c'' f''.
                         case c'' of None \<Rightarrow> (Ok None, f'') | Some c'' \<Rightarrow> find_loop n d name c'' f'')))
      else if name_matches name (entry_of c) then (Ok (Some (as_DirEntry (entry_of c))), f)
      else and_then (advance d c f) (\<lambda>c' f'.
             case c' of None \<Rightarrow> (Ok None, f') | Some c' \<Rightarrow> find_loop n d name c' f'))"

text \<open>\<open>find_file\<close>: its 512-byte buffer comes from the heap and is given back on every way out.\<close>

definition find_file ::
  "nat \<Rightarrow> disk \<Rightarrow> u32 \<Rightarrow> string \<Rightarrow> Fat32 \<times> machine \<Rightarrow> ('e, DirEntry option) result \<times> (Fat32 \<times> machine)" where
  "find_file n d dir_cluster name s =
     (case s of (f, m) \<Rightarrow>
        case alloc_zeroed (512, 8) m of (buffer, m1) \<Rightarrow>
          if buffer = 0 then (Panic ''null buffer'', (f, m1))
          else case read_cluster d f dir_cluster (replicate 512 0) of
                 Err e \<Rightarrow> (Err e, (f, m1))
               | Panic msg \<Rightarrow> (Panic msg, (f, m1))
               | Ok buf \<Rightarrow>
                   (case find_loop n d name (buf, 0, dir_cluster) f of
                      (Ok r, f') \<Rightarrow> (Ok r, (f', dealloc buffer (512, 8) m1))
                    | (Err e, f') \<Rightarrow> (Err e, (f', m1))
                    | (Panic msg, f') \<Rightarrow> (Panic msg, (f', m1))))"

definition first_cluster :: "DirEntry \<Rightarrow> u32" where
  "first_cluster entry = push_bit 16 (ucast (first_cluster_high entry)) OR ucast (first_cluster_low entry)"

text \<open>\<open>path.split('/')\<close>.\<close>

fun split_path :: "string \<Rightarrow> string list" where
  "split_path [] = [[]]"
| "split_path (c # cs) =
     (if c = CHR ''/'' then [] # split_path cs
      else case split_path cs of [] \<Rightarrow> [[c]] | w # ws \<Rightarrow> (c # w) # ws)"

fun walk_path ::
  "nat \<Rightarrow> disk \<Rightarrow> string list \<Rightarrow> u32 \<Rightarrow> DirEntry option \<Rightarrow> Fat32 \<times> machine \<Rightarrow>
   ('e, DirEntry option) result \<times> (Fat32 \<times> machine)" where
  "walk_path n d [] cluster curr_entry s = (Ok curr_entry, s)"
| "walk_path n d (name # names) cluster curr_entry s =
     (if length name = 0 then walk_path n d names cluster curr_entry s
      else and_then (find_file n d cluster name s) (\<lambda>r s'.
             case r of
               None \<Rightarrow> (Ok None, s')
             | Some entry \<Rightarrow> walk_path n d names (first_cluster entry) (Some entry) s'))"

definition get_entry_from_path ::
  "nat \<Rightarrow> disk \<Rightarrow> string \<Rightarrow> Fat32 \<times> machine \<Rightarrow> ('e, DirEntry option) result \<times> (Fat32 \<times> machine)" where
  "get_entry_from_path n d path s = walk_path n d (split_path path) (root_dir_first_cluster (fst s)) None s"

section \<open>Files\<close>

text \<open>\<open>ok_or(Error::Msg(..))?\<close>.\<close>

definition entry_or_error ::
  "nat \<Rightarrow> disk \<Rightarrow> string \<Rightarrow> Fat32 \<times> machine \<Rightarrow> (Error, DirEntry) result \<times> (Fat32 \<times> machine)" where
  "entry_or_error n d path s =
     and_then (get_entry_from_path n d path s) (\<lambda>r s'.
       case r of None \<Rightarrow> (Err (Msg (''file does not exist: '' @ path)), s') | Some entry \<Rightarrow> (Ok entry, s'))"

definition fat_file_size ::
  "nat \<Rightarrow> disk \<Rightarrow> string \<Rightarrow> Fat32 \<times> machine \<Rightarrow> (Error, usize) result \<times> (Fat32 \<times> machine)" where
  "fat_file_size n d path s = and_then (entry_or_error n d path s) (\<lambda>entry s'. (Ok (ucast (de_size entry)), s'))"

text \<open>The loop of \<open>read_at\<close>, with fuel for its iterations. It ends by filling the buffer (\<open>True\<close>) or by
  reaching the end of the chain.\<close>

fun read_loop ::
  "nat \<Rightarrow> disk \<Rightarrow> nat \<Rightarrow> u32 \<Rightarrow> u8 list \<Rightarrow> u32 \<Rightarrow> u32 \<Rightarrow> u32 \<Rightarrow> u8 list \<Rightarrow> Fat32 \<Rightarrow>
   ('e, bool \<times> nat \<times> u8 list) result \<times> Fat32" where
  "read_loop 0 d read_bytes cluster tmp offset_cluster offset_byte read_clusters buffer f = (Panic ''out of fuel'', f)"
| "read_loop (Suc n) d read_bytes cluster tmp offset_cluster offset_byte read_clusters buffer f =
     (if \<not> read_bytes < length buffer then (Ok (True, read_bytes, buffer), f)
      else if read_clusters < offset_cluster then
        and_then (next_cluster d cluster f) (\<lambda>nxt f'.
          case nxt of
            None \<Rightarrow> (Ok (False, read_bytes, buffer), f')
          | Some clus_num \<Rightarrow>
              read_loop n d read_bytes clus_num tmp offset_cluster offset_byte (read_clusters + 1) buffer f')
      else
        (case read_cluster d f cluster tmp of
           Err e \<Rightarrow> (Err e, f)
         | Panic m \<Rightarrow> (Panic m, f)
         | Ok tmp' \<Rightarrow>
             (let cluster_size = sector_size f * ucast (sectors_per_cluster f);
                  cnt = min (unat (cluster_size - offset_byte)) (length buffer - read_bytes);
                  buffer' = take read_bytes buffer @ bytes_at (unat offset_byte) cnt tmp' @ drop (read_bytes + cnt) buffer
              in and_then (next_cluster d cluster f) (\<lambda>nxt f'.
                   case nxt of
                     None \<Rightarrow> (Ok (False, read_bytes + cnt, buffer'), f')
                   | Some clus_num \<Rightarrow>
                       read_loop n d (read_bytes + cnt) clus_num tmp' offset_cluster 0 (read_clusters + 1) buffer' f'))))"

text \<open>\<open>read_at\<close>: every iteration skips a cluster or copies at least a byte, so the fuel is the number of
  both. The temporary buffer is given back only when the loop has filled the caller's buffer.\<close>

definition fat_read_at ::
  "nat \<Rightarrow> disk \<Rightarrow> u8 list \<Rightarrow> string \<Rightarrow> usize \<Rightarrow> Fat32 \<times> machine \<Rightarrow>
   (Error, usize \<times> u8 list) result \<times> (Fat32 \<times> machine)" where
  "fat_read_at n d buffer path offset s =
     and_then (entry_or_error n d path s) (\<lambda>entry s'.
       case s' of (f, m) \<Rightarrow>
       let cluster_size = sector_size f * ucast (sectors_per_cluster f)
       in if cluster_size = 0 then (Panic ''division by zero'', (f, m))
          else let offset_cluster = ucast offset div cluster_size;
                   offset_byte = ucast offset mod cluster_size;
                   tmp_size = ucast (sector_size f) * ucast (sectors_per_cluster f)
               in case alloc_zeroed (tmp_size, 8) m of (tmp_buf, m1) \<Rightarrow>
                    if tmp_buf = 0 then (Panic ''null buffer'', (f, m1))
                    else case read_loop (unat offset_cluster + length buffer + 1) d 0 (first_cluster entry)
                                (replicate (unat cluster_size) 0) offset_cluster offset_byte 0 buffer f of
                           (Ok (filled, read_bytes, buffer'), f') \<Rightarrow>
                             (Ok (of_nat read_bytes, buffer'),
                              (f', if filled then dealloc tmp_buf (tmp_size, 8) m1 else m1))
                         | (Err e, f') \<Rightarrow> (Err e, (f', m1))
                         | (Panic msg, f') \<Rightarrow> (Panic msg, (f', m1)))"

section \<open>Start-up\<close>

definition read_bootsector :: "disk \<Rightarrow> Fat32 \<Rightarrow> ('e, unit) result \<times> Fat32" where
  "read_bootsector d f =
     (case disk_read d 0 (f_buffer f) of
        Ok buf \<Rightarrow> (Ok (), f\<lparr>f_buffer := buf\<rparr>) | Err e \<Rightarrow> (Err e, f) | Panic m \<Rightarrow> (Panic m, f))"

definition Fat32_new :: "(ProcessManager, ProcessError, Fat32) kop" where
  "Fat32_new =
     bind (create_semaphore 1) (\<lambda>sid.
     ret \<lparr>f_buffer = replicate 512 0, fat_begin = 0, cluster_begin = 0, sectors_per_cluster = 0,
          root_dir_first_cluster = 0, sector_size = 512, f_sid = sid\<rparr>)"

text \<open>The geometry \<open>init\<close> takes from the boot sector; volumes with few clusters (FAT12, FAT16) are refused.\<close>

definition set_geometry :: "Fat32BootSector \<Rightarrow> Fat32 \<Rightarrow> ('e, Fat32) result" where
  "set_geometry bs f =
     (if BPB_BytsPerSec bs = 0 \<or> BPB_SecPerClus bs = 0 then Panic ''division by zero''
      else
        let fat_start_sector = ucast (BPB_RsvdSecCnt bs) :: u32;
            fat_sectors = BPB_FATSz32 bs * ucast (BPB_NumFATs bs);
            root_dir_start_sector = fat_start_sector + fat_sectors;
            fatsz = if BPB_FATSz16 bs \<noteq> 0 then ucast (BPB_FATSz16 bs) else BPB_FATSz32 bs;
            totsec = if BPB_TotSec16 bs \<noteq> 0 then ucast (BPB_TotSec16 bs) else BPB_TotSec32 bs;
            root_dir_sectors = ((BPB_RootEntCnt bs * 32) + (BPB_BytsPerSec bs - 1)) div BPB_BytsPerSec bs;
            data_sec = totsec - (ucast (BPB_RsvdSecCnt bs) + ucast (BPB_NumFATs bs) * fatsz + ucast root_dir_sectors);
            count_of_clusters = data_sec div ucast (BPB_SecPerClus bs)
        in if count_of_clusters < 4085 then Panic ''not implemented''
           else if count_of_clusters < 65525 then Panic ''not implemented''
           else Ok (f\<lparr>fat_begin := ucast (BPB_RsvdSecCnt bs), cluster_begin := root_dir_start_sector,
                      sectors_per_cluster := BPB_SecPerClus bs, root_dir_first_cluster := BPB_RootClus bs,
                      sector_size := ucast (BPB_BytsPerSec bs)\<rparr>))"

definition Fat32_init :: "disk \<Rightarrow> Fat32 \<Rightarrow> (ProcessManager, ProcessError, Fat32) kop" where
  "Fat32_init d f =
     seq (expect ''process'' (wait_semaphore (f_sid f)))
    (bind (\<lambda>s. case read_bootsector d f of
                 (Ok u, f') \<Rightarrow> Done (set_geometry (as_BootSector (f_buffer f')) f') s
               | (Err e, f') \<Rightarrow> Done (Err e) s
               | (Panic m, f') \<Rightarrow> Done (Panic m) s) (\<lambda>f'.
     seq (expect ''process'' (signal_semaphore (f_sid f)))
         (ret f')))"

definition fat_init :: "disk \<Rightarrow> (ProcessManager, ProcessError, Fat32) kop" where
  "fat_init d = bind Fat32_new (Fat32_init d)"

end
