(* ===== verification/Fat_Props.thy ===== *)
theory Fat_Props
  imports Fat Kernel_Space
begin

text \<open>
  The FAT32 code against a specification on whole clusters: a directory or file is the list of the
  clusters of its chain in the allocation table; the search of a directory is a scan of its entries,
  a read is a piece of the concatenated clusters.
\<close>

section \<open>Volumes\<close>

text \<open>A disk with sectors of 512 bytes, and a volume on it with sectors of the same size.\<close>

definition vol_ok :: "disk \<Rightarrow> Fat32 \<Rightarrow> bool" where
  "vol_ok d f \<longleftrightarrow> dk_sector_size d = 512 \<and> (\<forall>s. length (dk_read d s) = 512) \<and> sector_size f = 512 \<and>
     sectors_per_cluster f \<noteq> 0 \<and> length (f_buffer f) = 512"

definition csize :: "Fat32 \<Rightarrow> nat" where
  "csize f = 512 * unat (sectors_per_cluster f)"

definition cluster_data :: "disk \<Rightarrow> Fat32 \<Rightarrow> u32 \<Rightarrow> u8 list" where
  "cluster_data d f c =
     concat (map (\<lambda>i. dk_read d (ucast (sector_of_cluster f c + of_nat i))) [0..<unat (sectors_per_cluster f)])"

definition fat_entry :: "disk \<Rightarrow> Fat32 \<Rightarrow> u32 \<Rightarrow> u32" where
  "fat_entry d f c =
     u32_at (unat ((c * 4) mod 512)) (dk_read d (ucast (fat_begin f + (c * 4) div 512))) AND 0x0FFFFFFF"

text \<open>The clusters of a chain, in order, up to its end.\<close>

fun chain :: "disk \<Rightarrow> Fat32 \<Rightarrow> u32 list \<Rightarrow> bool" where
  "chain d f [] = False"
| "chain d f [c] = (0x0FFFFFF8 \<le> fat_entry d f c)"
| "chain d f (c # c' # cs) = (fat_entry d f c = c' \<and> c' < 0x0FFFFFF7 \<and> chain d f (c' # cs))"

text \<open>The volume's own buffer plays no role in any of it.\<close>

lemma same_volume [simp]:
  "csize (f\<lparr>f_buffer := b\<rparr>) = csize f"
  "sector_of_cluster (f\<lparr>f_buffer := b\<rparr>) c = sector_of_cluster f c"
  "cluster_data d (f\<lparr>f_buffer := b\<rparr>) = cluster_data d f"
  "fat_entry d (f\<lparr>f_buffer := b\<rparr>) = fat_entry d f"
  by (auto simp: csize_def sector_of_cluster_def cluster_data_def fat_entry_def fun_eq_iff)

lemma chain_same [simp]: "chain d (f\<lparr>f_buffer := b\<rparr>) = chain d f"
proof (rule ext)
  fix cs show "chain d (f\<lparr>f_buffer := b\<rparr>) cs = chain d f cs"
    by (induction d f cs rule: chain.induct) simp_all
qed

lemma vol_okD:
  assumes "vol_ok d f"
  shows "dk_sector_size d = 512" "\<And>s. length (dk_read d s) = 512" "sector_size f = 512"
    "sectors_per_cluster f \<noteq> 0" "length (f_buffer f) = 512"
    "length b = 512 \<Longrightarrow> vol_ok d (f\<lparr>f_buffer := b\<rparr>)" "0 < csize f"
  using assms by (auto simp: vol_ok_def csize_def unat_gt_0)

lemma concat_const_length: "\<forall>x \<in> set xs. length x = n \<Longrightarrow> length (concat xs) = n * length xs"
  by (induction xs) auto

lemma length_cluster_data: "vol_ok d f \<Longrightarrow> length (cluster_data d f c) = csize f"
  unfolding cluster_data_def csize_def
  by (subst concat_const_length [where n = 512]) (auto simp: vol_okD(2))

lemma read_sector_eq:
  assumes "vol_ok d f" "512 \<le> length buf"
  shows "read_sector d f s buf = Ok (dk_read d (ucast s) @ drop 512 buf)"
proof -
  have "unat (ucast (sector_size f) div dk_sector_size d) = Suc 0" using vol_okD(1,3) [OF assms(1)] by simp
  then show ?thesis using assms(2) vol_okD(1,2) [OF assms(1)]
    by (simp add: read_sector_def disk_read_def Let_def)
qed

lemma read_cluster_loop_eq:
  assumes "vol_ok d f" "512 * (i + n) \<le> length buf" "i + n < 256"
  shows "read_cluster_loop d f s i n buf = (Ok (take (512 * i) buf @
    concat (map (\<lambda>i. dk_read d (ucast (s + of_nat i))) [i..<i + n]) @ drop (512 * (i + n)) buf) :: ('e, u8 list) result)"
  using assms(2,3)
proof (induction n arbitrary: i buf)
  case (Suc n)
  have "unat (of_nat i * sector_size f) = 512 * i"
    unfolding vol_okD(3) [OF assms(1)] using Suc.prems by (simp add: unat_word_ariths unat_of_nat)
  then have st: "unat (of_nat i * sector_size f) = 512 * i" "\<not> length buf < 512 * i" using Suc.prems by auto
  define r where "r = dk_read d (ucast (s + of_nat i))"
  have r: "length r = 512" unfolding r_def by (rule vol_okD(2) [OF assms(1)])
  have s: "read_sector d f (s + of_nat i) (drop (512 * i) buf) = (Ok (r @ drop (512 * i + 512) buf) :: ('e, u8 list) result)"
    by (subst read_sector_eq [OF assms(1)]) (use Suc.prems in \<open>simp_all add: r_def add.commute\<close>)
  let ?buf = "take (512 * i) buf @ r @ drop (512 * i + 512) buf"
  have len: "length ?buf = length buf" using r Suc.prems by simp
  have IH: "read_cluster_loop d f s (Suc i) n ?buf = (Ok (take (512 * Suc i) ?buf @
      concat (map (\<lambda>i. dk_read d (ucast (s + of_nat i))) [Suc i..<Suc i + n]) @ drop (512 * (Suc i + n)) ?buf) :: ('e, u8 list) result)"
    by (rule Suc.IH) (use Suc.prems len in auto)
  have t: "take (512 * Suc i) ?buf = take (512 * i) buf @ r" using r Suc.prems by (simp add: min_def)
  have dr: "drop (512 * (Suc i + n)) ?buf = drop (512 * (i + Suc n)) buf"
    using r Suc.prems by (simp add: min_def ac_simps)
  have up: "[i..<i + Suc n] = i # [Suc i..<Suc i + n]" by (simp add: upt_conv_Cons)
  show ?case using st s IH unfolding t dr up by (simp add: Let_def r_def del: upt_Suc)
qed simp

lemma read_cluster_eq:
  assumes "vol_ok d f" "csize f \<le> length buf"
  shows "read_cluster d f c buf = (Ok (cluster_data d f c @ drop (csize f) buf) :: ('e, u8 list) result)"
proof -
  have "unat (sectors_per_cluster f) < 256" using unsigned_less [of "sectors_per_cluster f"] by simp
  then show ?thesis
    using read_cluster_loop_eq [OF assms(1), of 0 "unat (sectors_per_cluster f)" buf, where ?'e = 'e] assms(2)
    by (simp add: read_cluster_def cluster_data_def csize_def)
qed

lemma fat_offset_bound: "unat (((c :: u32) * 4) mod 512) + 4 \<le> 512"
proof -
  have "unat ((c * 4) mod 512) = (unat c * 4 mod 2 ^ 32) mod 512" by (simp add: unat_mod unat_word_ariths)
  also have "\<dots> = (unat c * 4) mod 512" by (rule mod_mod_cancel) simp
  also have "\<dots> = 4 * (unat c mod 128)" using mult_mod_right [of 4 "unat c" 128] by (simp add: mult.commute)
  finally show ?thesis using mod_less_divisor [of 128 "unat c"] by linarith
qed

lemma next_cluster_eq:
  assumes "vol_ok d f"
  shows "\<exists>b. length b = 512 \<and> (next_cluster d c f :: ('e, u32 option) result \<times> Fat32) =
    (if 0x0FFFFFF8 \<le> fat_entry d f c then Ok None
     else if fat_entry d f c = 0x0FFFFFF7 then Panic ''bad cluster'' else Ok (Some (fat_entry d f c)), f\<lparr>f_buffer := b\<rparr>)"
proof -
  let ?b = "dk_read d (ucast (fat_begin f + (c * 4) div 512))"
  have b: "length ?b = 512" by (rule vol_okD(2) [OF assms])
  have "\<not> length ?b < unat ((c * 4) mod 512) + 4" using fat_offset_bound [of c] b by simp
  then show ?thesis
    using b vol_okD(3,5) [OF assms]
    by (intro exI [of _ ?b]) (simp add: next_cluster_def disk_read_def Let_def fat_entry_def)
qed

lemma chain_next:
  assumes "vol_ok d f" "chain d f (c # cs)"
  shows "\<exists>b. length b = 512 \<and> (next_cluster d c f :: ('e, u32 option) result \<times> Fat32) =
    (Ok (case cs of [] \<Rightarrow> None | c' # _ \<Rightarrow> Some c'), f\<lparr>f_buffer := b\<rparr>)"
proof -
  obtain b where b: "length b = 512" "(next_cluster d c f :: ('e, u32 option) result \<times> Fat32) =
    (if 0x0FFFFFF8 \<le> fat_entry d f c then Ok None
     else if fat_entry d f c = 0x0FFFFFF7 then Panic ''bad cluster'' else Ok (Some (fat_entry d f c)), f\<lparr>f_buffer := b\<rparr>)"
    using next_cluster_eq [OF assms(1)] by blast
  then show ?thesis using assms(2) by (cases cs) (auto intro!: exI [of _ b] simp: word_less_nat_alt word_le_nat_alt)
qed

lemma chain_tl: "chain d f (c # c' # cs) \<Longrightarrow> chain d f (c' # cs)"
  by simp

section \<open>Directories\<close>

definition entries :: "u8 list \<Rightarrow> u8 list list" where
  "entries buf = map (\<lambda>i. bytes_at (32 * i) 32 buf) [0..<16]"

definition dir_entries :: "disk \<Rightarrow> Fat32 \<Rightarrow> u32 list \<Rightarrow> u8 list list" where
  "dir_entries d f cs = concat (map (\<lambda>c. entries (cluster_data d f c)) cs)"

text \<open>The search as a scan of the entries: up to the end mark, a long name speaks for the entry after it.\<close>

fun scan :: "string \<Rightarrow> u8 list list \<Rightarrow> u8 list option" where
  "scan name [] = None"
| "scan name (e # es) =
     (if is_end e then None
      else if is_lfn e then
        (case es of
           [] \<Rightarrow> None
         | e' # es' \<Rightarrow>
             if lfn_to_string (as_LFNEntry e) = name \<or> name_matches name e' then Some e' else scan name es')
      else if name_matches name e then Some e else scan name es)"

text \<open>What lies ahead of a cursor.\<close>

fun ahead :: "disk \<Rightarrow> Fat32 \<Rightarrow> cursor \<Rightarrow> u32 list \<Rightarrow> u8 list list" where
  "ahead d f (buf, idx, c) cs = drop idx (entries buf) @ dir_entries d f cs"

fun cursor_ok :: "disk \<Rightarrow> Fat32 \<Rightarrow> cursor \<Rightarrow> u32 list \<Rightarrow> bool" where
  "cursor_ok d f (buf, idx, c) cs \<longleftrightarrow> length buf = 512 \<and> idx < 16 \<and> chain d f (c # cs)"

lemma length_entries [simp]: "length (entries buf) = 16"
  by (simp add: entries_def)

lemma dir_same [simp]:
  "dir_entries d (f\<lparr>f_buffer := b\<rparr>) = dir_entries d f" "ahead d (f\<lparr>f_buffer := b\<rparr>) c cs = ahead d f c cs"
  "cursor_ok d (f\<lparr>f_buffer := b\<rparr>) c cs = cursor_ok d f c cs"
  by (cases c; simp add: dir_entries_def fun_eq_iff)+

lemma drop_entries: "idx < 16 \<Longrightarrow> drop idx (entries buf) = bytes_at (32 * idx) 32 buf # drop (Suc idx) (entries buf)"
  by (subst Cons_nth_drop_Suc [symmetric]) (simp_all add: entries_def)

lemma ahead_Cons:
  assumes "cursor_ok d f c cs"
  shows "ahead d f c cs = entry_of c # tl (ahead d f c cs)"
proof -
  obtain buf idx k where c: "c = (buf, idx, k)" by (cases c)
  then have "idx < 16" using assms by simp
  then show ?thesis using c by (simp add: entry_of_def drop_entries)
qed

lemma advance_eq:
  assumes vol: "vol_ok d f" "csize f = 512" and ok: "cursor_ok d f c cs"
  shows "\<exists>b. length b = 512 \<and>
    ((advance d c f = (Ok None :: ('e, cursor option) result, f\<lparr>f_buffer := b\<rparr>) \<and> tl (ahead d f c cs) = []) \<or>
     (\<exists>c' cs'. advance d c f = (Ok (Some c') :: ('e, cursor option) result, f\<lparr>f_buffer := b\<rparr>) \<and>
        cursor_ok d f c' cs' \<and> ahead d f c' cs' = tl (ahead d f c cs)))"
proof -
  obtain buf idx k where c: "c = (buf, idx, k)" by (cases c)
  have o: "length buf = 512" "idx < 16" "chain d f (k # cs)" using ok c by simp_all
  show ?thesis
  proof (cases "idx + 1 \<ge> 16")
    case False
    have "advance d c f = (Ok (Some (buf, idx + 1, k)) :: ('e, cursor option) result, f\<lparr>f_buffer := f_buffer f\<rparr>)"
      using False c by (simp add: advance_def)
    moreover have "ahead d f (buf, idx + 1, k) cs = tl (ahead d f c cs)"
      using o(2) c drop_entries [OF o(2)] by simp
    ultimately show ?thesis using o False vol_okD(5) [OF vol(1)]
      by (intro exI [of _ "f_buffer f"] conjI disjI2 exI [of _ "(buf, idx + 1, k)"] exI [of _ cs]) simp_all
  next
    case True
    then have i: "idx = 15" using o(2) by simp
    then have t: "tl (ahead d f c cs) = dir_entries d f cs"
      using c by (simp add: entries_def upt_rec)
    obtain b where b: "length b = 512" "(next_cluster d k f :: ('e, u32 option) result \<times> Fat32) =
        (Ok (case cs of [] \<Rightarrow> None | c' # _ \<Rightarrow> Some c'), f\<lparr>f_buffer := b\<rparr>)"
      using chain_next [OF vol(1) o(3)] by blast
    show ?thesis
    proof (cases cs)
      case Nil
      then show ?thesis using b c i t by (intro exI [of _ b]) (simp add: advance_def dir_entries_def)
    next
      case (Cons k' cs')
      have vb: "vol_ok d (f\<lparr>f_buffer := b\<rparr>)" by (rule vol_okD(6) [OF vol(1) b(1)])
      have "read_cluster d (f\<lparr>f_buffer := b\<rparr>) k' buf =
          (Ok (cluster_data d f k' @ drop (csize f) buf) :: ('e, u8 list) result)"
        using read_cluster_eq [OF vb, of buf k', where ?'e = 'e] vol(2) o(1) by simp
      then have "advance d c f = (Ok (Some (cluster_data d f k', 0, k')) :: ('e, cursor option) result, f\<lparr>f_buffer := b\<rparr>)"
        using b(2) c i o(1) vol(2) Cons by (simp add: advance_def)
      moreover have "cursor_ok d f (cluster_data d f k', 0, k') cs'"
        using o(3) Cons length_cluster_data [OF vol(1)] vol(2) by simp
      moreover have "ahead d f (cluster_data d f k', 0, k') cs' = tl (ahead d f c cs)"
        unfolding t using Cons by (simp add: dir_entries_def)
      ultimately show ?thesis using b(1) by blast
    qed
  qed
qed

lemma find_loop_scan:
  assumes "vol_ok d f" "csize f = 512" "cursor_ok d f c cs" "length (ahead d f c cs) \<le> n"
  shows "\<exists>b. length b = 512 \<and> find_loop n d name c f =
    (Ok (map_option as_DirEntry (scan name (ahead d f c cs))) :: ('e, DirEntry option) result, f\<lparr>f_buffer := b\<rparr>)"
  using assms
proof (induction n arbitrary: c cs f)
  case 0
  then show ?case using ahead_Cons [of d f c cs] by simp
next
  case (Suc n)
  note a = ahead_Cons [OF Suc.prems(3)]
  have self: "f = f\<lparr>f_buffer := f_buffer f\<rparr>" "length (f_buffer f) = 512" using vol_okD(5) [OF Suc.prems(1)] by simp_all
  have step: "\<exists>b. length b = 512 \<and> and_then (advance d c' f') (\<lambda>r f''.
        case r of None \<Rightarrow> (Ok None, f'') | Some c'' \<Rightarrow> find_loop n d name c'' f'') =
      (Ok (map_option as_DirEntry (scan name (tl (ahead d f c' cs')))) :: ('e, DirEntry option) result, f\<lparr>f_buffer := b\<rparr>)"
    if c': "cursor_ok d f c' cs'" "length (tl (ahead d f c' cs')) \<le> n" and f': "f' = f\<lparr>f_buffer := b'\<rparr>" "length b' = 512"
    for c' cs' f' b'
  proof -
    have v: "vol_ok d f'" "csize f' = 512" "cursor_ok d f' c' cs'"
      using Suc.prems(2) c'(1) vol_okD(6) [OF Suc.prems(1) f'(2)] f'(1) by simp_all
    obtain b where b: "length b = 512"
      "(advance d c' f' = (Ok None :: ('e, cursor option) result, f'\<lparr>f_buffer := b\<rparr>) \<and> tl (ahead d f c' cs') = []) \<or>
       (\<exists>c'' cs''. advance d c' f' = (Ok (Some c'') :: ('e, cursor option) result, f'\<lparr>f_buffer := b\<rparr>) \<and>
        cursor_ok d f c'' cs'' \<and> ahead d f c'' cs'' = tl (ahead d f c' cs'))"
      using advance_eq [OF v, where ?'e = 'e] unfolding f'(1) dir_same by blast
    then consider (stop) "advance d c' f' = (Ok None :: ('e, cursor option) result, f'\<lparr>f_buffer := b\<rparr>)"
        "tl (ahead d f c' cs') = []"
      | (go) c'' cs'' where "advance d c' f' = (Ok (Some c'') :: ('e, cursor option) result, f'\<lparr>f_buffer := b\<rparr>)"
        "cursor_ok d f c'' cs''" "ahead d f c'' cs'' = tl (ahead d f c' cs')"
      by blast
    then show ?thesis
    proof cases
      case stop
      then show ?thesis using b(1) f'(1) by (intro exI [of _ b]) simp
    next
      case go
      have vb: "vol_ok d (f\<lparr>f_buffer := b\<rparr>)" by (rule vol_okD(6) [OF Suc.prems(1) b(1)])
      from Suc.IH [OF vb, of c'' cs''] go c'(2) Suc.prems(2) obtain b2 where "length b2 = 512"
        "find_loop n d name c'' (f\<lparr>f_buffer := b\<rparr>) = (Ok (map_option as_DirEntry (scan name (tl (ahead d f c' cs')))) ::
            ('e, DirEntry option) result, f\<lparr>f_buffer := b2\<rparr>)"
        by auto
      then show ?thesis using go(1) f'(1) by (intro exI [of _ b2]) simp
    qed
  qed
  obtain es where es: "ahead d f c cs = entry_of c # es" "length es \<le> n" "tl (ahead d f c cs) = es"
    using a Suc.prems(4) by (metis length_Cons list.sel(3) Suc_le_mono)
  show ?case
  proof (cases "\<not> is_end (entry_of c) \<and> is_lfn (entry_of c)")
    case False
    then show ?thesis
      using step [OF Suc.prems(3) _ self] self(2) es
      by (cases "is_end (entry_of c) \<or> name_matches name (entry_of c)") (auto intro!: exI [of _ "f_buffer f"])
  next
    case True
    let ?found = "lfn_to_string (as_LFNEntry (entry_of c)) = name"
    obtain b where b: "length b = 512"
      "(advance d c f = (Ok None :: ('e, cursor option) result, f\<lparr>f_buffer := b\<rparr>) \<and> es = []) \<or>
       (\<exists>c' cs'. advance d c f = (Ok (Some c') :: ('e, cursor option) result, f\<lparr>f_buffer := b\<rparr>) \<and>
        cursor_ok d f c' cs' \<and> ahead d f c' cs' = es)"
      using advance_eq [OF Suc.prems(1-3), where ?'e = 'e] unfolding es(3) by blast
    then consider (stop) "advance d c f = (Ok None :: ('e, cursor option) result, f\<lparr>f_buffer := b\<rparr>)" "es = []"
      | (go) c' cs' es' where "advance d c f = (Ok (Some c') :: ('e, cursor option) result, f\<lparr>f_buffer := b\<rparr>)"
        "cursor_ok d f c' cs'" "ahead d f c' cs' = entry_of c' # es'" "es = entry_of c' # es'"
      using ahead_Cons by metis
    then show ?thesis
    proof cases
      case stop
      then show ?thesis using True es(1) b(1) by (intro exI [of _ b]) (simp add: Let_def)
    next
      case go
      have "length (tl (ahead d f c' cs')) \<le> n" "tl (ahead d f c' cs') = es'" using go es(2) by auto
      with step [OF go(2) _ refl b(1)] obtain b2 where "length b2 = 512"
        "and_then (advance d c' (f\<lparr>f_buffer := b\<rparr>)) (\<lambda>r f''.
          case r of None \<Rightarrow> (Ok None, f'') | Some c'' \<Rightarrow> find_loop n d name c'' f'') =
         (Ok (map_option as_DirEntry (scan name es')) :: ('e, DirEntry option) result, f\<lparr>f_buffer := b2\<rparr>)"
        by auto
      then show ?thesis using True es(1) go b(1)
        by (cases "?found \<or> name_matches name (entry_of c')") (auto simp: Let_def)
    qed
  qed
qed

text \<open>The heap is there when it is asked.\<close>

definition heap_ok :: "machine \<Rightarrow> bool" where
  "heap_ok m \<longleftrightarrow> (\<forall>n. \<exists>p. heap_script m n = Some p \<and> p \<noteq> 0)"

lemma alloc_zeroed_ok:
  assumes "heap_ok m"
  obtains p m' where "alloc_zeroed l m = (p, m')" "p \<noteq> 0" "heap_ok m'" "heap_log m' = heap_log m @ [Allocated p l]"
proof -
  obtain p where p: "heap_script m (n_alloc m) = Some p" "p \<noteq> 0" using assms by (auto simp: heap_ok_def)
  then show ?thesis using that [of p "snd (alloc_zeroed l m)"] assms
    by (simp add: alloc_zeroed_def alloc_eq heap_ok_def)
qed

lemma dealloc_ok [simp]:
  "heap_ok (dealloc p l m) = heap_ok m" "heap_log (dealloc p l m) = heap_log m @ [Deallocated p l]"
  by (simp_all add: dealloc_eq heap_ok_def)

text \<open>Every block that was allocated has been given back.\<close>

definition balanced :: "heap_event list \<Rightarrow> bool" where
  "balanced ev \<longleftrightarrow> (\<exists>ps. ev = concat (map (\<lambda>(p, l). [Allocated p l, Deallocated p l]) ps))"

lemma balanced_simps [simp]: "balanced []" "balanced [Allocated p l, Deallocated p l]"
  unfolding balanced_def by (rule exI [of _ "[]"], simp) (rule exI [of _ "[(p, l)]"], simp)

lemma balanced_append:
  assumes "balanced xs" "balanced ys"
  shows "balanced (xs @ ys)"
proof -
  obtain ps qs where "xs = concat (map (\<lambda>(p, l). [Allocated p l, Deallocated p l]) ps)"
    "ys = concat (map (\<lambda>(p, l). [Allocated p l, Deallocated p l]) qs)"
    using assms by (auto simp: balanced_def)
  then show ?thesis unfolding balanced_def by (intro exI [of _ "ps @ qs"]) simp
qed

text \<open>\<open>find_file\<close> returns the entry that a scan of the directory's entries finds, over all clusters of
  the directory, after at most one iteration per entry, and gives its buffer back. This is for
  volumes with clusters of one sector, the only ones its buffer has room for.\<close>

lemma find_file_eq:
  assumes vol: "vol_ok d f" "csize f = 512" and ch: "chain d f (c # cs)" and n: "16 * length (c # cs) \<le> n"
    and hp: "heap_ok m"
  shows "\<exists>b m' ev. length b = 512 \<and> heap_ok m' \<and> heap_log m' = heap_log m @ ev \<and> balanced ev \<and> find_file n d c name (f, m) =
    (Ok (map_option as_DirEntry (scan name (dir_entries d f (c # cs)))) :: ('e, DirEntry option) result, (f\<lparr>f_buffer := b\<rparr>, m'))"
proof -
  obtain p m1 where a: "alloc_zeroed (512, 8) m = (p, m1)" "p \<noteq> 0" "heap_ok m1" "heap_log m1 = heap_log m @ [Allocated p (512, 8)]"
    using alloc_zeroed_ok [OF hp] .
  have r: "read_cluster d f c (replicate 512 0) = (Ok (cluster_data d f c) :: ('e, u8 list) result)"
    using read_cluster_eq [OF vol(1), of "replicate 512 0" c, where ?'e = 'e] vol(2) by simp
  have len: "length (dir_entries d f (c # cs)) = 16 * length (c # cs)"
    unfolding dir_entries_def by (subst concat_const_length [where n = 16]) auto
  have ah: "ahead d f (cluster_data d f c, 0, c) cs = dir_entries d f (c # cs)" by (simp add: dir_entries_def)
  have "cursor_ok d f (cluster_data d f c, 0, c) cs" using ch length_cluster_data [OF vol(1)] vol(2) by simp
  from find_loop_scan [OF vol this, of n name, where ?'e = 'e, unfolded ah len, OF n]
  obtain b where "length b = 512" "find_loop n d name (cluster_data d f c, 0, c) f =
     (Ok (map_option as_DirEntry (scan name (dir_entries d f (c # cs)))) :: ('e, DirEntry option) result, f\<lparr>f_buffer := b\<rparr>)"
    by blast
  then show ?thesis using a r
    by (intro exI [of _ b] exI [of _ "dealloc p (512, 8) m1"] exI [of _ "[Allocated p (512, 8), Deallocated p (512, 8)]"])
      (simp add: find_file_def)
qed

section \<open>Paths\<close>

text \<open>The entry a path leads to: \<open>ch\<close> gives the chain of every directory on the way.\<close>

fun resolve :: "disk \<Rightarrow> Fat32 \<Rightarrow> (u32 \<Rightarrow> u32 list) \<Rightarrow> string list \<Rightarrow> u32 \<Rightarrow> DirEntry option \<Rightarrow> DirEntry option" where
  "resolve d f ch [] c cur = cur"
| "resolve d f ch (name # names) c cur =
     (if name = [] then resolve d f ch names c cur
      else case scan name (dir_entries d f (ch c)) of
             None \<Rightarrow> None
           | Some e \<Rightarrow> resolve d f ch names (first_cluster (as_DirEntry e)) (Some (as_DirEntry e)))"

fun path_ok :: "disk \<Rightarrow> Fat32 \<Rightarrow> (u32 \<Rightarrow> u32 list) \<Rightarrow> nat \<Rightarrow> string list \<Rightarrow> u32 \<Rightarrow> bool" where
  "path_ok d f ch n [] c = True"
| "path_ok d f ch n (name # names) c =
     (if name = [] then path_ok d f ch n names c
      else (\<exists>cs. ch c = c # cs) \<and> chain d f (ch c) \<and> 16 * length (ch c) \<le> n \<and>
           (case scan name (dir_entries d f (ch c)) of
              None \<Rightarrow> True
            | Some e \<Rightarrow> path_ok d f ch n names (first_cluster (as_DirEntry e))))"

lemma resolve_same [simp]: "resolve d (f\<lparr>f_buffer := b\<rparr>) ch names c cur = resolve d f ch names c cur"
  by (induction names arbitrary: c cur) (auto split: option.split)

lemma path_ok_same [simp]: "path_ok d (f\<lparr>f_buffer := b\<rparr>) ch n names c = path_ok d f ch n names c"
  by (induction names arbitrary: c) (auto split: option.split)

lemma walk_path_eq:
  assumes "vol_ok d f" "csize f = 512" "path_ok d f ch n names c" "heap_ok m"
  shows "\<exists>b m' ev. length b = 512 \<and> heap_ok m' \<and> heap_log m' = heap_log m @ ev \<and> balanced ev \<and>
    walk_path n d names c cur (f, m) =
      (Ok (resolve d f ch names c cur) :: ('e, DirEntry option) result, (f\<lparr>f_buffer := b\<rparr>, m'))"
  using assms
proof (induction names arbitrary: c cur f m)
  case Nil
  then show ?case using vol_okD(5) [OF Nil(1)] by (intro exI [of _ "f_buffer f"] exI [of _ m] exI [of _ "[]"]) simp
next
  case (Cons name names)
  show ?case
  proof (cases "name = []")
    case True
    then show ?thesis using Cons.IH [OF Cons.prems(1,2) _ Cons.prems(4)] Cons.prems(3) by simp
  next
    case False
    then obtain cs where cs: "ch c = c # cs" "chain d f (c # cs)" "16 * length (c # cs) \<le> n"
      using Cons.prems(3) by auto
    obtain b m1 ev where ff: "length b = 512" "heap_ok m1" "heap_log m1 = heap_log m @ ev" "balanced ev"
      "find_file n d c name (f, m) = (Ok (map_option as_DirEntry (scan name (dir_entries d f (ch c)))) ::
         ('e, DirEntry option) result, (f\<lparr>f_buffer := b\<rparr>, m1))"
      using find_file_eq [OF Cons.prems(1,2) cs(2,3) Cons.prems(4), of name, where ?'e = 'e] unfolding cs(1) by blast
    show ?thesis
    proof (cases "scan name (dir_entries d f (ch c))")
      case None
      then show ?thesis using ff False by (intro exI [of _ b] exI [of _ m1] exI [of _ ev]) simp
    next
      case (Some e)
      have v: "vol_ok d (f\<lparr>f_buffer := b\<rparr>)" by (rule vol_okD(6) [OF Cons.prems(1) ff(1)])
      obtain b2 m2 ev2 where "length b2 = 512" "heap_ok m2" "heap_log m2 = heap_log m1 @ ev2" "balanced ev2"
        "walk_path n d names (first_cluster (as_DirEntry e)) (Some (as_DirEntry e)) (f\<lparr>f_buffer := b\<rparr>, m1) =
          (Ok (resolve d f ch names (first_cluster (as_DirEntry e)) (Some (as_DirEntry e))) ::
           ('e, DirEntry option) result, (f\<lparr>f_buffer := b2\<rparr>, m2))"
        using Cons.IH [OF v _ _ ff(2), of "first_cluster (as_DirEntry e)" "Some (as_DirEntry e)"] Cons.prems(2,3) False Some
        by auto
      then show ?thesis using ff False Some balanced_append
        by (intro exI [of _ b2] exI [of _ m2] exI [of _ "ev @ ev2"]) simp
    qed
  qed
qed

section \<open>Reading\<close>

definition file_data :: "disk \<Rightarrow> Fat32 \<Rightarrow> u32 list \<Rightarrow> u8 list" where
  "file_data d f cs = concat (map (cluster_data d f) cs)"

lemma file_data_simps [simp]:
  "file_data d f [] = []" "file_data d f (c # cs) = cluster_data d f c @ file_data d f cs"
  "file_data d (f\<lparr>f_buffer := b\<rparr>) = file_data d f"
  by (simp_all add: file_data_def fun_eq_iff)

lemma unat_cluster_size: "vol_ok d f \<Longrightarrow> unat (sector_size f * ucast (sectors_per_cluster f)) = csize f"
  using unsigned_less [of "sectors_per_cluster f", where ?'a = nat]
  by (simp add: vol_ok_def csize_def unat_word_ariths unsigned_ucast_eq take_bit_nat_eq_self)

lemma splice:
  assumes "length w0 = k" "r + k \<le> length buf"
  shows "take (r + k) (take r buf @ w0 @ drop (r + k) buf) = take r buf @ w0"
    "drop (r + k + j) (take r buf @ w0 @ drop (r + k) buf) = drop (r + k + j) buf"
    "length (take r buf @ w0 @ drop (r + k) buf) = length buf"
  using assms by (auto simp: min_def add.commute)

lemma read_loop_eq:
  assumes "vol_ok d f" "length tmp = csize f" "r \<le> length buf" "unat ob < csize f" "chain d f (c # cs)"
    "(unat oc - unat rc) + (length buf - r) < n" "unat rc + (unat oc - unat rc) + (length buf - r) < 2 ^ 32"
    "data = drop ((unat oc - unat rc) * csize f + unat ob) (file_data d f (c # cs))"
    "w = take (length buf - r) data"
  shows "\<exists>b filled. length b = 512 \<and> read_loop n d r c tmp oc ob rc buf f =
      (Ok (filled, r + length w, take r buf @ w @ drop (r + length w) buf) :: ('e, bool \<times> nat \<times> u8 list) result,
       f\<lparr>f_buffer := b\<rparr>) \<and>
    (r < length buf \<longrightarrow> length data \<le> length buf - r \<longrightarrow> \<not> filled)"
  using assms
proof (induction n arbitrary: f tmp r ob c cs rc buf data w)
  case (Suc n)
  note vol = Suc.prems(1)
  have self: "f\<lparr>f_buffer := f_buffer f\<rparr> = f" "length (f_buffer f) = 512" using vol_okD(5) [OF vol] by simp_all
  note cl = length_cluster_data [OF vol]
  obtain b where b: "length b = 512" "(next_cluster d c f :: ('e, u32 option) result \<times> Fat32) =
      (Ok (case cs of [] \<Rightarrow> None | c' # _ \<Rightarrow> Some c'), f\<lparr>f_buffer := b\<rparr>)"
    using chain_next [OF vol Suc.prems(5)] by blast
  have vb: "vol_ok d (f\<lparr>f_buffer := b\<rparr>)" by (rule vol_okD(6) [OF vol b(1)])
  consider (full) "r = length buf" | (skip) "r < length buf" "rc < oc" | (copy) "r < length buf" "\<not> rc < oc"
    using Suc.prems(3) by linarith
  then show ?case
  proof cases
    case full
    then show ?thesis using Suc.prems(9) self by (intro exI [of _ "f_buffer f"] exI [of _ True]) simp
  next
    case skip
    have lt: "unat rc < unat oc" using skip(2) by (simp add: word_less_nat_alt)
    have rc: "unat (rc + 1) = unat rc + 1" using lt unsigned_less [of oc, where ?'a = nat] by (subst unat_add_lem [THEN iffD1]) simp_all
    have k: "unat oc - unat rc = Suc (unat oc - unat (rc + 1))" using lt rc by simp
    show ?thesis
    proof (cases cs)
      case Nil
      then have "w = []" using Suc.prems(8,9) cl k by simp
      then show ?thesis using Nil skip b by (intro exI [of _ b] exI [of _ False]) simp
    next
      case (Cons c' cs')
      have data: "data = drop ((unat oc - unat (rc + 1)) * csize f + unat ob) (file_data d f (c' # cs'))"
        unfolding Suc.prems(8) k Cons using cl by simp
      have eq: "read_loop (Suc n) d r c tmp oc ob rc buf f =
          (read_loop n d r c' tmp oc ob (rc + 1) buf (f\<lparr>f_buffer := b\<rparr>) :: ('e, bool \<times> nat \<times> u8 list) result \<times> Fat32)"
        using skip b(2) Cons by simp
      have "\<exists>b2 filled. length b2 = 512 \<and> read_loop n d r c' tmp oc ob (rc + 1) buf (f\<lparr>f_buffer := b\<rparr>) =
          (Ok (filled, r + length w, take r buf @ w @ drop (r + length w) buf) :: ('e, bool \<times> nat \<times> u8 list) result,
           f\<lparr>f_buffer := b\<rparr>\<lparr>f_buffer := b2\<rparr>) \<and>
        (r < length buf \<longrightarrow> length data \<le> length buf - r \<longrightarrow> \<not> filled)"
        by (rule Suc.IH [OF vb _ Suc.prems(3) _ _ _ _ _ Suc.prems(9), where cs = cs'])
          (use Suc.prems(2,4,5,6,7) data Cons k rc in simp_all)
      then show ?thesis unfolding eq by simp
    qed
  next
    case copy
    have k: "unat oc - unat rc = 0" using copy(2) by (simp add: word_less_nat_alt)
    define cnt where "cnt = min (csize f - unat ob) (length buf - r)"
    have cnt: "0 < cnt" "cnt \<le> csize f - unat ob" "r + cnt \<le> length buf" using copy(1) Suc.prems(4) by (auto simp: cnt_def)
    define w0 where "w0 = take cnt (drop (unat ob) (cluster_data d f c))"
    have w0: "length w0 = cnt" using cnt(2) cl by (simp add: w0_def)
    define buf' where "buf' = take r buf @ w0 @ drop (r + cnt) buf"
    have tmp: "read_cluster d f c tmp = (Ok (cluster_data d f c) :: ('e, u8 list) result)"
      using read_cluster_eq [OF vol, of tmp c, where ?'e = 'e] Suc.prems(2) by simp
    have "ob \<le> sector_size f * ucast (sectors_per_cluster f)"
      using Suc.prems(4) unat_cluster_size [OF vol] by (simp add: word_le_nat_alt)
    then have "unat (sector_size f * ucast (sectors_per_cluster f) - ob) = csize f - unat ob"
      using unat_cluster_size [OF vol] by (simp add: unat_sub)
    then have step: "read_loop (Suc n) d r c tmp oc ob rc buf f =
        ((case cs of [] \<Rightarrow> (Ok (False, r + cnt, buf'), f\<lparr>f_buffer := b\<rparr>)
          | c' # _ \<Rightarrow> read_loop n d (r + cnt) c' (cluster_data d f c) oc 0 (rc + 1) buf' (f\<lparr>f_buffer := b\<rparr>))
         :: ('e, bool \<times> nat \<times> u8 list) result \<times> Fat32)"
      using copy tmp b(2) by (cases cs) (simp_all add: Let_def cnt_def [symmetric] bytes_at_def w0_def [symmetric] buf'_def)
    have data: "data = drop (unat ob) (cluster_data d f c) @ file_data d f cs"
      unfolding Suc.prems(8) k using Suc.prems(4) cl by simp
    have w: "w = w0 @ take (length buf - r - cnt) (file_data d f cs)"
      unfolding Suc.prems(9) data using cl cnt
      by (cases "cnt = csize f - unat ob") (auto simp: w0_def cnt_def min_def)
    show ?thesis
    proof (cases cs)
      case Nil
      then show ?thesis using step w w0 b(1) by (intro exI [of _ b] exI [of _ False]) (simp add: buf'_def)
    next
      case (Cons c' cs')
      have rc: "unat (rc + 1) = unat rc + 1" using Suc.prems(7) copy(1) by (subst unat_add_lem [THEN iffD1]) simp_all
      have le: "unat oc - unat (rc + 1) = 0" using k rc by simp
      define w' where "w' = take (length buf' - (r + cnt)) (file_data d f (c' # cs'))"
      have len: "length buf' = length buf" unfolding buf'_def using splice(3) [OF w0 cnt(3)] .
      have ww: "w = w0 @ w'" unfolding w w'_def len Cons by simp
      have fuel: "length buf - (r + cnt) < n" "unat rc + 1 + (length buf - (r + cnt)) < 2 ^ 32"
        using Suc.prems(6,7) cnt k by simp_all
      have "\<exists>b2 filled. length b2 = 512 \<and>
          read_loop n d (r + cnt) c' (cluster_data d f c) oc 0 (rc + 1) buf' (f\<lparr>f_buffer := b\<rparr>) =
          (Ok (filled, r + cnt + length w', take (r + cnt) buf' @ w' @ drop (r + cnt + length w') buf') ::
             ('e, bool \<times> nat \<times> u8 list) result, f\<lparr>f_buffer := b\<rparr>\<lparr>f_buffer := b2\<rparr>) \<and>
          (r + cnt < length buf' \<longrightarrow> length (file_data d f (c' # cs')) \<le> length buf' - (r + cnt) \<longrightarrow> \<not> filled)"
        by (rule Suc.IH [OF vb, where cs = cs'])
          (use Suc.prems(5) fuel le rc len cl cnt w'_def Cons vol_okD(7) [OF vol] in simp_all)
      then obtain b2 filled where r: "length b2 = 512"
        "read_loop n d (r + cnt) c' (cluster_data d f c) oc 0 (rc + 1) buf' (f\<lparr>f_buffer := b\<rparr>) =
          (Ok (filled, r + cnt + length w', take (r + cnt) buf' @ w' @ drop (r + cnt + length w') buf') ::
             ('e, bool \<times> nat \<times> u8 list) result, f\<lparr>f_buffer := b\<rparr>\<lparr>f_buffer := b2\<rparr>)"
        "r + cnt < length buf' \<longrightarrow> length (file_data d f (c' # cs')) \<le> length buf' - (r + cnt) \<longrightarrow> \<not> filled"
        by blast
      have "take (r + cnt) buf' @ w' @ drop (r + cnt + length w') buf' = take r buf @ w @ drop (r + length w) buf"
        unfolding buf'_def using splice [OF w0 cnt(3)] w0 ww by (simp add: add.assoc)
      moreover have "\<not> filled" if "length data \<le> length buf - r"
      proof -
        have "csize f - unat ob + length (file_data d f (c' # cs')) \<le> length buf - r"
          using that cl by (simp add: data Cons)
        moreover have "0 < length (file_data d f (c' # cs'))" using cl vol_okD(7) [OF vol] by simp
        moreover have "cnt = csize f - unat ob" using calculation by (simp add: cnt_def)
        ultimately have "r + cnt < length buf'" "length (file_data d f (c' # cs')) \<le> length buf' - (r + cnt)"
          unfolding len by linarith+
        then show ?thesis using r(3) by blast
      qed
      ultimately show ?thesis using step r Cons ww w0
        by (intro exI [of _ b2] exI [of _ filled]) (simp add: add.assoc)
    qed
  qed
qed simp

end
