(* ===== verification/Fat_Files.thy ===== *)
theory Fat_Files
  imports Fat_Props
begin

text \<open>
  Paths and files on a FAT32 volume: what \<open>get_entry_from_path\<close>, \<open>file_size\<close> and \<open>read_at\<close> of
  \<open>src/src/fs/fat.rs\<close> return, in terms of the volume's directories and cluster chains.
\<close>

section \<open>Paths and files\<close>

lemma get_entry_eq:
  assumes "vol_ok d f" "csize f = 512" "path_ok d f ch n (split_path path) (root_dir_first_cluster f)" "heap_ok m"
  shows "\<exists>b m' ev. length b = 512 \<and> heap_ok m' \<and> heap_log m' = heap_log m @ ev \<and> balanced ev \<and>
    get_entry_from_path n d path (f, m) =
      (Ok (resolve d f ch (split_path path) (root_dir_first_cluster f) None) :: ('e, DirEntry option) result,
       (f\<lparr>f_buffer := b\<rparr>, m'))"
  unfolding get_entry_from_path_def fst_conv by (rule walk_path_eq [OF assms])

lemma entry_or_error_eq:
  assumes "vol_ok d f" "csize f = 512" "path_ok d f ch n (split_path path) (root_dir_first_cluster f)" "heap_ok m"
  shows "\<exists>b m' ev. length b = 512 \<and> heap_ok m' \<and> heap_log m' = heap_log m @ ev \<and> balanced ev \<and>
    entry_or_error n d path (f, m) =
      (case resolve d f ch (split_path path) (root_dir_first_cluster f) None of
         None \<Rightarrow> Err (Msg (''file does not exist: '' @ path)) | Some e \<Rightarrow> Ok e, (f\<lparr>f_buffer := b\<rparr>, m'))"
proof -
  obtain b m' ev where r: "length b = 512" "heap_ok m'" "heap_log m' = heap_log m @ ev" "balanced ev"
    "get_entry_from_path n d path (f, m) =
      (Ok (resolve d f ch (split_path path) (root_dir_first_cluster f) None) :: (Error, DirEntry option) result,
       (f\<lparr>f_buffer := b\<rparr>, m'))"
    using get_entry_eq [OF assms, where ?'e = Error] by blast
  show ?thesis
    by (intro exI [of _ b] exI [of _ m'] exI [of _ ev]) (use r in \<open>simp add: entry_or_error_def split: option.split\<close>)
qed

text \<open>\<open>read_at\<close> in full: what it copies, and what is left on the heap.\<close>

lemma fat_read_at_eq:
  assumes vol: "vol_ok d f" "csize f = 512" and path: "path_ok d f ch n (split_path path) (root_dir_first_cluster f)"
    and hp: "heap_ok m" and found: "resolve d f ch (split_path path) (root_dir_first_cluster f) None = Some entry"
    and ch: "chain d f (first_cluster entry # cs)" and small: "unat offset + length buffer < 2 ^ 32"
    and data: "data = drop (unat offset) (file_data d f (first_cluster entry # cs))"
    and w: "w = take (length buffer) data"
  shows "\<exists>b m' ev p. length b = 512 \<and> heap_ok m' \<and> balanced ev \<and>
    fat_read_at n d buffer path offset (f, m) = (Ok (of_nat (length w), w @ drop (length w) buffer), (f\<lparr>f_buffer := b\<rparr>, m')) \<and>
    (buffer \<noteq> [] \<longrightarrow> length data \<le> length buffer \<longrightarrow> heap_log m' = heap_log m @ ev @ [Allocated p (512, 8)])"
proof -
  obtain b1 m1 ev1 where e: "length b1 = 512" "heap_ok m1" "heap_log m1 = heap_log m @ ev1" "balanced ev1"
    "entry_or_error n d path (f, m) = (Ok entry, (f\<lparr>f_buffer := b1\<rparr>, m1))"
    using entry_or_error_eq [OF vol path hp] found by auto
  define f1 where "f1 = f\<lparr>f_buffer := b1\<rparr>"
  have vol1: "vol_ok d f1" "csize f1 = 512" using vol_okD(6) [OF vol(1) e(1)] vol(2) by (simp_all add: f1_def)
  have spc: "sectors_per_cluster f1 = 1"
    using vol1(2) by (intro unsigned_word_eqI [where ?'a = nat]) (simp add: csize_def)
  have one: "sector_size f1 * ucast (sectors_per_cluster f1) = 512"
    "ucast (sector_size f1) * ucast (sectors_per_cluster f1) = (512 :: usize)"
    using vol_okD(3) [OF vol1(1)] spc by simp_all
  have off: "unat (ucast offset :: u32) = unat offset"
    using small by (simp add: unsigned_ucast_eq take_bit_nat_eq_self)
  have oc: "unat (ucast offset div 512 :: u32) = unat offset div 512" "unat (ucast offset mod 512 :: u32) = unat offset mod 512"
    using off by (simp_all add: unat_div unat_mod)
  obtain p m2 where a: "alloc_zeroed (512, 8) m1 = (p, m2)" "p \<noteq> 0" "heap_ok m2" "heap_log m2 = heap_log m1 @ [Allocated p (512, 8)]"
    using alloc_zeroed_ok [OF e(2)] .
  have "\<exists>b filled. length b = 512 \<and>
      read_loop (unat offset div 512 + length buffer + 1) d 0 (first_cluster entry) (replicate 512 0)
        (ucast offset div 512) (ucast offset mod 512) 0 buffer f1 =
      (Ok (filled, 0 + length w, take 0 buffer @ w @ drop (0 + length w) buffer) :: (Error, bool \<times> nat \<times> u8 list) result,
       f1\<lparr>f_buffer := b\<rparr>) \<and>
      (0 < length buffer \<longrightarrow> length data \<le> length buffer - 0 \<longrightarrow> \<not> filled)"
    by (rule read_loop_eq [OF vol1(1), where cs = cs]) (use ch small w data oc vol1(2) in \<open>simp_all add: f1_def\<close>)
  then obtain b filled where r: "length b = 512"
    "read_loop (unat offset div 512 + length buffer + 1) d 0 (first_cluster entry) (replicate 512 0)
        (ucast offset div 512) (ucast offset mod 512) 0 buffer f1 =
      (Ok (filled, length w, w @ drop (length w) buffer) :: (Error, bool \<times> nat \<times> u8 list) result, f1\<lparr>f_buffer := b\<rparr>)"
    "buffer \<noteq> [] \<longrightarrow> length data \<le> length buffer \<longrightarrow> \<not> filled" by auto
  have "fat_read_at n d buffer path offset (f, m) =
      (Ok (of_nat (length w), w @ drop (length w) buffer),
       (f\<lparr>f_buffer := b\<rparr>, if filled then dealloc p (512, 8) m2 else m2))"
    unfolding fat_read_at_def e(5) f1_def [symmetric] using one oc a r(2) by (simp add: Let_def f1_def)
  then show ?thesis using r(1,3) a e(3,4)
    by (intro exI [of _ b] exI [of _ "if filled then dealloc p (512, 8) m2 else m2"] exI [of _ ev1] exI [of _ p]) simp
qed

section \<open>A small volume\<close>

text \<open>Sector 1 is the allocation table, cluster 2 (sector 2) the root directory with the file \<open>A\<close>, whose
  clusters 3 and 4 hold 600 bytes.\<close>

definition small_disk :: disk where
  "small_disk = \<lparr>dk_read = (\<lambda>s.
       if s = 1 then replicate 8 0 @ [0xF8, 0xFF, 0xFF, 0x0F, 4, 0, 0, 0, 0xF8, 0xFF, 0xFF, 0x0F] @ replicate 492 0
       else if s = 2 then [65] @ replicate 10 32 @ [0x20] @ replicate 14 0 @ [3, 0, 88, 2, 0, 0] @ replicate 480 0
       else if s = 3 then replicate 511 1 @ [2]
       else if s = 4 then [3, 4] @ replicate 510 0
       else replicate 512 0), dk_sector_size = 512\<rparr>"

definition small_vol :: Fat32 where
  "small_vol = \<lparr>f_buffer = replicate 512 0, fat_begin = 1, cluster_begin = 2, sectors_per_cluster = 1,
     root_dir_first_cluster = 2, sector_size = 512, f_sid = 0\<rparr>"

definition small_chain :: "u32 \<Rightarrow> u32 list" where
  "small_chain c = (if c = 2 then [2] else if c = 3 then [3, 4] else [c])"

definition small_machine :: machine where
  "small_machine = machine0\<lparr>heap_script := (\<lambda>k. Some (bump (k mod 1024)))\<rparr>"

lemma small_ok: "vol_ok small_disk small_vol" "csize small_vol = 512" "heap_ok small_machine"
proof -
  show "vol_ok small_disk small_vol" by (simp add: vol_ok_def small_disk_def small_vol_def)
  show "csize small_vol = 512" by (simp add: csize_def small_vol_def)
  have "bump (k mod 1024) \<noteq> 0" for k
  proof -
    have "k mod 1024 < 2 ^ 20" using mod_less_divisor [of 1024 k] by simp
    then show ?thesis using unat_bump [of "k mod 1024"] by auto
  qed
  then show "heap_ok small_machine" by (simp add: heap_ok_def small_machine_def)
qed

definition small_raw :: "u8 list" where
  "small_raw = [65] @ replicate 10 32 @ [0x20] @ replicate 14 0 @ [3, 0, 88, 2, 0, 0]"

definition small_blank :: "u8 list" where
  "small_blank = replicate 32 0"

definition small_entry :: DirEntry where
  "small_entry = \<lparr>file_name = [65, 32, 32, 32, 32, 32, 32, 32, 32, 32, 32], de_attr = 0x20, creation_time_sec = 0,
     creation_time = 0, creation_date = 0, last_access_date = 0, first_cluster_high = 0, last_mod_time = 0,
     last_mod_date = 0, first_cluster_low = 3, de_size = 600\<rparr>"

lemma small_root: "dir_entries small_disk small_vol [2] = small_raw # small_blank # replicate 14 small_blank"
  by code_simp

lemma small_raw_eq: "as_DirEntry small_raw = small_entry"
  unfolding small_entry_def DirEntry.ext_inject as_DirEntry_def small_raw_def by (intro conjI; code_simp)

lemma small_name: "is_end small_raw = False" "is_lfn small_raw = False" "is_end small_blank = True"
  "dir_entry_name small_entry = ''A''" "to_uppercase ''A'' = Some ''A''" "to_uppercase ''B'' = Some ''B''"
  by code_simp+

lemma small_lookup:
  "scan ''A'' (dir_entries small_disk small_vol [2]) = Some small_raw"
  "scan ''B'' (dir_entries small_disk small_vol [2]) = None"
  by (simp_all add: small_root small_name small_raw_eq name_matches_def del: to_uppercase.simps)

lemma small_table:
  "fat_entry small_disk small_vol 2 = 0x0FFFFFF8" "fat_entry small_disk small_vol 3 = 4" "fat_entry small_disk small_vol 4 = 0x0FFFFFF8"
  by (simp_all add: fat_entry_def small_disk_def small_vol_def u32_at_def bytes_at_def)

lemma small_chains: "chain small_disk small_vol [2]" "chain small_disk small_vol [3, 4]"
  by (simp_all add: small_table)

lemma small_path:
  "path_ok small_disk small_vol small_chain 16 (split_path ''/A'') (root_dir_first_cluster small_vol)"
  "resolve small_disk small_vol small_chain (split_path ''/A'') (root_dir_first_cluster small_vol) None = Some small_entry"
  "path_ok small_disk small_vol small_chain 16 (split_path ''B'') (root_dir_first_cluster small_vol)"
  "resolve small_disk small_vol small_chain (split_path ''B'') (root_dir_first_cluster small_vol) None = None"
  using small_lookup small_chains by (auto simp: small_vol_def small_chain_def small_raw_eq)

lemma small_first: "first_cluster small_entry = 3"
  by (simp add: first_cluster_def small_entry_def)

lemma small_data: "drop 510 (file_data small_disk small_vol [3, 4]) = [1, 2, 3, 4] @ replicate 510 0"
  by code_simp

section \<open>Properties\<close>

text \<open>C30: \<open>get_entry_from_path\<close> finds what following the path's names through the directories finds, each
  directory being the concatenation of its clusters' entries: the search crosses cluster boundaries, ends
  within one iteration per entry, leaves the volume unchanged but for its sector buffer, and gives back to
  the heap everything it took. For volumes of one sector per cluster, whose chains are well formed along
  the path.\<close>

theorem get_entry_from_path_resolves:
  assumes "vol_ok d f" "csize f = 512" "path_ok d f ch n (split_path path) (root_dir_first_cluster f)" "heap_ok m"
  shows "\<exists>b m' ev. heap_log m' = heap_log m @ ev \<and> balanced ev \<and>
    get_entry_from_path n d path (f, m) =
      (Ok (resolve d f ch (split_path path) (root_dir_first_cluster f) None) :: ('e, DirEntry option) result,
       (f\<lparr>f_buffer := b\<rparr>, m'))"
  using get_entry_eq [OF assms, where ?'e = 'e] by blast

theorem get_entry_from_path_resolves_witness:
  "\<exists>b m' ev. heap_log m' = heap_log small_machine @ ev \<and> balanced ev \<and>
    get_entry_from_path 16 small_disk ''/A'' (small_vol, small_machine) =
      (Ok (Some small_entry) :: (unit, DirEntry option) result, (small_vol\<lparr>f_buffer := b\<rparr>, m'))"
  using get_entry_from_path_resolves [OF small_ok(1,2) small_path(1) small_ok(3), where ?'e = unit]
  unfolding small_path(2) .

text \<open>\<open>read_at\<close> fills the caller's buffer with the bytes of the file from the offset on, across the
  clusters of its chain, as far as the chain goes, leaves the rest of the buffer alone, and returns
  their number; it always returns. (The bytes beyond the size the directory entry gives count as the file's:
  the code does not look at it.)\<close>

theorem fat_read_at_reads:
  assumes "vol_ok d f" "csize f = 512" "path_ok d f ch n (split_path path) (root_dir_first_cluster f)" "heap_ok m"
    "resolve d f ch (split_path path) (root_dir_first_cluster f) None = Some entry"
    "chain d f (first_cluster entry # cs)" "unat offset + length buffer < 2 ^ 32"
    "w = take (length buffer) (drop (unat offset) (file_data d f (first_cluster entry # cs)))"
  shows "\<exists>b m'. fat_read_at n d buffer path offset (f, m) =
    (Ok (of_nat (length w), w @ drop (length w) buffer), (f\<lparr>f_buffer := b\<rparr>, m'))"
  using fat_read_at_eq [OF assms(1-7) refl assms(8)] by blast

theorem fat_read_at_reads_witness:
  "\<exists>b m'. fat_read_at 16 small_disk [0, 0, 0, 0] ''/A'' 510 (small_vol, small_machine) =
    (Ok (4, [1, 2, 3, 4]), (small_vol\<lparr>f_buffer := b\<rparr>, m'))"
  using fat_read_at_reads [OF small_ok(1,2) small_path(1) small_ok(3) small_path(2), of "[4]" 510 "[0, 0, 0, 0]" "[1, 2, 3, 4]"]
    small_chains(2) small_data by (simp add: small_first del: file_data_simps chain.simps)

text \<open>A path that leads to no entry is an error of \<open>read_at\<close>, with the path in its message, and costs
  no memory.\<close>

theorem fat_read_at_missing:
  assumes "vol_ok d f" "csize f = 512" "path_ok d f ch n (split_path path) (root_dir_first_cluster f)" "heap_ok m"
    "resolve d f ch (split_path path) (root_dir_first_cluster f) None = None"
  shows "\<exists>b m' ev. heap_log m' = heap_log m @ ev \<and> balanced ev \<and>
    fat_read_at n d buffer path offset (f, m) = (Err (Msg (''file does not exist: '' @ path)), (f\<lparr>f_buffer := b\<rparr>, m'))"
proof -
  obtain b m' ev where "heap_log m' = heap_log m @ ev" "balanced ev"
    "entry_or_error n d path (f, m) = (Err (Msg (''file does not exist: '' @ path)), (f\<lparr>f_buffer := b\<rparr>, m'))"
    using entry_or_error_eq [OF assms(1-4)] assms(5) by auto
  then show ?thesis by (intro exI [of _ b] exI [of _ m'] exI [of _ ev]) (simp add: fat_read_at_def)
qed

theorem fat_read_at_missing_witness:
  "\<exists>b m' ev. heap_log m' = heap_log small_machine @ ev \<and> balanced ev \<and>
    fat_read_at 16 small_disk [0] ''B'' 0 (small_vol, small_machine) =
      (Err (Msg ''file does not exist: B''), (small_vol\<lparr>f_buffer := b\<rparr>, m'))"
  using fat_read_at_missing [OF small_ok(1,2) small_path(3) small_ok(3) small_path(4), of "[0]" 0] by simp

text \<open>A \<open>read_at\<close> that reaches the end of the file's last cluster leaks its temporary buffer: it returns
  from inside the loop, before the \<open>dealloc\<close>.\<close>

theorem fat_read_at_leaks:
  assumes "vol_ok d f" "csize f = 512" "path_ok d f ch n (split_path path) (root_dir_first_cluster f)" "heap_ok m"
    "resolve d f ch (split_path path) (root_dir_first_cluster f) None = Some entry"
    "chain d f (first_cluster entry # cs)" "unat offset + length buffer < 2 ^ 32"
    "buffer \<noteq> []" "length (file_data d f (first_cluster entry # cs)) - unat offset \<le> length buffer"
  shows "\<exists>r f' m' ev p. fat_read_at n d buffer path offset (f, m) = (r, (f', m')) \<and>
    heap_log m' = heap_log m @ ev @ [Allocated p (512, 8)] \<and> balanced ev"
proof -
  define data where "data = drop (unat offset) (file_data d f (first_cluster entry # cs))"
  have "length data \<le> length buffer" using assms(9) by (simp add: data_def del: file_data_simps)
  then have "\<exists>b m' ev p. balanced ev \<and>
    fat_read_at n d buffer path offset (f, m) = (Ok (of_nat (length (take (length buffer) data)),
      take (length buffer) data @ drop (length (take (length buffer) data)) buffer), (f\<lparr>f_buffer := b\<rparr>, m')) \<and>
    heap_log m' = heap_log m @ ev @ [Allocated p (512, 8)]"
    using fat_read_at_eq [OF assms(1-7) data_def refl] assms(8) by blast
  then show ?thesis by blast
qed

theorem fat_read_at_leaks_witness:
  "\<exists>r f' m' ev p. fat_read_at 16 small_disk (replicate 600 0) ''/A'' 510 (small_vol, small_machine) = (r, (f', m')) \<and>
    heap_log m' = heap_log small_machine @ ev @ [Allocated p (512, 8)] \<and> balanced ev"
proof (rule fat_read_at_leaks [OF small_ok(1,2) small_path(1) small_ok(3) small_path(2), of "[4]"])
  show "chain small_disk small_vol (first_cluster small_entry # [4])" using small_chains(2) by (simp add: small_first)
  show "length (file_data small_disk small_vol (first_cluster small_entry # [4])) - unat (510 :: usize) \<le> length (replicate 600 (0 :: u8))"
    using length_cluster_data [OF small_ok(1)] small_ok(2) by simp
qed simp_all

end
