(* ===== verification/File_System.thy ===== *)
theory File_System
  imports Fat_Files
begin

text \<open>
  The file system the rest of the kernel sees (\<open>src/src/fs.rs\<close>): a table of open files over a backing file
  system. The trait \<open>BackingFileSystem\<close> is the locale \<open>backing_fs\<close>, interpreted on the \<open>read_at\<close> and
  \<open>file_size\<close> of FAT32.
\<close>

section \<open>Operations\<close>

record File =
  fl_path :: string
  fl_fd :: usize
  fl_offset :: usize
  fl_size :: usize

record 's FileSystem =
  backing :: 's
  desc_table :: "usize \<rightharpoonup> File"
  curr_fd :: usize

datatype SeekWhence = SEEK_SET | SEEK_CUR | SEEK_END

fun whence_u32 :: "SeekWhence \<Rightarrow> u32" where
  "whence_u32 SEEK_SET = 0"
| "whence_u32 SEEK_CUR = 1"
| "whence_u32 SEEK_END = 2"

definition File_new :: "string \<Rightarrow> usize \<Rightarrow> usize \<Rightarrow> File" where
  "File_new path fd sz = \<lparr>fl_path = path, fl_fd = fd, fl_offset = 0, fl_size = sz\<rparr>"

definition FileSystem_new :: "'s \<Rightarrow> 's FileSystem" where
  "FileSystem_new b = \<lparr>backing = b, desc_table = Map.empty, curr_fd = 3\<rparr>"

type_synonym 's size_op = "string \<Rightarrow> 's \<Rightarrow> (Error, usize) result \<times> 's"
type_synonym 's read_op = "u8 list \<Rightarrow> string \<Rightarrow> usize \<Rightarrow> 's \<Rightarrow> (Error, usize \<times> u8 list) result \<times> 's"

text \<open>The operations take the backing file system's \<open>file_size\<close> or \<open>read_at\<close> as an argument. The descriptor
  of a failed \<open>open_file\<close> is used up all the same.\<close>

definition open_file :: "'s size_op \<Rightarrow> string \<Rightarrow> 's FileSystem \<Rightarrow> (Error, usize) result \<times> 's FileSystem" where
  "open_file file_size path s =
     (let fd = curr_fd s;
          s1 = s\<lparr>curr_fd := curr_fd s + 1\<rparr>
      in case file_size path (backing s1) of
           (Ok sz, b) \<Rightarrow> (Ok fd, s1\<lparr>backing := b, desc_table := (desc_table s1)(fd \<mapsto> File_new path fd sz)\<rparr>)
         | (Err e, b) \<Rightarrow> (Err e, s1\<lparr>backing := b\<rparr>)
         | (Panic m, b) \<Rightarrow> (Panic m, s1\<lparr>backing := b\<rparr>))"

definition get_file_size :: "usize \<Rightarrow> 's FileSystem \<Rightarrow> (Error, usize) result" where
  "get_file_size fd s = (case desc_table s fd of None \<Rightarrow> Err FileNotOpen | Some file \<Rightarrow> Ok (fl_size file))"

definition set_offset :: "usize \<Rightarrow> (File \<Rightarrow> usize) \<Rightarrow> 's FileSystem \<Rightarrow> (Error, usize) result \<times> 's FileSystem" where
  "set_offset fd to s =
     (case desc_table s fd of
        None \<Rightarrow> (Err FileNotOpen, s)
      | Some file \<Rightarrow> (Ok (to file), s\<lparr>desc_table := (desc_table s)(fd \<mapsto> file\<lparr>fl_offset := to file\<rparr>)\<rparr>))"

text \<open>\<open>seek\<close>: sums of \<open>isize\<close> are sums of the words they are stored in.\<close>

definition seek :: "usize \<Rightarrow> usize \<Rightarrow> u32 \<Rightarrow> 's FileSystem \<Rightarrow> (Error, usize) result \<times> 's FileSystem" where
  "seek fd off whence s =
     (if whence = whence_u32 SEEK_SET then set_offset fd (\<lambda>_. off) s
      else if whence = whence_u32 SEEK_CUR then set_offset fd (\<lambda>file. fl_offset file + off) s
      else if whence = whence_u32 SEEK_END then set_offset fd (\<lambda>file. fl_size file + off) s
      else (Err UnknownOption, s))"

definition fs_read :: "'s read_op \<Rightarrow> usize \<Rightarrow> u8 list \<Rightarrow> 's FileSystem \<Rightarrow> (Error, usize \<times> u8 list) result \<times> 's FileSystem" where
  "fs_read read_at fd buffer s =
     (case desc_table s fd of
        None \<Rightarrow> (Err FileNotOpen, s)
      | Some file \<Rightarrow>
          (case read_at buffer (fl_path file) (fl_offset file) (backing s) of
             (Ok (n, buffer'), b) \<Rightarrow>
               (Ok (n, buffer'),
                s\<lparr>backing := b, desc_table := (desc_table s)(fd \<mapsto> file\<lparr>fl_offset := fl_offset file + n\<rparr>)\<rparr>)
           | (Err e, b) \<Rightarrow> (Err e, s\<lparr>backing := b\<rparr>)
           | (Panic m, b) \<Rightarrow> (Panic m, s\<lparr>backing := b\<rparr>)))"

text \<open>The bytes a client collects from a sequence of reads.\<close>

fun fs_reads :: "'s read_op \<Rightarrow> usize \<Rightarrow> u8 list list \<Rightarrow> 's FileSystem \<Rightarrow> (Error, u8 list) result \<times> 's FileSystem" where
  "fs_reads read_at fd [] s = (Ok [], s)"
| "fs_reads read_at fd (buffer # buffers) s =
     and_then (fs_read read_at fd buffer s) (\<lambda>(n, buffer') s'.
     and_then (fs_reads read_at fd buffers s') (\<lambda>rest s''.
     (Ok (take (unat n) buffer' @ rest), s'')))"

section \<open>The table of open files\<close>

text \<open>Every open file has its own number, at least 3 and below the next one to be given.\<close>

definition fs_ok :: "'s FileSystem \<Rightarrow> bool" where
  "fs_ok s \<longleftrightarrow> 3 \<le> curr_fd s \<and>
     (\<forall>fd file. desc_table s fd = Some file \<longrightarrow> 3 \<le> fd \<and> fd < curr_fd s \<and> fl_fd file = fd)"

lemma set_offset_ok: "fs_ok s \<Longrightarrow> fs_ok (snd (set_offset fd to s))"
  by (auto simp: set_offset_def fs_ok_def split: option.split)

lemma seek_ok: "fs_ok s \<Longrightarrow> fs_ok (snd (seek fd off w s))"
  by (simp add: seek_def set_offset_ok)

lemma fs_read_ok: "fs_ok s \<Longrightarrow> fs_ok (snd (fs_read read_at fd buffer s))"
  by (auto simp: fs_read_def fs_ok_def split: option.split prod.split result.split)

lemma open_file_ok:
  assumes "fs_ok s" "curr_fd s + 1 \<noteq> 0"
  shows "fs_ok (snd (open_file file_size path s))"
proof -
  have next': "unat (curr_fd s + 1) = Suc (unat (curr_fd s))"
    using unatSuc [of "curr_fd s"] assms(2) by (simp add: add.commute)
  show ?thesis using assms(1) next'
    by (auto simp: open_file_def fs_ok_def File_new_def Let_def word_less_nat_alt word_le_nat_alt
        split: prod.split result.split if_splits intro: less_SucI)
qed

section \<open>Backing file systems\<close>

text \<open>What \<open>fs.rs\<close> relies on: reading delivers the bytes of the file from the offset on, as many as there
  are and as fit, and changes no file. Offsets are limited by \<open>bound\<close>.\<close>

locale backing_fs =
  fixes file_size :: "'s size_op" and read_at :: "'s read_op" and inv :: "'s \<Rightarrow> bool"
    and content :: "string \<Rightarrow> u8 list option" and fsize :: "string \<Rightarrow> usize" and bound :: nat
  assumes size_law: "inv b \<Longrightarrow> content path = Some data \<Longrightarrow> \<exists>b'. inv b' \<and> file_size path b = (Ok (fsize path), b')"
    and read_law: "inv b \<Longrightarrow> content path = Some data \<Longrightarrow> unat off + length buf < bound \<Longrightarrow>
      w = take (length buf) (drop (unat off) data) \<Longrightarrow>
      \<exists>b'. inv b' \<and> read_at buf path off b = (Ok (of_nat (length w), w @ drop (length w) buf), b')"
    and bound_word: "bound \<le> 2 ^ 64"
begin

text \<open>An open file at an offset.\<close>

definition opened :: "'s FileSystem \<Rightarrow> usize \<Rightarrow> string \<Rightarrow> nat \<Rightarrow> bool" where
  "opened s fd path off \<longleftrightarrow> inv (backing s) \<and>
     (\<exists>file. desc_table s fd = Some file \<and> fl_path file = path \<and> unat (fl_offset file) = off \<and> fl_size file = fsize path)"

lemma open_file_opens:
  assumes "inv (backing s)" "content path = Some data"
  shows "\<exists>s'. open_file file_size path s = (Ok (curr_fd s), s') \<and> opened s' (curr_fd s) path 0 \<and>
    (\<forall>fd. fd \<noteq> curr_fd s \<longrightarrow> desc_table s' fd = desc_table s fd)"
proof -
  obtain b where "inv b" "file_size path (backing s) = (Ok (fsize path), b)" using size_law [OF assms] by blast
  then show ?thesis by (simp add: open_file_def Let_def opened_def File_new_def)
qed

lemma read_advances:
  assumes "opened s fd path off" "content path = Some data" "off + length buf < bound"
    "w = take (length buf) (drop off data)"
  shows "\<exists>s'. fs_read read_at fd buf s = (Ok (of_nat (length w), w @ drop (length w) buf), s') \<and>
    opened s' fd path (off + length w) \<and> (\<forall>fd'. fd' \<noteq> fd \<longrightarrow> desc_table s' fd' = desc_table s fd')"
proof -
  obtain f where fl: "desc_table s fd = Some f" "fl_path f = path" "unat (fl_offset f) = off" "fl_size f = fsize path"
    "inv (backing s)"
    using assms(1) unfolding opened_def by blast
  obtain b where b: "inv b" "read_at buf path (fl_offset f) (backing s) = (Ok (of_nat (length w), w @ drop (length w) buf), b)"
    using read_law [OF fl(5) assms(2), of "fl_offset f" buf w] assms(3,4) fl(3) by auto
  have "off + length w < 2 ^ 64" using assms(3,4) bound_word by simp
  then have "unat (fl_offset f + of_nat (length w)) = off + length w"
    using fl(3) by (simp add: unat_word_ariths unat_of_nat)
  then show ?thesis using fl b by (simp add: fs_read_def opened_def)
qed

lemma seek_moves:
  assumes "opened s fd path off"
  shows "\<exists>s'. seek fd off' (whence_u32 SEEK_SET) s = (Ok off', s') \<and> opened s' fd path (unat off')"
    "\<exists>s'. seek fd d (whence_u32 SEEK_CUR) s = (Ok (of_nat off + d), s') \<and> opened s' fd path (unat (of_nat off + d :: usize))"
    "\<exists>s'. seek fd d (whence_u32 SEEK_END) s = (Ok (fsize path + d), s') \<and> opened s' fd path (unat (fsize path + d))"
  using assms unfolding opened_def seek_def set_offset_def by (auto simp: fun_upd_def)

text \<open>Reading in pieces.\<close>

lemma reads_content:
  assumes "opened s fd path off" "content path = Some data" "off + sum_list (map length bufs) < bound"
  shows "\<exists>s'. fs_reads read_at fd bufs s = (Ok (take (sum_list (map length bufs)) (drop off data)), s') \<and>
    opened s' fd path (min (off + sum_list (map length bufs)) (max off (length data)))"
  using assms
proof (induction bufs arbitrary: s off)
  case (Cons buf bufs)
  define w where "w = take (length buf) (drop off data)"
  have lw: "length w < 2 ^ 64" using Cons.prems(3) bound_word by (simp add: w_def)
  obtain s1 where s1: "fs_read read_at fd buf s = (Ok (of_nat (length w), w @ drop (length w) buf), s1)"
    "opened s1 fd path (off + length w)"
    using read_advances [OF Cons.prems(1,2) _ w_def] Cons.prems(3) by auto
  let ?n = "sum_list (map length bufs)"
  have "off + length w + ?n < bound" using Cons.prems(3) by (simp add: w_def)
  then obtain s2 where s2: "fs_reads read_at fd bufs s1 = (Ok (take ?n (drop (off + length w) data)), s2)"
    "opened s2 fd path (min (off + length w + ?n) (max (off + length w) (length data)))"
    using Cons.IH [OF s1(2) Cons.prems(2)] by blast
  have "w @ take ?n (drop (off + length w) data) = take (length buf + ?n) (drop off data)"
    unfolding take_add by (simp add: w_def min_def add.commute)
  moreover have "min (off + length w + ?n) (max (off + length w) (length data)) =
      min (off + (length buf + ?n)) (max off (length data))"
    by (auto simp: w_def min_def max_def)
  ultimately show ?case using s1 s2 lw by (simp add: unat_of_nat)
qed (simp add: max_def)

end

section \<open>FAT32 as the backing file system\<close>

text \<open>The volume \<open>f0\<close> with any contents of its sector buffer. \<open>ch\<close> gives the chain of each first cluster;
  a path with sound chains has the bytes of its chain as its content.\<close>

definition fat_inv :: "disk \<Rightarrow> Fat32 \<Rightarrow> Fat32 \<times> machine \<Rightarrow> bool" where
  "fat_inv d f0 s \<longleftrightarrow> vol_ok d (fst s) \<and> csize (fst s) = 512 \<and> heap_ok (snd s) \<and> (\<exists>b. fst s = f0\<lparr>f_buffer := b\<rparr>)"

definition fat_lookup :: "disk \<Rightarrow> Fat32 \<Rightarrow> (u32 \<Rightarrow> u32 list) \<Rightarrow> nat \<Rightarrow> string \<Rightarrow> DirEntry option" where
  "fat_lookup d f0 ch n path =
     (if path_ok d f0 ch n (split_path path) (root_dir_first_cluster f0)
      then resolve d f0 ch (split_path path) (root_dir_first_cluster f0) None else None)"

definition fat_content :: "disk \<Rightarrow> Fat32 \<Rightarrow> (u32 \<Rightarrow> u32 list) \<Rightarrow> nat \<Rightarrow> string \<Rightarrow> u8 list option" where
  "fat_content d f0 ch n path =
     (case fat_lookup d f0 ch n path of
        None \<Rightarrow> None
      | Some e \<Rightarrow> if hd (ch (first_cluster e)) = first_cluster e \<and> chain d f0 (ch (first_cluster e))
                  then Some (file_data d f0 (ch (first_cluster e))) else None)"

definition fat_size :: "disk \<Rightarrow> Fat32 \<Rightarrow> (u32 \<Rightarrow> u32 list) \<Rightarrow> nat \<Rightarrow> string \<Rightarrow> usize" where
  "fat_size d f0 ch n path = (case fat_lookup d f0 ch n path of None \<Rightarrow> 0 | Some e \<Rightarrow> ucast (de_size e))"

lemma fat_contentE:
  assumes "fat_content d f0 ch n path = Some data"
  obtains e cs where "fat_lookup d f0 ch n path = Some e" "path_ok d f0 ch n (split_path path) (root_dir_first_cluster f0)"
    "resolve d f0 ch (split_path path) (root_dir_first_cluster f0) None = Some e"
    "chain d f0 (first_cluster e # cs)" "data = file_data d f0 (first_cluster e # cs)"
proof -
  obtain e where e: "fat_lookup d f0 ch n path = Some e" "hd (ch (first_cluster e)) = first_cluster e"
    "chain d f0 (ch (first_cluster e))" "data = file_data d f0 (ch (first_cluster e))"
    using assms by (auto simp: fat_content_def split: option.splits if_splits)
  then obtain cs where "ch (first_cluster e) = first_cluster e # cs" by (cases "ch (first_cluster e)") auto
  with e show ?thesis using that [of e cs] by (auto simp: fat_lookup_def split: if_splits)
qed

lemma root_same [simp]: "root_dir_first_cluster (f\<lparr>f_buffer := b\<rparr>) = root_dir_first_cluster f"
  by simp

interpretation fat_fs: backing_fs "fat_file_size n d" "fat_read_at n d" "fat_inv d f0" "fat_content d f0 ch n"
  "fat_size d f0 ch n" "2 ^ 32" for n d f0 ch
proof unfold_locales
  fix s :: "Fat32 \<times> machine" and path data
  assume inv: "fat_inv d f0 s" and content: "fat_content d f0 ch n path = Some data"
  obtain b m where s: "s = (f0\<lparr>f_buffer := b\<rparr>, m)" using inv by (cases s) (auto simp: fat_inv_def)
  have vol: "vol_ok d (f0\<lparr>f_buffer := b\<rparr>)" "csize (f0\<lparr>f_buffer := b\<rparr>) = 512" and hp: "heap_ok m"
    using inv by (simp_all add: fat_inv_def s)
  obtain e cs where e: "fat_lookup d f0 ch n path = Some e" "path_ok d f0 ch n (split_path path) (root_dir_first_cluster f0)"
    "resolve d f0 ch (split_path path) (root_dir_first_cluster f0) None = Some e"
    "chain d f0 (first_cluster e # cs)" "data = file_data d f0 (first_cluster e # cs)"
    using fat_contentE [OF content] .
  have path: "path_ok d (f0\<lparr>f_buffer := b\<rparr>) ch n (split_path path) (root_dir_first_cluster (f0\<lparr>f_buffer := b\<rparr>))"
    "resolve d (f0\<lparr>f_buffer := b\<rparr>) ch (split_path path) (root_dir_first_cluster (f0\<lparr>f_buffer := b\<rparr>)) None = Some e"
    using e(2,3) by simp_all
  have inv': "fat_inv d f0 (f0\<lparr>f_buffer := b'\<rparr>, m')" if "length b' = 512" "heap_ok m'" for b' m'
    using vol_okD(6) [OF vol(1) that(1)] vol(2) that(2) by (auto simp: fat_inv_def)
  show "\<exists>s'. fat_inv d f0 s' \<and> fat_file_size n d path s = (Ok (fat_size d f0 ch n path), s')"
  proof -
    obtain b' m' where "length b' = 512" "heap_ok m'"
      "entry_or_error n d path s = (Ok e, (f0\<lparr>f_buffer := b'\<rparr>, m'))"
      using entry_or_error_eq [OF vol path(1) hp] path(2) by (auto simp: s)
    then show ?thesis using inv' e(1)
      by (intro exI [of _ "(f0\<lparr>f_buffer := b'\<rparr>, m')"]) (simp add: fat_file_size_def fat_size_def)
  qed
  fix off :: usize and buf w :: "u8 list"
  assume small: "unat off + length buf < 2 ^ 32" and w: "w = take (length buf) (drop (unat off) data)"
  show "\<exists>s'. fat_inv d f0 s' \<and> fat_read_at n d buf path off s = (Ok (of_nat (length w), w @ drop (length w) buf), s')"
  proof -
    obtain b' m' where "length b' = 512" "heap_ok m'"
      "fat_read_at n d buf path off s = (Ok (of_nat (length w), w @ drop (length w) buf), (f0\<lparr>f_buffer := b'\<rparr>, m'))"
      using fat_read_at_eq [OF vol path(1) hp path(2) _ small refl, of cs w] e(4,5) w by (auto simp: s)
    then show ?thesis using inv' by blast
  qed
qed simp

section \<open>Properties\<close>

lemma small_inv: "fat_inv small_disk small_vol (small_vol, small_machine)"
  using small_ok by (auto simp: fat_inv_def intro: exI [of _ "f_buffer small_vol"])

lemma small_content: "fat_content small_disk small_vol small_chain 16 ''/A'' = Some (file_data small_disk small_vol [3, 4])"
  using small_path(1,2) small_chains(2) by (simp add: fat_content_def fat_lookup_def small_first small_chain_def)



text \<open>\<open>seek\<close> from the start of a file and then \<open>read\<close>: the bytes at that place, wherever the file's offset
  was before, and no other open file's offset moves.\<close>

theorem seek_then_read:
  assumes "fat_inv d f0 (backing s)" "desc_table s fd = Some fl" "fl_size fl = fat_size d f0 ch n (fl_path fl)"
    "fat_content d f0 ch n (fl_path fl) = Some data" "unat off + length buf < 2 ^ 32"
    "w = take (length buf) (drop (unat off) data)"
  shows "\<exists>s1 s2. seek fd off (whence_u32 SEEK_SET) s = (Ok off, s1) \<and>
    fs_read (fat_read_at n d) fd buf s1 = (Ok (of_nat (length w), w @ drop (length w) buf), s2) \<and>
    map_option fl_offset (desc_table s2 fd) = Some (off + of_nat (length w)) \<and>
    (\<forall>fd'. fd' \<noteq> fd \<longrightarrow> desc_table s2 fd' = desc_table s fd')"
proof -
  define s1 where "s1 = s\<lparr>desc_table := (desc_table s)(fd \<mapsto> fl\<lparr>fl_offset := off\<rparr>)\<rparr>"
  have s1: "seek fd off (whence_u32 SEEK_SET) s = (Ok off, s1)"
    using assms(2) by (simp add: seek_def set_offset_def s1_def)
  have "fat_fs.opened d f0 ch n s1 fd (fl_path fl) (unat off)"
    using assms(1,3) by (simp add: fat_fs.opened_def s1_def)
  then obtain s2 where s2: "fs_read (fat_read_at n d) fd buf s1 = (Ok (of_nat (length w), w @ drop (length w) buf), s2)"
    "fat_fs.opened d f0 ch n s2 fd (fl_path fl) (unat off + length w)"
    "\<forall>fd'. fd' \<noteq> fd \<longrightarrow> desc_table s2 fd' = desc_table s1 fd'"
    using fat_fs.read_advances [OF _ assms(4,5,6)] by blast
  have "map_option fl_offset (desc_table s2 fd) = Some (off + of_nat (length w))"
    using s2(1) by (auto simp: fs_read_def s1_def split: prod.splits result.splits)
  with s1 s2(1,3) show ?thesis by (simp add: s1_def)
qed

theorem seek_then_read_witness:
  "\<exists>s1 s2. seek 3 510 (whence_u32 SEEK_SET) (\<lparr>backing = (small_vol, small_machine),
      desc_table = [3 \<mapsto> File_new ''/A'' 3 600, 4 \<mapsto> File_new ''/A'' 4 600], curr_fd = 5\<rparr>) = (Ok 510, s1) \<and>
    fs_read (fat_read_at 16 small_disk) 3 [0, 0, 0, 0] s1 = (Ok (4, [1, 2, 3, 4]), s2) \<and>
    map_option fl_offset (desc_table s2 3) = Some 514 \<and>
    (\<forall>fd'. fd' \<noteq> 3 \<longrightarrow> desc_table s2 fd' = [3 \<mapsto> File_new ''/A'' 3 600, 4 \<mapsto> File_new ''/A'' 4 600] fd')"
proof -
  let ?s = "\<lparr>backing = (small_vol, small_machine),
    desc_table = [3 \<mapsto> File_new ''/A'' 3 600, 4 \<mapsto> File_new ''/A'' 4 600], curr_fd = 5\<rparr> :: (Fat32 \<times> machine) FileSystem"
  have 1: "fat_inv small_disk small_vol (backing ?s)" using small_inv by simp
  have 2: "fat_size small_disk small_vol small_chain 16 ''/A'' = 600"
    using small_path(1,2) by (simp add: fat_size_def fat_lookup_def small_entry_def)
  have 3: "fat_content small_disk small_vol small_chain 16 (fl_path (File_new ''/A'' 3 600)) = Some (file_data small_disk small_vol [3, 4])"
    using small_content by (simp add: File_new_def del: file_data_simps)
  show ?thesis
    using seek_then_read [OF 1 _ _ 3, of 3 510 "[0, 0, 0, 0]" "[1, 2, 3, 4]"] 2 small_data
    by (simp add: File_new_def del: file_data_simps)
qed

text \<open>C33: descriptors are never shared: as long as the 64-bit counter does not wrap around, every operation
  keeps the table well formed, with every open file under its own number, from 3 (0, 1 and 2 are left for the
  standard streams) to below the next number to be given.\<close>

theorem fs_operations_keep_descriptors:
  assumes "fs_ok s" "curr_fd s + 1 \<noteq> 0"
  shows "fs_ok (FileSystem_new b) \<and> fs_ok (snd (open_file file_size path s)) \<and> desc_table s (curr_fd s) = None \<and>
    fs_ok (snd (seek fd off w s)) \<and> fs_ok (snd (fs_read read_at fd buf s))"
proof -
  have "desc_table s (curr_fd s) = None" using assms(1) by (cases "desc_table s (curr_fd s)") (auto simp: fs_ok_def)
  moreover have "fs_ok (FileSystem_new b)" by (simp add: FileSystem_new_def fs_ok_def)
  ultimately show ?thesis using assms by (simp add: open_file_ok seek_ok fs_read_ok)
qed

theorem fs_operations_keep_descriptors_witness:
  "fs_ok (snd (open_file (fat_file_size 16 small_disk) ''/A'' (FileSystem_new (small_vol, small_machine))))"
  using fs_operations_keep_descriptors [of "FileSystem_new (small_vol, small_machine)" "(small_vol, small_machine)"]
  by (simp add: FileSystem_new_def fs_ok_def)

end
