(* ===== verification/Graphics.thy ===== *)
theory Graphics
  imports Machine
begin

text \<open>
  Layers, windows and frame buffers (\<open>src/src/graphics.rs\<close>).

  The painter (the trait \<open>Painter\<close>: the display device) is a parameter, a record of its methods. So is the
  crate \<open>embedded_graphics\<close>: a shape, a text or an image is the sequence of pixels it gives to
  \<open>draw_iter\<close>. Pixel buffers are blocks of words under the address the heap gave them; frame buffers are
  handles to them, so that a window's frame is shared with the program that draws into it. An access
  beyond the end of a block ends in \<open>Panic\<close>. \<open>i32\<close> is a word read with \<open>sint\<close>.
\<close>

section \<open>Painters, frame buffers and objects\<close>

type_synonym 'a gres = "(unit, 'a) result"

record 't painter =
  pt_draw_at :: "u32 \<Rightarrow> u32 \<Rightarrow> u32 \<Rightarrow> 't \<Rightarrow> unit gres \<times> 't"
  pt_flush :: "'t \<Rightarrow> unit gres \<times> 't"
  pt_get_width :: "'t \<Rightarrow> u32"
  pt_get_height :: "'t \<Rightarrow> u32"

type_synonym eg_pixel = "u32 \<times> u32 \<times> u8 list"

record embedded_graphics =
  eg_rectangle :: "u32 \<Rightarrow> u32 \<Rightarrow> u8 \<times> u8 \<times> u8 \<Rightarrow> eg_pixel list"
  eg_text :: "string \<Rightarrow> eg_pixel list"
  eg_wallpaper :: "eg_pixel list"

record FrameBuffer =
  fb_buffer :: usize
  fb_width :: u32
  fb_height :: u32

datatype ObjectEvent = MouseLeftPress u32 u32 | MouseLeftRelease u32 u32

record Window =
  w_frame :: FrameBuffer
  w_title :: string
  title_bar_height :: u32

record Desktop =
  bg_color :: u32
  d_width :: u32
  d_height :: u32
  d_buffer :: usize

datatype Object = Mouse u32 | WindowObj Window | DesktopObj Desktop

record ObjectArena =
  oa_map :: "usize \<rightharpoonup> Object"
  oa_curr_id :: usize

record Layer =
  l_id :: usize
  l_object :: usize
  l_buffer :: FrameBuffer
  l_x :: u32
  l_y :: u32
  l_width :: u32
  l_height :: u32
  prev_x :: u32
  prev_y :: u32
  prev_width :: u32
  prev_height :: u32
  display_width :: u32
  display_height :: u32
  transparent :: "u32 option"

record EventInfo =
  pressed_id :: usize
  pressed_x :: u32
  pressed_y :: u32

record 't LayerManager =
  lm_painter :: 't
  layers :: "usize \<rightharpoonup> Layer"
  layer_stack :: "usize list"
  lm_curr_id :: usize
  event_info :: EventInfo

record 't Gfx =
  g_mach :: machine
  blocks :: "usize \<rightharpoonup> u32 list"
  arena :: ObjectArena
  lman :: "'t LayerManager"
  wman :: "usize \<rightharpoonup> usize"
  MOUSE_LAYER_ID :: usize
  DESKTOP_LAYER_ID :: usize

type_synonym pix = "usize \<rightharpoonup> u32 list"

text \<open>A \<open>for\<close> loop, and the values of a range of \<open>u32\<close>.\<close>

fun each :: "('a \<Rightarrow> 's \<Rightarrow> unit gres \<times> 's) \<Rightarrow> 'a list \<Rightarrow> 's \<Rightarrow> unit gres \<times> 's" where
  "each f [] s = (Ok (), s)"
| "each f (x # xs) s = and_then (f x s) (\<lambda>_. each f xs)"

definition u32_range :: "u32 \<Rightarrow> u32 \<Rightarrow> u32 list" where
  "u32_range a b = map of_nat [unat a..<unat b]"

section \<open>Object arena\<close>

definition ObjectArena_new :: ObjectArena where
  "ObjectArena_new = \<lparr>oa_map = Map.empty, oa_curr_id = 0\<rparr>"

definition arena_alloc :: "Object \<Rightarrow> ObjectArena \<Rightarrow> usize \<times> ObjectArena" where
  "arena_alloc obj a =
     (oa_curr_id a, a\<lparr>oa_curr_id := oa_curr_id a + 1, oa_map := (oa_map a)(oa_curr_id a \<mapsto> obj)\<rparr>)"

definition arena_get :: "ObjectArena \<Rightarrow> usize \<Rightarrow> Object option" where
  "arena_get a oid = oa_map a oid"

definition arena_remove :: "usize \<Rightarrow> ObjectArena \<Rightarrow> Object option \<times> ObjectArena" where
  "arena_remove oid a = (oa_map a oid, a\<lparr>oa_map := (oa_map a)(oid := None)\<rparr>)"

section \<open>Frame buffers\<close>

definition block_write :: "usize \<Rightarrow> nat \<Rightarrow> u32 \<Rightarrow> pix \<Rightarrow> unit gres \<times> pix" where
  "block_write b i p bl =
     (case bl b of
        None \<Rightarrow> (Panic ''write outside a block'', bl)
      | Some ws \<Rightarrow> if i < length ws then (Ok (), bl(b \<mapsto> ws[i := p])) else (Panic ''write outside a block'', bl))"

definition block_read :: "usize \<Rightarrow> nat \<Rightarrow> pix \<Rightarrow> u32 gres" where
  "block_read b i bl =
     (case bl b of
        None \<Rightarrow> Panic ''read outside a block''
      | Some ws \<Rightarrow> if i < length ws then Ok (ws ! i) else Panic ''read outside a block'')"

definition fb_draw_at :: "FrameBuffer \<Rightarrow> u32 \<Rightarrow> u32 \<Rightarrow> u32 \<Rightarrow> pix \<Rightarrow> unit gres \<times> pix" where
  "fb_draw_at fb x y pixel bl = block_write (fb_buffer fb) (unat (y * fb_width fb + x)) pixel bl"

definition get_pixel :: "FrameBuffer \<Rightarrow> u32 \<Rightarrow> u32 \<Rightarrow> pix \<Rightarrow> u32 gres" where
  "get_pixel fb x y bl = block_read (fb_buffer fb) (unat (y * fb_width fb + x)) bl"

text \<open>\<open>copy_buf\<close>: words of a block, which may be the frame buffer's own, to a place in the frame buffer.\<close>

definition copy_words :: "nat \<Rightarrow> nat \<Rightarrow> nat \<Rightarrow> u32 list \<Rightarrow> u32 list \<Rightarrow> u32 list option" where
  "copy_words src_offset dst_offset n ws vs =
     (if src_offset + n \<le> length ws \<and> dst_offset + n \<le> length vs
      then Some (take dst_offset vs @ take n (drop src_offset ws) @ drop (dst_offset + n) vs) else None)"

definition fb_copy_buf :: "FrameBuffer \<Rightarrow> usize \<Rightarrow> usize \<Rightarrow> usize \<Rightarrow> usize \<Rightarrow> pix \<Rightarrow> unit gres \<times> pix" where
  "fb_copy_buf fb src src_offset dst_offset n bl =
     (case (bl src, bl (fb_buffer fb)) of
        (Some ws, Some vs) \<Rightarrow>
          (case copy_words (unat src_offset) (unat dst_offset) (unat n) ws vs of
             Some vs' \<Rightarrow> (Ok (), bl(fb_buffer fb \<mapsto> vs'))
           | None \<Rightarrow> (Panic ''copy outside a block'', bl))
      | _ \<Rightarrow> (Panic ''copy outside a block'', bl))"

text \<open>\<open>alloc_zeroed\<close> of a block of pixels; its size is computed in \<open>u32\<close>.\<close>

definition alloc_block :: "u32 \<Rightarrow> u32 \<Rightarrow> machine \<Rightarrow> pix \<Rightarrow> usize \<times> machine \<times> pix" where
  "alloc_block width height m bl =
     (let bytes = width * 4 * height
      in case alloc_zeroed (ucast bytes, 0x1000) m of (p, m') \<Rightarrow>
           (p, m', if p = 0 then bl else bl(p \<mapsto> replicate (unat bytes div 4) 0)))"

definition FrameBuffer_new :: "u32 \<Rightarrow> u32 \<Rightarrow> machine \<Rightarrow> pix \<Rightarrow> FrameBuffer \<times> machine \<times> pix" where
  "FrameBuffer_new width height m bl =
     (case alloc_block width height m bl of (p, m', bl') \<Rightarrow>
        (\<lparr>fb_buffer = p, fb_width = width, fb_height = height\<rparr>, m', bl'))"

fun le_word :: "nat \<Rightarrow> u8 list \<Rightarrow> u32" where
  "le_word i [] = 0"
| "le_word i (b # bs) = push_bit (i * 8) (ucast b) OR le_word (Suc i) bs"

definition draw_pixel :: "FrameBuffer \<Rightarrow> eg_pixel \<Rightarrow> pix \<Rightarrow> unit gres \<times> pix" where
  "draw_pixel fb p bl =
     (case p of (x, y, bytes) \<Rightarrow>
        if sint x \<ge> sint (fb_width fb) \<or> sint y \<ge> sint (fb_height fb) \<or> sint x < 0 \<or> sint y < 0 then (Ok (), bl)
        else fb_draw_at fb x y (0xff000000 OR le_word 0 bytes) bl)"

definition draw_iter :: "FrameBuffer \<Rightarrow> eg_pixel list \<Rightarrow> pix \<Rightarrow> unit gres \<times> pix" where
  "draw_iter fb pixels = each (draw_pixel fb) pixels"

section \<open>Objects\<close>

definition MOUSE_CURSOR :: "string list" where
  "MOUSE_CURSOR =
    [''................'',
     ''................'',
     ''..#.............'',
     ''..##............'',
     ''..#=#...........'',
     ''..#==#..........'',
     ''..#===#.........'',
     ''..#====#........'',
     ''..#=====#.......'',
     ''..#======#......'',
     ''..#=======#.....'',
     ''..#========#....'',
     ''..#=========#...'',
     ''..#==========#..'',
     ''..#======#####..'',
     ''..#===#==#......'',
     ''..#==#.#==#.....'',
     ''..#=#..#==#.....'',
     ''..##....#==#....'',
     ''........#==#....'',
     ''.........##.....'',
     ''................'',
     ''................'']"

definition mouse_draw_to :: "u32 \<Rightarrow> FrameBuffer \<Rightarrow> u32 \<Rightarrow> u32 \<Rightarrow> pix \<Rightarrow> unit gres \<times> pix" where
  "mouse_draw_to tcol fb x y =
     each (\<lambda>(ty, s). each (\<lambda>(tx, ch) bl.
        if x + of_nat tx \<ge> fb_width fb \<or> y + of_nat ty \<ge> fb_height fb then (Ok (), bl)
        else if ch = CHR ''.'' then fb_draw_at fb (of_nat tx) (of_nat ty) tcol bl
        else if ch = CHR ''#'' then fb_draw_at fb (of_nat tx) (of_nat ty) 0xff000000 bl
        else if ch = CHR ''='' then fb_draw_at fb (of_nat tx) (of_nat ty) 0xffffffff bl
        else (Ok (), bl)) (enumerate 0 s)) (enumerate 0 MOUSE_CURSOR)"

definition Window_new :: "u32 \<Rightarrow> u32 \<Rightarrow> machine \<Rightarrow> pix \<Rightarrow> Window \<times> machine \<times> pix" where
  "Window_new width height m bl =
     (case FrameBuffer_new width height m bl of (fb, m', bl') \<Rightarrow>
        (\<lparr>w_frame = fb, w_title = '''', title_bar_height = 30\<rparr>, m', bl'))"

definition draw_title_bar :: "embedded_graphics \<Rightarrow> Window \<Rightarrow> FrameBuffer \<Rightarrow> pix \<Rightarrow> unit gres \<times> pix" where
  "draw_title_bar eg w fb bl =
     and_then (draw_iter fb (eg_rectangle eg (fb_width fb) (title_bar_height w) (0x80, 0x80, 0x80)) bl)
       (\<lambda>_. draw_iter fb (eg_text eg (w_title w)))"

definition draw_window :: "embedded_graphics \<Rightarrow> Window \<Rightarrow> FrameBuffer \<Rightarrow> pix \<Rightarrow> unit gres \<times> pix" where
  "draw_window eg w fb bl =
     and_then (draw_iter fb (eg_rectangle eg (fb_width fb) (fb_height fb) (0xf0, 0xef, 0xef)) bl)
       (\<lambda>_. draw_title_bar eg w fb)"

definition set_title :: "string \<Rightarrow> Window \<Rightarrow> Window" where
  "set_title title w = w\<lparr>w_title := title\<rparr>"

definition update_frame :: "Window \<Rightarrow> FrameBuffer \<Rightarrow> pix \<Rightarrow> unit gres \<times> pix" where
  "update_frame w fb =
     each (\<lambda>y. each (\<lambda>x bl.
        case get_pixel (w_frame w) x y bl of
          Ok pixel \<Rightarrow> fb_draw_at fb x (y + title_bar_height w) pixel bl
        | Err e \<Rightarrow> (Err e, bl)
        | Panic m \<Rightarrow> (Panic m, bl)) (u32_range 0 (fb_width (w_frame w)))) (u32_range 0 (fb_height (w_frame w)))"

definition Desktop_new :: "u32 \<Rightarrow> u32 \<Rightarrow> u32 \<Rightarrow> machine \<Rightarrow> pix \<Rightarrow> Desktop gres \<times> machine \<times> pix" where
  "Desktop_new color width height m bl =
     (case alloc_block width height m bl of (p, m', bl') \<Rightarrow>
        (case each (\<lambda>x. each (\<lambda>y. block_write p (unat (y * width + x)) color) (u32_range 0 height))
                (u32_range 0 width) bl' of
           (Ok _, bl'') \<Rightarrow> (Ok \<lparr>bg_color = color, d_width = width, d_height = height, d_buffer = p\<rparr>, m', bl'')
         | (Err e, bl'') \<Rightarrow> (Err e, m', bl'')
         | (Panic msg, bl'') \<Rightarrow> (Panic msg, m', bl'')))"

definition draw_to :: "embedded_graphics \<Rightarrow> Object \<Rightarrow> FrameBuffer \<Rightarrow> u32 \<Rightarrow> u32 \<Rightarrow> pix \<Rightarrow> unit gres \<times> pix" where
  "draw_to eg obj fb x y =
     (case obj of
        Mouse tcol \<Rightarrow> mouse_draw_to tcol fb x y
      | WindowObj w \<Rightarrow> draw_window eg w fb
      | DesktopObj d \<Rightarrow> draw_iter fb (eg_wallpaper eg))"

fun object_width :: "Object \<Rightarrow> u32" where
  "object_width (Mouse _) = 16"
| "object_width (WindowObj w) = fb_width (w_frame w)"
| "object_width (DesktopObj d) = d_width d"

fun object_height :: "Object \<Rightarrow> u32" where
  "object_height (Mouse _) = 23"
| "object_height (WindowObj w) = fb_height (w_frame w)"
| "object_height (DesktopObj d) = d_height d"

section \<open>Layers\<close>

definition Layer_new :: "usize \<Rightarrow> usize \<Rightarrow> u32 \<Rightarrow> u32 \<Rightarrow> u32 \<Rightarrow> u32 \<Rightarrow> u32 \<Rightarrow> u32 \<Rightarrow> machine \<Rightarrow> pix \<Rightarrow> Layer \<times> machine \<times> pix" where
  "Layer_new lid object x y width height dw dh m bl =
     (case FrameBuffer_new width height m bl of (fb, m', bl') \<Rightarrow>
        (\<lparr>l_id = lid, l_object = object, l_buffer = fb, l_x = x, l_y = y, l_width = width, l_height = height,
          prev_x = 0, prev_y = 0, prev_width = 0, prev_height = 0, display_width = dw, display_height = dh,
          transparent = None\<rparr>, m', bl'))"

definition set_transparent_color :: "u32 \<Rightarrow> Layer \<Rightarrow> Layer" where
  "set_transparent_color color l = l\<lparr>transparent := Some color\<rparr>"

text \<open>The two \<open>if\<close> chains of \<open>move_abs\<close> and of \<open>move_rel\<close>.\<close>

definition clamp :: "u32 \<Rightarrow> u32 \<Rightarrow> u32" where
  "clamp v limit = (if sint v < 0 then 0 else if sint v > sint limit then limit else v)"

definition layer_move_abs :: "u32 \<Rightarrow> u32 \<Rightarrow> Layer \<Rightarrow> Layer" where
  "layer_move_abs x y l = l\<lparr>l_x := clamp x (display_width l), l_y := clamp y (display_height l)\<rparr>"

definition layer_move_rel :: "u32 \<Rightarrow> u32 \<Rightarrow> Layer \<Rightarrow> Layer" where
  "layer_move_rel x y l =
     l\<lparr>l_x := clamp (l_x l + x) (display_width l), l_y := clamp (l_y l + y) (display_height l)\<rparr>"

definition update_prev_info :: "Layer \<Rightarrow> Layer" where
  "update_prev_info l = l\<lparr>prev_x := l_x l, prev_y := l_y l, prev_width := l_width l, prev_height := l_height l\<rparr>"

definition draw_to_buffer :: "embedded_graphics \<Rightarrow> ObjectArena \<Rightarrow> Layer \<Rightarrow> pix \<Rightarrow> unit gres \<times> pix" where
  "draw_to_buffer eg a l bl =
     (case arena_get a (l_object l) of
        None \<Rightarrow> (Panic ''unwrap on None'', bl)
      | Some obj \<Rightarrow> draw_to eg obj (l_buffer l) (l_x l) (l_y l) bl)"

definition transfer_buffer_range ::
  "'t painter \<Rightarrow> Layer \<Rightarrow> pix \<Rightarrow> u32 \<Rightarrow> u32 \<Rightarrow> u32 \<Rightarrow> u32 \<Rightarrow> 't \<Rightarrow> unit gres \<times> 't" where
  "transfer_buffer_range pt l bl x y width height t =
     (let x_start = max x (l_x l);
          x_end = min (x + width) (min (l_x l + l_width l) (pt_get_width pt t));
          y_start = max y (l_y l);
          y_end = min (y + height) (min (l_y l + l_height l) (pt_get_height pt t))
      in case transparent l of
           Some tcol \<Rightarrow>
             each (\<lambda>y. each (\<lambda>x t.
               case get_pixel (l_buffer l) (x - l_x l) (y - l_y l) bl of
                 Ok pixel \<Rightarrow> if pixel = tcol then (Ok (), t) else pt_draw_at pt x y pixel t
               | Err e \<Rightarrow> (Err e, t)
               | Panic m \<Rightarrow> (Panic m, t)) (u32_range x_start x_end)) (u32_range y_start y_end) t
         | None \<Rightarrow>
             each (\<lambda>y. each (\<lambda>x t.
               case get_pixel (l_buffer l) (x - l_x l) (y - l_y l) bl of
                 Ok pixel \<Rightarrow> pt_draw_at pt x y pixel t
               | Err e \<Rightarrow> (Err e, t)
               | Panic m \<Rightarrow> (Panic m, t)) (u32_range x_start x_end)) (u32_range y_start y_end) t)"

section \<open>The layer manager\<close>

definition LayerManager_new :: "'t \<Rightarrow> 't LayerManager" where
  "LayerManager_new t = \<lparr>lm_painter = t, layers = Map.empty, layer_stack = [], lm_curr_id = 0,
     event_info = \<lparr>pressed_id = 0, pressed_x = 0, pressed_y = 0\<rparr>\<rparr>"

text \<open>The position of a layer in the stack, if it is there.\<close>

fun stack_index :: "usize \<Rightarrow> usize list \<Rightarrow> nat option" where
  "stack_index lid [] = None"
| "stack_index lid (i # is) = (if i = lid then Some 0 else map_option Suc (stack_index lid is))"

text \<open>\<open>Vec::remove\<close> and \<open>Vec::insert\<close>, which panics beyond the end.\<close>

definition vec_remove :: "nat \<Rightarrow> 'a list \<Rightarrow> 'a list" where
  "vec_remove i xs = take i xs @ drop (Suc i) xs"

definition vec_insert :: "nat \<Rightarrow> 'a \<Rightarrow> 'a list \<Rightarrow> 'a list gres" where
  "vec_insert i x xs = (if i \<le> length xs then Ok (take i xs @ x # drop i xs) else Panic ''insertion index out of range'')"

definition hide_layer :: "usize \<Rightarrow> 't LayerManager \<Rightarrow> 't LayerManager" where
  "hide_layer lid lm =
     (case stack_index lid (layer_stack lm) of
        None \<Rightarrow> lm
      | Some i \<Rightarrow> lm\<lparr>layer_stack := vec_remove i (layer_stack lm)\<rparr>)"

definition is_overlapping :: "u32 \<Rightarrow> u32 \<Rightarrow> u32 \<Rightarrow> u32 \<Rightarrow> bool" where
  "is_overlapping x1 x2 x3 x4 \<longleftrightarrow> x4 > x1 \<and> x2 > x3"

definition get_layer_height :: "usize \<Rightarrow> 't LayerManager \<Rightarrow> usize" where
  "get_layer_height lid lm = (case stack_index lid (layer_stack lm) of None \<Rightarrow> 0 | Some i \<Rightarrow> of_nat i)"

definition move_layer :: "usize \<Rightarrow> u32 \<Rightarrow> 't LayerManager \<Rightarrow> unit gres \<times> 't LayerManager" where
  "move_layer lid new_height lm =
     (if sint new_height < 0 then (Ok (), hide_layer lid lm)
      else
        let len = of_nat (length (layer_stack lm)) :: u32;
            h = if sint new_height > sint len then len else new_height;
            stack = (case stack_index lid (layer_stack lm) of
                       None \<Rightarrow> layer_stack lm | Some i \<Rightarrow> vec_remove i (layer_stack lm))
        in case vec_insert (unat h) lid stack of
             Ok stack' \<Rightarrow> (Ok (), lm\<lparr>layer_stack := stack'\<rparr>)
           | Err e \<Rightarrow> (Err e, lm\<lparr>layer_stack := stack\<rparr>)
           | Panic m \<Rightarrow> (Panic m, lm\<lparr>layer_stack := stack\<rparr>))"

definition with_layer :: "usize \<Rightarrow> (Layer \<Rightarrow> Layer) \<Rightarrow> 't LayerManager \<Rightarrow> unit gres \<times> 't LayerManager" where
  "with_layer lid f lm =
     (case layers lm lid of
        None \<Rightarrow> (Panic ''unwrap on None'', lm)
      | Some l \<Rightarrow> (Ok (), lm\<lparr>layers := (layers lm)(lid \<mapsto> f l)\<rparr>))"

definition move_rel :: "usize \<Rightarrow> u32 \<Rightarrow> u32 \<Rightarrow> 't LayerManager \<Rightarrow> unit gres \<times> 't LayerManager" where
  "move_rel lid x y = with_layer lid (layer_move_rel x y)"

definition move_abs :: "usize \<Rightarrow> u32 \<Rightarrow> u32 \<Rightarrow> 't LayerManager \<Rightarrow> unit gres \<times> 't LayerManager" where
  "move_abs lid x y = with_layer lid (layer_move_abs x y)"

definition get_layer_x :: "usize \<Rightarrow> 't LayerManager \<Rightarrow> u32 gres" where
  "get_layer_x lid lm = (case layers lm lid of None \<Rightarrow> Panic ''unwrap on None'' | Some l \<Rightarrow> Ok (l_x l))"

definition get_layer_y :: "usize \<Rightarrow> 't LayerManager \<Rightarrow> u32 gres" where
  "get_layer_y lid lm = (case layers lm lid of None \<Rightarrow> Panic ''unwrap on None'' | Some l \<Rightarrow> Ok (l_y l))"

text \<open>Operations of the manager and operations on the blocks, in the whole state.\<close>

definition on_lm :: "('t LayerManager \<Rightarrow> 'a gres \<times> 't LayerManager) \<Rightarrow> 't Gfx \<Rightarrow> 'a gres \<times> 't Gfx" where
  "on_lm f g = (case f (lman g) of (r, lm) \<Rightarrow> (r, g\<lparr>lman := lm\<rparr>))"

definition on_blocks :: "(pix \<Rightarrow> 'a gres \<times> pix) \<Rightarrow> 't Gfx \<Rightarrow> 'a gres \<times> 't Gfx" where
  "on_blocks f g = (case f (blocks g) of (r, bl) \<Rightarrow> (r, g\<lparr>blocks := bl\<rparr>))"

definition create_layer :: "'t painter \<Rightarrow> usize \<Rightarrow> u32 \<Rightarrow> u32 \<Rightarrow> u32 \<Rightarrow> u32 \<Rightarrow> 't Gfx \<Rightarrow> usize \<times> 't Gfx" where
  "create_layer pt object x y width height g =
     (let lm = lman g; lid = lm_curr_id lm
      in case Layer_new lid object x y width height (pt_get_width pt (lm_painter lm)) (pt_get_height pt (lm_painter lm))
                (g_mach g) (blocks g) of (l, m', bl') \<Rightarrow>
           (lid, g\<lparr>g_mach := m', blocks := bl',
                   lman := lm\<lparr>lm_curr_id := lm_curr_id lm + 1, layers := (layers lm)(lid \<mapsto> l)\<rparr>\<rparr>))"

definition update_buffer :: "embedded_graphics \<Rightarrow> usize \<Rightarrow> 't Gfx \<Rightarrow> unit gres \<times> 't Gfx" where
  "update_buffer eg lid g =
     (case layers (lman g) lid of
        None \<Rightarrow> (Panic ''unwrap on None'', g)
      | Some l \<Rightarrow> on_blocks (draw_to_buffer eg (arena g) l) g)"

text \<open>A rectangle of a layer to the painter, within the manager.\<close>

definition transfer :: "'t painter \<Rightarrow> pix \<Rightarrow> Layer \<Rightarrow> u32 \<times> u32 \<times> u32 \<times> u32 \<Rightarrow> 't LayerManager \<Rightarrow> unit gres \<times> 't LayerManager" where
  "transfer pt bl l r lm =
     (case r of (x, y, width, height) \<Rightarrow>
        case transfer_buffer_range pt l bl x y width height (lm_painter lm) of (res, t) \<Rightarrow>
          (res, lm\<lparr>lm_painter := t\<rparr>))"

text \<open>The first loop of \<open>update\<close>: up to the layer itself, whose index it returns (0 if it is not there).\<close>

fun update_up_to ::
  "'t painter \<Rightarrow> pix \<Rightarrow> usize \<Rightarrow> u32 \<times> u32 \<times> u32 \<times> u32 \<Rightarrow> u32 \<times> u32 \<times> u32 \<times> u32 \<Rightarrow> nat \<Rightarrow> usize list \<Rightarrow>
   't LayerManager \<Rightarrow> nat gres \<times> 't LayerManager" where
  "update_up_to pt bl lid r prev idx [] lm = (Ok 0, lm)"
| "update_up_to pt bl lid r prev idx (i # is) lm =
     (case layers lm i of
        None \<Rightarrow> (Panic ''unwrap on None'', lm)
      | Some l \<Rightarrow>
          if i = lid then
            and_then (transfer pt bl (update_prev_info l) r (lm\<lparr>layers := (layers lm)(i \<mapsto> update_prev_info l)\<rparr>))
              (\<lambda>_ lm'. (Ok idx, lm'))
          else and_then (transfer pt bl l prev lm) (\<lambda>_. update_up_to pt bl lid r prev (Suc idx) is))"

definition transfer_whole :: "'t painter \<Rightarrow> pix \<Rightarrow> usize \<Rightarrow> 't LayerManager \<Rightarrow> unit gres \<times> 't LayerManager" where
  "transfer_whole pt bl i lm =
     (case layers lm i of
        None \<Rightarrow> (Panic ''unwrap on None'', lm)
      | Some l \<Rightarrow> transfer pt bl l (l_x l, l_y l, l_width l, l_height l) lm)"

definition flush :: "'t painter \<Rightarrow> 't LayerManager \<Rightarrow> unit gres \<times> 't LayerManager" where
  "flush pt lm = (case pt_flush pt (lm_painter lm) of (r, t) \<Rightarrow> (r, lm\<lparr>lm_painter := t\<rparr>))"

definition update :: "'t painter \<Rightarrow> pix \<Rightarrow> usize \<Rightarrow> 't LayerManager \<Rightarrow> unit gres \<times> 't LayerManager" where
  "update pt bl lid lm =
     (case layers lm lid of
        None \<Rightarrow> (Panic ''unwrap on None'', lm)
      | Some l \<Rightarrow>
          and_then (update_up_to pt bl lid (l_x l, l_y l, l_width l, l_height l)
                      (prev_x l, prev_y l, prev_width l, prev_height l) 0 (layer_stack lm) lm) (\<lambda>index lm1.
          and_then (each (transfer_whole pt bl) (drop (index + 1) (layer_stack lm1)) lm1) (\<lambda>_.
          flush pt)))"

definition update_layer :: "'t painter \<Rightarrow> usize \<Rightarrow> 't Gfx \<Rightarrow> unit gres \<times> 't Gfx" where
  "update_layer pt lid g = on_lm (update pt (blocks g) lid) g"

definition draw_all :: "'t painter \<Rightarrow> embedded_graphics \<Rightarrow> 't Gfx \<Rightarrow> unit gres \<times> 't Gfx" where
  "draw_all pt eg g =
     and_then (each (\<lambda>i g.
                 and_then (update_buffer eg i g) (\<lambda>_ g'. on_lm (transfer_whole pt (blocks g') i) g'))
               (layer_stack (lman g)) g) (\<lambda>_. on_lm (flush pt))"

section \<open>Events\<close>

definition window_on_event :: "'t painter \<Rightarrow> Window \<Rightarrow> ObjectEvent \<Rightarrow> usize \<Rightarrow> 't Gfx \<Rightarrow> unit gres \<times> 't Gfx" where
  "window_on_event pt w event lid g =
     (let lm = lman g
      in case event of
           MouseLeftPress _ y \<Rightarrow>
             (let mouse_height = get_layer_height (MOUSE_LAYER_ID g) lm
              in if get_layer_height lid lm = mouse_height - 1 then (Ok (), g)
                 else and_then (on_lm (move_layer lid (ucast mouse_height - 1)) g) (\<lambda>_. update_layer pt lid))
         | MouseLeftRelease x y \<Rightarrow>
             and_then (get_layer_x lid lm, g) (\<lambda>px g.
             and_then (get_layer_y lid lm, g) (\<lambda>py g.
               let next_x = x - (pressed_x (event_info lm) - px);
                   next_y = y - (pressed_y (event_info lm) - py)
               in if pressed_y (event_info lm) > py + title_bar_height w then (Ok (), g)
                  else and_then (on_lm (move_abs lid next_x next_y) g) (\<lambda>_. update_layer pt lid))))"

definition object_on_event :: "'t painter \<Rightarrow> Object \<Rightarrow> ObjectEvent \<Rightarrow> usize \<Rightarrow> 't Gfx \<Rightarrow> unit gres \<times> 't Gfx" where
  "object_on_event pt obj event lid g =
     (case obj of
        Mouse _ \<Rightarrow> (Ok (), g)
      | WindowObj w \<Rightarrow> window_on_event pt w event lid g
      | DesktopObj _ \<Rightarrow> (Ok (), g))"

text \<open>The loop over the stack that looks for the layer under the mouse, up to the mouse's own layer.\<close>

fun pick_layer :: "u32 \<Rightarrow> u32 \<Rightarrow> usize \<Rightarrow> (usize \<rightharpoonup> Layer) \<Rightarrow> usize list \<Rightarrow> usize option \<Rightarrow> usize option gres" where
  "pick_layer x y event_from ls [] affect = Ok affect"
| "pick_layer x y event_from ls (i # is) affect =
     (case ls i of
        None \<Rightarrow> Panic ''unwrap on None''
      | Some l \<Rightarrow>
          if l_id l = event_from then Ok affect
          else pick_layer x y event_from ls is
                 (if is_overlapping x x (l_x l) (l_x l + l_width l) \<and> is_overlapping y y (l_y l) (l_y l + l_height l)
                  then Some (l_id l) else affect))"

definition affected_layer :: "ObjectEvent \<Rightarrow> usize \<Rightarrow> 't LayerManager \<Rightarrow> usize option gres \<times> 't LayerManager" where
  "affected_layer event event_from lm =
     (case event of
        MouseLeftPress x y \<Rightarrow>
          (let lm1 = lm\<lparr>event_info := (event_info lm)\<lparr>pressed_x := x, pressed_y := y\<rparr>\<rparr>
           in and_then (pick_layer x y event_from (layers lm1) (layer_stack lm1) None, lm1) (\<lambda>affect lm1.
                case affect of
                  None \<Rightarrow> (Ok None, lm1)
                | Some i \<Rightarrow> (Ok (Some i), lm1\<lparr>event_info := (event_info lm1)\<lparr>pressed_id := i\<rparr>\<rparr>)))
      | MouseLeftRelease _ _ \<Rightarrow> (Ok (Some (pressed_id (event_info lm))), lm))"

definition lm_on_event :: "'t painter \<Rightarrow> ObjectEvent \<Rightarrow> usize \<Rightarrow> 't Gfx \<Rightarrow> unit gres \<times> 't Gfx" where
  "lm_on_event pt event event_from g =
     and_then (on_lm (affected_layer event event_from) g) (\<lambda>affect g.
       case affect of
         None \<Rightarrow> (Ok (), g)
       | Some lid \<Rightarrow>
           (case layers (lman g) lid of
              None \<Rightarrow> (Panic ''unwrap on None'', g)
            | Some l \<Rightarrow>
                (case arena_get (arena g) (l_object l) of
                   None \<Rightarrow> (Panic ''unwrap on None'', g)
                 | Some obj \<Rightarrow> object_on_event pt obj event (l_id l) g)))"

section \<open>The window manager\<close>

definition create_window :: "'t painter \<Rightarrow> string \<Rightarrow> u32 \<Rightarrow> u32 \<Rightarrow> u32 \<Rightarrow> u32 \<Rightarrow> 't Gfx \<Rightarrow> usize \<times> 't Gfx" where
  "create_window pt title x y width height g =
     (case Window_new width height (g_mach g) (blocks g) of (w, m, bl) \<Rightarrow>
      case arena_alloc (WindowObj (set_title title w)) (arena g) of (window_id, a) \<Rightarrow>
      case create_layer pt window_id x y width (height + title_bar_height w) (g\<lparr>g_mach := m, blocks := bl, arena := a\<rparr>) of
        (layer_id, g') \<Rightarrow> (window_id, g'\<lparr>wman := (wman g')(window_id \<mapsto> layer_id)\<rparr>))"

definition show_window :: "'t painter \<Rightarrow> embedded_graphics \<Rightarrow> usize \<Rightarrow> 't Gfx \<Rightarrow> unit gres \<times> 't Gfx" where
  "show_window pt eg wid g =
     (case (arena_get (arena g) wid, wman g wid) of
        (Some _, Some layer_id) \<Rightarrow>
          and_then (on_lm (move_layer layer_id 1) g) (\<lambda>_ g.
          and_then (update_buffer eg layer_id g) (\<lambda>_.
          update_layer pt layer_id))
      | _ \<Rightarrow> (Panic ''unwrap on None'', g))"

text \<open>The dynamic types behind \<open>as_any\<close> and \<open>downcast_ref::<Window>\<close>.\<close>

datatype Any = AnyMouse | AnyWindow Window | AnyDesktop Desktop | AnyLayer Layer

fun object_as_any :: "Object \<Rightarrow> Any" where
  "object_as_any (Mouse _) = AnyMouse"
| "object_as_any (WindowObj w) = AnyWindow w"
| "object_as_any (DesktopObj d) = AnyDesktop d"

definition layer_as_any :: "Layer \<Rightarrow> Any" where
  "layer_as_any l = AnyLayer l"

fun downcast_window :: "Any \<Rightarrow> Window option" where
  "downcast_window (AnyWindow w) = Some w"
| "downcast_window _ = None"

definition get_window_frame :: "usize \<Rightarrow> 't Gfx \<Rightarrow> FrameBuffer gres" where
  "get_window_frame wid g =
     (case arena_get (arena g) wid of
        None \<Rightarrow> Panic ''unwrap on None''
      | Some obj \<Rightarrow>
          (case downcast_window (object_as_any obj) of None \<Rightarrow> Panic ''unwrap on None'' | Some w \<Rightarrow> Ok (w_frame w)))"

definition update_window_frame :: "'t painter \<Rightarrow> usize \<Rightarrow> 't Gfx \<Rightarrow> unit gres \<times> 't Gfx" where
  "update_window_frame pt wid g =
     (case (arena_get (arena g) wid, wman g wid) of
        (Some obj, Some layer_id) \<Rightarrow>
          (case (layers (lman g) layer_id, downcast_window (object_as_any obj)) of
             (Some l, Some w) \<Rightarrow>
               and_then (on_blocks (update_frame w (l_buffer l)) g) (\<lambda>_. update_layer pt layer_id)
           | _ \<Rightarrow> (Panic ''unwrap on None'', g))
      | _ \<Rightarrow> (Panic ''unwrap on None'', g))"

fun highest_window :: "(usize \<rightharpoonup> Layer) \<Rightarrow> usize list \<Rightarrow> usize option gres" where
  "highest_window ls [] = Ok None"
| "highest_window ls (i # is) =
     (case ls i of
        None \<Rightarrow> Panic ''unwrap on None''
      | Some l \<Rightarrow> (case downcast_window (layer_as_any l) of Some _ \<Rightarrow> Ok (Some i) | None \<Rightarrow> highest_window ls is))"

definition get_highest_window_layer :: "'t Gfx \<Rightarrow> usize option gres" where
  "get_highest_window_layer g = highest_window (layers (lman g)) (rev (layer_stack (lman g)))"

section \<open>Start-up\<close>

definition graphics_init :: "'t painter \<Rightarrow> embedded_graphics \<Rightarrow> 't \<Rightarrow> machine \<Rightarrow> unit gres \<times> 't Gfx" where
  "graphics_init pt eg t m =
     (let width = pt_get_width pt t; height = pt_get_height pt t;
          (mouse_id, a1) = arena_alloc (Mouse 0xff00ff00) ObjectArena_new;
          (desktop, m1, bl1) = Desktop_new 0xffffffff width height m Map.empty;
          g0 = \<lparr>g_mach = m1, blocks = bl1, arena = a1, lman = LayerManager_new t, wman = Map.empty,
                MOUSE_LAYER_ID = 0, DESKTOP_LAYER_ID = 0\<rparr>
      in and_then (desktop, g0) (\<lambda>d g0.
           let (desktop_id, a2) = arena_alloc (DesktopObj d) (arena g0);
               (mouse_layer, g1) = create_layer pt mouse_id 0 0 16 23 (g0\<lparr>arena := a2\<rparr>);
               (desktop_layer, g2) = create_layer pt desktop_id 0 0 width height (g1\<lparr>MOUSE_LAYER_ID := mouse_layer\<rparr>)
           in and_then (on_lm (with_layer mouse_layer (set_transparent_color 0xff00ff00)) (g2\<lparr>DESKTOP_LAYER_ID := desktop_layer\<rparr>)) (\<lambda>_ g.
              and_then (on_lm (move_layer (MOUSE_LAYER_ID g) 0x7fffffff) g) (\<lambda>_ g.
              and_then (on_lm (move_layer (DESKTOP_LAYER_ID g) 0) g) (\<lambda>_.
              draw_all pt eg)))))"

section \<open>The display device as a painter (\<open>src/src/arch/riscv64/graphics.rs\<close>)\<close>

text \<open>The part of the device that a painter changes: the frame buffer and its dimensions, and the picture that is on the
  screen, which the device has fetched from the frame buffer when it was told to (\<open>update_display\<close>, the two commands
  of which are in \<open>Virtio_Gpu\<close>).\<close>

record Display =
  framebuffer :: "u32 list"
  scanout :: "u32 list"
  gpu_width :: u32
  gpu_height :: u32

text \<open>\<open>u32::swap_bytes\<close>.\<close>

definition swap_bytes :: "u32 \<Rightarrow> u32" where
  "swap_bytes p = push_bit 24 (p AND 0xff) OR push_bit 8 (p AND 0xff00) OR drop_bit 8 (p AND 0xff0000) OR drop_bit 24 p"

definition gpu_draw_at :: "u32 \<Rightarrow> u32 \<Rightarrow> u32 \<Rightarrow> Display \<Rightarrow> unit gres \<times> Display" where
  "gpu_draw_at x y pixel d =
     (let i = unat (y * gpu_width d + x)
      in if i < length (framebuffer d)
         then (Ok (), d\<lparr>framebuffer := (framebuffer d)[i := drop_bit 8 (swap_bytes pixel)]\<rparr>)
         else (Panic ''write outside the frame buffer'', d))"

definition gpu_copy_buf :: "usize \<Rightarrow> usize \<Rightarrow> usize \<Rightarrow> usize \<Rightarrow> pix \<Rightarrow> Display \<Rightarrow> unit gres \<times> Display" where
  "gpu_copy_buf src src_offset dst_offset n bl d =
     (case bl src of
        None \<Rightarrow> (Panic ''copy outside a block'', d)
      | Some ws \<Rightarrow>
          (case copy_words (unat src_offset) (unat dst_offset) (unat n) ws (framebuffer d) of
             Some vs \<Rightarrow> (Ok (), d\<lparr>framebuffer := vs\<rparr>)
           | None \<Rightarrow> (Panic ''copy outside a block'', d)))"

definition gpu_flush :: "Display \<Rightarrow> unit gres \<times> Display" where
  "gpu_flush d = (Ok (), d\<lparr>scanout := framebuffer d\<rparr>)"

definition gpu_painter :: "Display painter" where
  "gpu_painter = \<lparr>pt_draw_at = gpu_draw_at, pt_flush = gpu_flush, pt_get_width = gpu_width, pt_get_height = gpu_height\<rparr>"

end
