(* ===== verification/Layers.thy ===== *)
theory Layers
  imports Graphics
begin

text \<open>
  What the layer manager of \<open>src/src/graphics.rs\<close> puts on the display: the painter as a locale, interpreted on
  the display device; a transfer paints the common part of two rectangles; \<open>update\<close> restores the picture of
  the stack of layers after one layer has moved or changed. Then the positions of layers, the order of the
  stack, and which layer an event reaches.
\<close>

section \<open>Pictures\<close>

text \<open>A picture gives some pixels a colour and leaves the others as they are. \<open>pile F is\<close> puts the pictures
  of \<open>is\<close> on top of each other, the last on top.\<close>

type_synonym picture = "u32 \<Rightarrow> u32 \<Rightarrow> u32 option"

definition over :: "picture \<Rightarrow> picture \<Rightarrow> picture" where
  "over a b x y = (case a x y of Some p \<Rightarrow> Some p | None \<Rightarrow> b x y)"

fun pile :: "('i \<Rightarrow> picture) \<Rightarrow> 'i list \<Rightarrow> picture" where
  "pile F [] x y = None"
| "pile F (i # is) x y = (case pile F is x y of Some p \<Rightarrow> Some p | None \<Rightarrow> F i x y)"

lemma pile_append: "pile F (is @ js) x y = over (pile F js) (pile F is) x y"
  by (induction "is") (auto simp: over_def split: option.split)

lemma pile_points: "pile (\<lambda>x a b. if a = x \<and> b = y then s a b else None) xs a b = (if b = y \<and> a \<in> set xs then s a b else None)"
  by (induction xs) (auto split: option.split)

lemma pile_rows: "pile (\<lambda>y a b. if b = y \<and> P a then s a b else None) ys a b = (if b \<in> set ys \<and> P a then s a b else None)"
  by (induction ys) (auto split: option.split)

lemma pile_clip: "pile (\<lambda>i a b. if Q a b then F i a b else None) is a b = (if Q a b then pile F is a b else None)"
  by (induction "is") (auto split: option.split)

type_synonym rect = "u32 \<times> u32 \<times> u32 \<times> u32"

fun in_rect :: "rect \<Rightarrow> u32 \<Rightarrow> u32 \<Rightarrow> bool" where
  "in_rect (x0, y0, w, h) x y \<longleftrightarrow>
     unat x0 \<le> unat x \<and> unat x < unat x0 + unat w \<and> unat y0 \<le> unat y \<and> unat y < unat y0 + unat h"

fun rect_ok :: "rect \<Rightarrow> bool" where
  "rect_ok (x0, y0, w, h) \<longleftrightarrow> unat x0 + unat w < 2 ^ 32 \<and> unat y0 + unat h < 2 ^ 32"

definition layer_rect :: "Layer \<Rightarrow> rect" where
  "layer_rect l = (l_x l, l_y l, l_width l, l_height l)"

definition prev_rect :: "Layer \<Rightarrow> rect" where
  "prev_rect l = (prev_x l, prev_y l, prev_width l, prev_height l)"

text \<open>A layer with a buffer of its size, and its picture.\<close>

definition layer_ok :: "pix \<Rightarrow> Layer \<Rightarrow> bool" where
  "layer_ok bl l \<longleftrightarrow> rect_ok (layer_rect l) \<and> fb_width (l_buffer l) = l_width l \<and> unat (l_width l) * unat (l_height l) < 2 ^ 32 \<and>
     (\<exists>ws. bl (fb_buffer (l_buffer l)) = Some ws \<and> length ws = unat (l_width l) * unat (l_height l))"

definition buffer_pixel :: "pix \<Rightarrow> Layer \<Rightarrow> u32 \<Rightarrow> u32 \<Rightarrow> u32" where
  "buffer_pixel bl l x y =
     the (bl (fb_buffer (l_buffer l))) ! (unat (y - l_y l) * unat (l_width l) + unat (x - l_x l))"

definition look :: "pix \<Rightarrow> Layer \<Rightarrow> picture" where
  "look bl l x y =
     (if in_rect (layer_rect l) x y \<and> transparent l \<noteq> Some (buffer_pixel bl l x y) then Some (buffer_pixel bl l x y) else None)"

lemma unat_plus_in_range: "unat (a :: u32) + unat b < 2 ^ 32 \<Longrightarrow> unat (a + b) = unat a + unat b"
  by (simp add: unat_word_ariths)

lemma set_u32_range: "set (u32_range a b) = {x. a \<le> x \<and> x < b}"
proof -
  have "x \<in> set (u32_range a b) \<longleftrightarrow> a \<le> x \<and> x < b" for x
  proof
    assume "x \<in> set (u32_range a b)"
    then obtain k where k: "x = of_nat k" "unat a \<le> k" "k < unat b" by (auto simp: u32_range_def)
    moreover have "unat (of_nat k :: u32) = k"
      using k(3) unsigned_less [of b, where ?'a = nat] by (simp add: unat_of_nat)
    ultimately show "a \<le> x \<and> x < b" by (simp add: word_le_nat_alt word_less_nat_alt)
  next
    assume "a \<le> x \<and> x < b"
    then have "x = of_nat (unat x)" "unat x \<in> set [unat a..<unat b]" by (simp_all add: word_le_nat_alt word_less_nat_alt)
    then show "x \<in> set (u32_range a b)" unfolding u32_range_def by (metis image_eqI set_map)
  qed
  then show ?thesis by blast
qed

lemma row_major: "i < w \<Longrightarrow> j < h \<Longrightarrow> j * w + i < w * (h :: nat)"
proof -
  assume "i < w" "j < h"
  then have "j * w + i < Suc j * w" "Suc j * w \<le> h * w" by (simp, intro mult_right_mono) simp_all
  then show ?thesis by (simp add: mult.commute)
qed

lemma get_pixel_in_range:
  assumes "layer_ok bl l" "in_rect (layer_rect l) x y"
  shows "get_pixel (l_buffer l) (x - l_x l) (y - l_y l) bl = Ok (buffer_pixel bl l x y)"
proof -
  obtain ws where ws: "bl (fb_buffer (l_buffer l)) = Some ws" "length ws = unat (l_width l) * unat (l_height l)"
    using assms(1) by (auto simp: layer_ok_def)
  have d: "unat (x - l_x l) = unat x - unat (l_x l)" "unat (y - l_y l) = unat y - unat (l_y l)"
    using assms(2) by (simp_all add: layer_rect_def unat_sub word_le_nat_alt)
  have i: "unat (y - l_y l) * unat (l_width l) + unat (x - l_x l) < unat (l_width l) * unat (l_height l)"
    by (rule row_major) (use assms(2) d in \<open>auto simp: layer_rect_def\<close>)
  moreover have "unat (l_width l) * unat (l_height l) < 2 ^ 32" using assms(1) by (simp add: layer_ok_def)
  ultimately have "unat ((y - l_y l) * l_width l + (x - l_x l)) = unat (y - l_y l) * unat (l_width l) + unat (x - l_x l)"
    by (simp add: unat_word_ariths mod_simps)
  then show ?thesis using ws i assms(1)
    by (simp add: get_pixel_def block_read_def buffer_pixel_def layer_ok_def)
qed

definition picture_of :: "pix \<Rightarrow> (usize \<rightharpoonup> Layer) \<Rightarrow> usize \<Rightarrow> picture" where
  "picture_of bl ls i = (case ls i of None \<Rightarrow> (\<lambda>_ _. None) | Some l \<Rightarrow> look bl l)"

lemma update_prev_info_same [simp]:
  "layer_rect (update_prev_info l) = layer_rect l" "layer_ok bl (update_prev_info l) = layer_ok bl l"
  "look bl (update_prev_info l) = look bl l"
  by (simp_all add: update_prev_info_def layer_rect_def layer_ok_def look_def buffer_pixel_def fun_eq_iff)

lemma look_outside: "\<not> in_rect (layer_rect l) a b \<Longrightarrow> look bl l a b = None"
  by (simp add: look_def)

section \<open>Painters\<close>

locale painter_laws =
  fixes pt :: "'t painter" and ok :: "'t \<Rightarrow> bool" and pixel :: "'t \<Rightarrow> u32 \<Rightarrow> u32 \<Rightarrow> u32"
    and seen :: "'t \<Rightarrow> u32 \<Rightarrow> u32 \<Rightarrow> u32" and enc :: "u32 \<Rightarrow> u32"
    and W :: u32 and H :: u32
  assumes draw_law: "ok t \<Longrightarrow> x < W \<Longrightarrow> y < H \<Longrightarrow>
      \<exists>t'. pt_draw_at pt x y p t = (Ok (), t') \<and> ok t' \<and>
        (\<forall>a b. a < W \<longrightarrow> b < H \<longrightarrow> pixel t' a b = (if a = x \<and> b = y then enc p else pixel t a b))"
    and size_law: "ok t \<Longrightarrow> pt_get_width pt t = W \<and> pt_get_height pt t = H"
    and flush_law: "ok t \<Longrightarrow> \<exists>t'. pt_flush pt t = (Ok (), t') \<and> ok t' \<and> pixel t' = pixel t \<and> seen t' = pixel t"
begin

definition paints :: "'t \<Rightarrow> 't \<Rightarrow> picture \<Rightarrow> bool" where
  "paints t t' f \<longleftrightarrow> ok t' \<and>
     (\<forall>a b. a < W \<longrightarrow> b < H \<longrightarrow> pixel t' a b = (case f a b of Some p \<Rightarrow> enc p | None \<Rightarrow> pixel t a b))"

lemma paints_refl: "ok t \<Longrightarrow> paints t t (\<lambda>_ _. None)"
  by (simp add: paints_def)

lemma paints_trans: "paints t t' f \<Longrightarrow> paints t' t'' g \<Longrightarrow> paints t t'' (over g f)"
  by (auto simp: paints_def over_def split: option.splits)

lemma paints_cong: "paints t t' f \<Longrightarrow> (\<And>a b. a < W \<Longrightarrow> b < H \<Longrightarrow> f a b = g a b) \<Longrightarrow> paints t t' g"
  by (simp add: paints_def)

lemma each_paints:
  assumes "\<And>i t. i \<in> set is \<Longrightarrow> ok t \<Longrightarrow> \<exists>t'. f i t = (Ok (), t') \<and> paints t t' (F i)" "ok t"
  shows "\<exists>t'. each f is t = (Ok (), t') \<and> paints t t' (pile F is)"
  using assms
proof (induction "is" arbitrary: t)
  case Nil
  have "pile F [] = (\<lambda>_ _. None)" by (simp add: fun_eq_iff)
  then show ?case using paints_refl [OF Nil(2)] by simp
next
  case (Cons i "is")
  obtain t1 where t1: "f i t = (Ok (), t1)" "paints t t1 (F i)" using Cons.prems by (meson list.set_intros(1))
  then have "ok t1" by (simp add: paints_def)
  then obtain t2 where t2: "each f is t1 = (Ok (), t2)" "paints t1 t2 (pile F is)"
    using Cons.IH Cons.prems(1) by (meson list.set_intros(2))
  have "pile F (i # is) = over (pile F is) (F i)" by (simp add: fun_eq_iff over_def)
  then show ?case using t1(1) t2(1) paints_trans [OF t1(2) t2(2)] by simp
qed

text \<open>Two nested loops over a rectangle.\<close>

lemma loops_paint:
  assumes "\<And>x y t. x \<in> set xs \<Longrightarrow> y \<in> set ys \<Longrightarrow> ok t \<Longrightarrow>
      \<exists>t'. f x y t = (Ok (), t') \<and> paints t t' (\<lambda>a b. if a = x \<and> b = y then s a b else None)" "ok t"
  shows "\<exists>t'. each (\<lambda>y. each (\<lambda>x. f x y) xs) ys t = (Ok (), t') \<and>
    paints t t' (\<lambda>a b. if b \<in> set ys \<and> a \<in> set xs then s a b else None)"
proof -
  have "\<exists>t'. each (\<lambda>x. f x y) xs t = (Ok (), t') \<and> paints t t' (\<lambda>a b. if b = y \<and> a \<in> set xs then s a b else None)"
    if y: "y \<in> set ys" and k: "ok t" for y t
  proof -
    obtain t' where "each (\<lambda>x. f x y) xs t = (Ok (), t')"
      "paints t t' (pile (\<lambda>x a b. if a = x \<and> b = y then s a b else None) xs)"
      using each_paints [of xs "\<lambda>x. f x y" "\<lambda>x a b. if a = x \<and> b = y then s a b else None", OF _ k] assms(1) y by blast
    then show ?thesis by (auto intro: paints_cong simp: pile_points)
  qed
  then obtain t' where t': "each (\<lambda>y. each (\<lambda>x. f x y) xs) ys t = (Ok (), t')"
    "paints t t' (pile (\<lambda>y a b. if b = y \<and> a \<in> set xs then s a b else None) ys)"
    using each_paints [of ys "\<lambda>y. each (\<lambda>x. f x y) xs" "\<lambda>y a b. if b = y \<and> a \<in> set xs then s a b else None", OF _ assms(2)]
    by blast
  have "paints t t' (\<lambda>a b. if b \<in> set ys \<and> a \<in> set xs then s a b else None)"
    by (rule paints_cong [OF t'(2)]) (simp add: pile_rows [where P = "\<lambda>a. a \<in> set xs"])
  then show ?thesis using t'(1) by blast
qed

lemma draw_one:
  assumes "ok t" "x < W" "y < H"
  shows "\<exists>t'. pt_draw_at pt x y p t = (Ok (), t') \<and> paints t t' (\<lambda>a b. if a = x \<and> b = y then Some p else None)"
proof -
  obtain t' where "pt_draw_at pt x y p t = (Ok (), t')" "ok t'"
    "\<forall>a b. a < W \<longrightarrow> b < H \<longrightarrow> pixel t' a b = (if a = x \<and> b = y then enc p else pixel t a b)"
    using draw_law [OF assms] by blast
  then show ?thesis by (auto simp: paints_def)
qed

text \<open>A transfer paints the part of the layer's picture that lies in the rectangle.\<close>

lemma transfer_range_paints:
  assumes ok: "ok t" and layer: "layer_ok bl l" and r: "rect_ok (x, y, w, h)"
  shows "\<exists>t'. transfer_buffer_range pt l bl x y w h t = (Ok (), t') \<and>
    paints t t' (\<lambda>a b. if in_rect (x, y, w, h) a b then look bl l a b else None)"
proof -
  define xs where "xs = u32_range (max x (l_x l)) (min (x + w) (min (l_x l + l_width l) W))"
  define ys where "ys = u32_range (max y (l_y l)) (min (y + h) (min (l_y l + l_height l) H))"
  have sums: "unat (x + w) = unat x + unat w" "unat (y + h) = unat y + unat h"
    "unat (l_x l + l_width l) = unat (l_x l) + unat (l_width l)" "unat (l_y l + l_height l) = unat (l_y l) + unat (l_height l)"
    using r layer by (simp_all add: unat_plus_in_range layer_ok_def layer_rect_def)
  have dom: "b \<in> set ys \<and> a \<in> set xs \<longleftrightarrow> in_rect (x, y, w, h) a b \<and> in_rect (layer_rect l) a b \<and> a < W \<and> b < H" for a b
    unfolding xs_def ys_def set_u32_range mem_Collect_eq max.bounded_iff min_less_iff_conj by (auto simp: word_less_nat_alt word_le_nat_alt sums layer_rect_def)
  define f where "f = (\<lambda>a b t. case get_pixel (l_buffer l) (a - l_x l) (b - l_y l) bl of
      Ok pixel \<Rightarrow> if transparent l = Some pixel then (Ok (), t) else pt_draw_at pt a b pixel t
    | Err e \<Rightarrow> (Err e, t) | Panic m \<Rightarrow> (Panic m, t))"
  have "\<exists>t'. f a b t = (Ok (), t') \<and> paints t t' (\<lambda>a' b'. if a' = a \<and> b' = b then look bl l a' b' else None)"
    if ab: "a \<in> set xs" "b \<in> set ys" and k: "ok t" for a b t
  proof -
    have "in_rect (layer_rect l) a b \<and> a < W \<and> b < H" using dom [of b a] ab by simp
    then have i: "in_rect (layer_rect l) a b" "a < W" "b < H" by simp_all
    note px = get_pixel_in_range [OF layer i(1)]
    show ?thesis
    proof (cases "transparent l = Some (buffer_pixel bl l a b)")
      case True
      have "paints t t (\<lambda>a' b'. if a' = a \<and> b' = b then look bl l a' b' else None)"
        by (rule paints_cong [OF paints_refl [OF k]]) (use True in \<open>auto simp: look_def\<close>)
      then show ?thesis using True px by (simp add: f_def)
    next
      case False
      obtain t' where t': "pt_draw_at pt a b (buffer_pixel bl l a b) t = (Ok (), t')"
        "paints t t' (\<lambda>a' b'. if a' = a \<and> b' = b then Some (buffer_pixel bl l a b) else None)"
        using draw_one [OF k i(2,3)] by blast
      have "paints t t' (\<lambda>a' b'. if a' = a \<and> b' = b then look bl l a' b' else None)"
        by (rule paints_cong [OF t'(2)]) (use False i in \<open>auto simp: look_def\<close>)
      then show ?thesis using False px t'(1) by (simp add: f_def)
    qed
  qed
  then obtain t' where t': "each (\<lambda>b. each (\<lambda>a. f a b) xs) ys t = (Ok (), t')"
    "paints t t' (\<lambda>a b. if b \<in> set ys \<and> a \<in> set xs then look bl l a b else None)"
    using loops_paint [of xs ys f "look bl l", OF _ ok] by blast
  have eq: "transfer_buffer_range pt l bl x y w h t = each (\<lambda>b. each (\<lambda>a. f a b) xs) ys t"
    using size_law [OF ok]
    by (auto simp: transfer_buffer_range_def Let_def xs_def ys_def f_def fun_eq_iff eq_commute split: option.split
        intro!: arg_cong2 [where f = "\<lambda>g t. each g ys t"] cong: result.case_cong if_cong)
  have "paints t t' (\<lambda>a b. if in_rect (x, y, w, h) a b then look bl l a b else None)"
    by (rule paints_cong [OF t'(2)]) (unfold dom, auto simp: look_def)
  then show ?thesis using eq t'(1) by auto
qed

lemma transfer_paints:
  assumes "ok (lm_painter lm)" "layer_ok bl l" "rect_ok r"
  shows "\<exists>t'. transfer pt bl l r lm = (Ok (), lm\<lparr>lm_painter := t'\<rparr>) \<and>
    paints (lm_painter lm) t' (\<lambda>a b. if in_rect r a b then look bl l a b else None)"
proof -
  obtain x y w h where r: "r = (x, y, w, h)" by (cases r)
  obtain t' where "transfer_buffer_range pt l bl x y w h (lm_painter lm) = (Ok (), t')"
    "paints (lm_painter lm) t' (\<lambda>a b. if in_rect r a b then look bl l a b else None)"
    using transfer_range_paints [OF assms(1,2), of x y w h] assms(3) r by auto
  then show ?thesis by (auto simp: transfer_def r)
qed

lemma transfer_whole_paints:
  assumes "ok (lm_painter lm)" "layers lm i = Some l" "layer_ok bl l"
  shows "\<exists>t'. transfer_whole pt bl i lm = (Ok (), lm\<lparr>lm_painter := t'\<rparr>) \<and> paints (lm_painter lm) t' (look bl l)"
proof -
  have "rect_ok (layer_rect l)" using assms(3) by (simp add: layer_ok_def)
  then obtain t' where t': "transfer pt bl l (layer_rect l) lm = (Ok (), lm\<lparr>lm_painter := t'\<rparr>)"
    "paints (lm_painter lm) t' (\<lambda>a b. if in_rect (layer_rect l) a b then look bl l a b else None)"
    using transfer_paints [OF assms(1,3)] by blast
  have "paints (lm_painter lm) t' (look bl l)"
    by (rule paints_cong [OF t'(2)]) (simp add: look_outside)
  then show ?thesis using t'(1) assms(2) by (intro exI [of _ t']) (simp add: transfer_whole_def layer_rect_def)
qed

lemma whole_layers_paint:
  assumes "ok (lm_painter lm)" "\<forall>i \<in> set is. \<exists>l. layers lm i = Some l \<and> layer_ok bl l"
  shows "\<exists>t'. each (transfer_whole pt bl) is lm = (Ok (), lm\<lparr>lm_painter := t'\<rparr>) \<and>
    paints (lm_painter lm) t' (pile (picture_of bl (layers lm)) is)"
  using assms
proof (induction "is" arbitrary: lm)
  case Nil
  have "pile (picture_of bl (layers lm)) [] = (\<lambda>_ _. None)" by (simp add: fun_eq_iff)
  then show ?case using paints_refl [OF Nil(1)] by (intro exI [of _ "lm_painter lm"]) simp
next
  case (Cons i "is")
  obtain l where l: "layers lm i = Some l" "layer_ok bl l" using Cons.prems(2) by auto
  obtain t1 where t1: "transfer_whole pt bl i lm = (Ok (), lm\<lparr>lm_painter := t1\<rparr>)" "paints (lm_painter lm) t1 (look bl l)"
    using transfer_whole_paints [OF Cons.prems(1) l] by blast
  then have "ok (lm_painter (lm\<lparr>lm_painter := t1\<rparr>))" by (simp add: paints_def)
  then obtain t2 where t2: "each (transfer_whole pt bl) is (lm\<lparr>lm_painter := t1\<rparr>) = (Ok (), lm\<lparr>lm_painter := t2\<rparr>)"
    "paints t1 t2 (pile (picture_of bl (layers lm)) is)"
    using Cons.IH [of "lm\<lparr>lm_painter := t1\<rparr>"] Cons.prems(2) by auto
  have "pile (picture_of bl (layers lm)) (i # is) = over (pile (picture_of bl (layers lm)) is) (look bl l)"
    using l by (simp add: fun_eq_iff over_def picture_of_def split: option.split)
  then show ?case using t1(1) t2(1) paints_trans [OF t1(2) t2(2)] by auto
qed

lemma update_up_to_paints:
  assumes "ok (lm_painter lm)" "\<forall>i \<in> set bs. \<exists>l. layers lm i = Some l \<and> layer_ok bl l" "rect_ok r'" "lid \<notin> set bs"
  shows "\<exists>t'. paints (lm_painter lm) t' (\<lambda>a b. if in_rect r' a b then pile (picture_of bl (layers lm)) bs a b else None) \<and>
    update_up_to pt bl lid r r' idx (bs @ rest) lm = update_up_to pt bl lid r r' (idx + length bs) rest (lm\<lparr>lm_painter := t'\<rparr>)"
  using assms
proof (induction bs arbitrary: lm idx)
  case Nil
  have "paints (lm_painter lm) (lm_painter lm) (\<lambda>a b. if in_rect r' a b then pile (picture_of bl (layers lm)) [] a b else None)"
    by (rule paints_cong [OF paints_refl [OF Nil(1)]]) simp
  then show ?case by (intro exI [of _ "lm_painter lm"]) simp
next
  case (Cons i bs)
  obtain l where l: "layers lm i = Some l" "layer_ok bl l" using Cons.prems(2) by auto
  obtain t1 where t1: "transfer pt bl l r' lm = (Ok (), lm\<lparr>lm_painter := t1\<rparr>)"
    "paints (lm_painter lm) t1 (\<lambda>a b. if in_rect r' a b then look bl l a b else None)"
    using transfer_paints [OF Cons.prems(1) l(2) Cons.prems(3)] by blast
  then have "ok (lm_painter (lm\<lparr>lm_painter := t1\<rparr>))" by (simp add: paints_def)
  then obtain t2 where t2: "paints t1 t2 (\<lambda>a b. if in_rect r' a b then pile (picture_of bl (layers lm)) bs a b else None)"
    "update_up_to pt bl lid r r' (Suc idx) (bs @ rest) (lm\<lparr>lm_painter := t1\<rparr>) =
       update_up_to pt bl lid r r' (Suc idx + length bs) rest (lm\<lparr>lm_painter := t2\<rparr>)"
    using Cons.IH [of "lm\<lparr>lm_painter := t1\<rparr>" "Suc idx"] Cons.prems(2,3,4) by (auto cong: if_cong)
  have "paints (lm_painter lm) t2 (\<lambda>a b. if in_rect r' a b then pile (picture_of bl (layers lm)) (i # bs) a b else None)"
    by (rule paints_cong [OF paints_trans [OF t1(2) t2(1)]])
      (use l in \<open>auto simp: over_def picture_of_def split: option.split\<close>)
  moreover have "i \<noteq> lid" using Cons.prems(4) by auto
  ultimately show ?case using t1(1) t2(2) l(1) by (intro exI [of _ t2]) simp
qed

text \<open>The whole of \<open>update\<close>, for a layer in the stack between \<open>lower\<close> and \<open>upper\<close>.\<close>

lemma update_paints:
  assumes ok: "ok (lm_painter lm)" and ls: "\<forall>i \<in> set (layer_stack lm). \<exists>l. layers lm i = Some l \<and> layer_ok bl l"
    and stack: "layer_stack lm = lower @ lid # upper" "lid \<notin> set lower" "lid \<notin> set upper"
    and l: "layers lm lid = Some l" "rect_ok (prev_rect l)"
  shows "\<exists>t'. update pt bl lid lm = (Ok (), lm\<lparr>lm_painter := t', layers := (layers lm)(lid \<mapsto> update_prev_info l)\<rparr>) \<and>
    paints (lm_painter lm) t' (over (pile (picture_of bl (layers lm)) upper) (over (look bl l)
      (\<lambda>a b. if in_rect (prev_rect l) a b then pile (picture_of bl (layers lm)) lower a b else None))) \<and>
    seen t' = pixel t'"
proof -
  let ?p = "picture_of bl (layers lm)"
  obtain t1 where t1: "paints (lm_painter lm) t1 (\<lambda>a b. if in_rect (prev_rect l) a b then pile ?p lower a b else None)"
    "update_up_to pt bl lid (layer_rect l) (prev_rect l) 0 (lower @ lid # upper) lm =
       update_up_to pt bl lid (layer_rect l) (prev_rect l) (0 + length lower) (lid # upper) (lm\<lparr>lm_painter := t1\<rparr>)"
    using update_up_to_paints [OF ok _ l(2) stack(2), of bl "layer_rect l" 0 "lid # upper"] ls stack(1) by auto
  define lm1 where "lm1 = lm\<lparr>lm_painter := t1, layers := (layers lm)(lid \<mapsto> update_prev_info l)\<rparr>"
  have lok: "layer_ok bl l" using ls stack(1) l(1) by auto
  then have rok: "rect_ok (layer_rect l)" by (simp add: layer_ok_def)
  have "ok (lm_painter lm1)" using t1(1) by (simp add: paints_def lm1_def)
  then obtain t2 where t2: "transfer pt bl (update_prev_info l) (layer_rect l) lm1 = (Ok (), lm1\<lparr>lm_painter := t2\<rparr>)"
    "paints t1 t2 (\<lambda>a b. if in_rect (layer_rect l) a b then look bl l a b else None)"
    using transfer_paints [of lm1 bl "update_prev_info l" "layer_rect l"] lok rok by (auto simp: lm1_def cong: if_cong)
  have t2': "paints t1 t2 (look bl l)" by (rule paints_cong [OF t2(2)]) (simp add: look_outside)
  have up: "update_up_to pt bl lid (layer_rect l) (prev_rect l) 0 (layer_stack lm) lm = (Ok (length lower), lm1\<lparr>lm_painter := t2\<rparr>)"
    using t1(2) t2(1) l(1) stack(1) by (simp add: lm1_def)
  define lm2 where "lm2 = lm1\<lparr>lm_painter := t2\<rparr>"
  have same: "layers lm2 i = layers lm i" if "i \<in> set upper" for i
    using stack(3) that by (auto simp: lm2_def lm1_def)
  have "ok (lm_painter lm2)" using t2'(1) by (simp add: paints_def lm2_def)
  then obtain t3 where t3: "each (transfer_whole pt bl) upper lm2 = (Ok (), lm2\<lparr>lm_painter := t3\<rparr>)"
    "paints t2 t3 (pile (picture_of bl (layers lm2)) upper)"
    using whole_layers_paint [of lm2 upper bl] ls stack(1) same by (auto simp: lm2_def)
  have "pile (picture_of bl (layers lm2)) upper a b = pile ?p upper a b" for a b
    using same by (induction upper) (auto simp: picture_of_def split: option.split)
  then have t3': "paints t2 t3 (pile ?p upper)" using t3(2) by (auto intro: paints_cong)
  have "ok t3" using t3(2) by (simp add: paints_def)
  then obtain t4 where t4: "pt_flush pt t3 = (Ok (), t4)" "ok t4" "pixel t4 = pixel t3" "seen t4 = pixel t4" using flush_law by metis
  have "update pt bl lid lm = (Ok (), lm\<lparr>lm_painter := t4, layers := (layers lm)(lid \<mapsto> update_prev_info l)\<rparr>)"
    using l(1) up t3(1) t4(1) stack(1)
    by (simp add: update_def layer_rect_def prev_rect_def flush_def lm2_def lm1_def)
  moreover have "paints t2 t4 (pile ?p upper)" using t3' t4 by (simp add: paints_def)
  ultimately show ?thesis using paints_trans [OF paints_trans [OF t1(1) t2'], of t4] t4(4) by blast
qed

end

section \<open>The display device is a painter\<close>

definition gpu_ok :: "u32 \<Rightarrow> u32 \<Rightarrow> Display \<Rightarrow> bool" where
  "gpu_ok W H d \<longleftrightarrow> gpu_width d = W \<and> gpu_height d = H \<and> unat W * unat H < 2 ^ 32 \<and> length (framebuffer d) = unat W * unat H"

definition gpu_pixel :: "Display \<Rightarrow> u32 \<Rightarrow> u32 \<Rightarrow> u32" where
  "gpu_pixel d x y = framebuffer d ! (unat y * unat (gpu_width d) + unat x)"

definition gpu_seen :: "Display \<Rightarrow> u32 \<Rightarrow> u32 \<Rightarrow> u32" where
  "gpu_seen d x y = scanout d ! (unat y * unat (gpu_width d) + unat x)"

definition gpu_colour :: "u32 \<Rightarrow> u32" where
  "gpu_colour p = drop_bit 8 (swap_bytes p)"

lemma row_major_inj:
  assumes "i < w" "i' < w" "j * w + i = j' * w + (i' :: nat)"
  shows "i = i' \<and> j = j'"
proof -
  have "i = (j * w + i) mod w" "(j' * w + i') mod w = i'" using assms(1,2) by simp_all
  then have "i = i'" unfolding assms(3) by simp
  then show ?thesis using assms by simp
qed

interpretation gpu: painter_laws gpu_painter "gpu_ok W H" gpu_pixel gpu_seen gpu_colour W H for W H
proof unfold_locales
  fix d x y p assume ok: "gpu_ok W H d" and in': "x < W" "y < H"
  have i: "unat y * unat W + unat x < unat W * unat H"
    by (rule row_major) (use in' in \<open>simp_all add: word_less_nat_alt\<close>)
  then have "unat (y * W + x) = unat y * unat W + unat x"
    using ok by (simp add: gpu_ok_def unat_word_ariths mod_simps)
  then have "pt_draw_at gpu_painter x y p d = (Ok (), d\<lparr>framebuffer := (framebuffer d)[unat y * unat W + unat x := gpu_colour p]\<rparr>)"
    using ok i by (simp add: gpu_painter_def gpu_draw_at_def gpu_ok_def gpu_colour_def)
  moreover have "gpu_pixel (d\<lparr>framebuffer := (framebuffer d)[unat y * unat W + unat x := gpu_colour p]\<rparr>) a b =
      (if a = x \<and> b = y then gpu_colour p else gpu_pixel d a b)" if ab: "a < W" "b < H" for a b
    using row_major_inj [of "unat a" "unat W" "unat x" "unat b" "unat y"] i ab in' ok
    by (auto simp: gpu_pixel_def gpu_ok_def nth_list_update word_less_nat_alt word_unat_eq_iff)
  ultimately show "\<exists>d'. pt_draw_at gpu_painter x y p d = (Ok (), d') \<and> gpu_ok W H d' \<and>
      (\<forall>a b. a < W \<longrightarrow> b < H \<longrightarrow> gpu_pixel d' a b = (if a = x \<and> b = y then gpu_colour p else gpu_pixel d a b))"
    using ok by (auto simp: gpu_ok_def)
qed (auto simp: gpu_ok_def gpu_painter_def gpu_flush_def gpu_pixel_def gpu_seen_def fun_eq_iff)

end
