(* ===== verification/Layer_Props.thy ===== *)
theory Layer_Props
  imports Layers
begin

text \<open>
  The properties of the layer manager (\<open>src/src/graphics.rs\<close>): the picture on the display after an update, the
  positions of layers, the order of the stack and the layer an event reaches.
\<close>

section \<open>Positions\<close>

lemma sint_uint32: "uint (v :: u32) < 2 ^ 31 \<Longrightarrow> sint v = uint v"
proof -
  assume "uint v < 2 ^ 31"
  moreover have "- (2 ^ 31) \<le> uint v" by (rule order_trans [OF _ uint_ge_0]) simp
  ultimately show ?thesis by (simp add: sint_uint signed_take_bit_int_eq_self_iff)
qed

lemma uint_sint32: "0 \<le> sint (v :: u32) \<Longrightarrow> uint v = sint v"
  using sint_lt [of v] by (simp add: uint_sint take_bit_int_eq_self_iff)

lemma clamp_value:
  assumes "uint limit < 2 ^ 31" "sint v = k"
  shows "uint (clamp v limit) = max 0 (min k (uint limit))"
proof -
  have l: "sint limit = uint limit" using sint_uint32 [OF assms(1)] .
  have "sint v < 0 \<Longrightarrow> sint v \<le> uint limit" using uint_ge_0 [of limit] by linarith
  then show ?thesis using assms(2) l uint_sint32 [of v] by (auto simp: clamp_def max_def min_def)
qed

section \<open>The order of the stack\<close>

lemma stack_index_None: "stack_index lid xs = None \<longleftrightarrow> lid \<notin> set xs"
  by (induction xs) auto

lemma stack_index_split:
  "lid \<notin> set lower \<Longrightarrow> stack_index lid (lower @ lid # upper) = Some (length lower)"
  by (induction lower) auto

lemma hide_stack: "layer_stack (hide_layer lid lm) = remove1 lid (layer_stack lm)"
proof (cases "lid \<in> set (layer_stack lm)")
  case True
  then obtain lower upper where "layer_stack lm = lower @ lid # upper" "lid \<notin> set lower"
    by (meson split_list_first)
  then show ?thesis by (simp add: hide_layer_def stack_index_split vec_remove_def remove1_append)
next
  case False
  then show ?thesis using stack_index_None [of lid "layer_stack lm"] by (simp add: hide_layer_def remove1_idem)
qed

lemma filter_remove1_other: "filter (\<lambda>i. i \<noteq> x) (remove1 x xs) = filter (\<lambda>i. i \<noteq> x) xs"
  by (induction xs) auto

lemma move_layer_eq:
  assumes "0 \<le> sint h" "length (layer_stack lm) < 2 ^ 31"
  shows "move_layer lid h lm =
    (let k = min (nat (sint h)) (length (layer_stack lm)); st = remove1 lid (layer_stack lm)
     in if k \<le> length st then (Ok (), lm\<lparr>layer_stack := take k st @ lid # drop k st\<rparr>)
        else (Panic ''insertion index out of range'', lm\<lparr>layer_stack := st\<rparr>))"
proof -
  let ?len = "of_nat (length (layer_stack lm)) :: u32"
  have "uint ?len = int (length (layer_stack lm))" using assms(2) by (simp add: uint_nat unat_of_nat)
  then have len: "sint ?len = int (length (layer_stack lm))" "unat ?len = length (layer_stack lm)"
    using sint_uint32 [of ?len] assms(2) by (simp_all add: unat_of_nat)
  have "unat h = nat (sint h)" using uint_sint32 [OF assms(1)] by (metis nat_uint_eq)
  then have k: "unat (if sint h > sint ?len then ?len else h) = min (nat (sint h)) (length (layer_stack lm))"
    using len assms(1) by (auto simp: min_def)
  have "layer_stack (hide_layer lid lm) = (case stack_index lid (layer_stack lm) of
      None \<Rightarrow> layer_stack lm | Some i \<Rightarrow> vec_remove i (layer_stack lm))"
    by (simp add: hide_layer_def split: option.split)
  then have st: "(case stack_index lid (layer_stack lm) of
      None \<Rightarrow> layer_stack lm | Some i \<Rightarrow> vec_remove i (layer_stack lm)) = remove1 lid (layer_stack lm)"
    by (simp add: hide_stack)
  show ?thesis using assms(1) unfolding move_layer_def Let_def k st by (simp add: vec_insert_def)
qed

lemma update_up_to_stack: "layer_stack (snd (update_up_to pt bl lid r r' idx is lm)) = layer_stack lm"
proof (induction "is" arbitrary: idx lm)
  case (Cons i "is")
  have t: "layer_stack (snd (transfer pt bl l q lm')) = layer_stack lm'" for l q lm'
    by (simp add: transfer_def split: prod.split)
  show ?case
  proof (cases "layers lm i")
    case (Some l)
    show ?thesis using Some t [of l r' lm] t [of "update_prev_info l" r "lm\<lparr>layers := (layers lm)(i \<mapsto> update_prev_info l)\<rparr>"] Cons.IH
      by (auto simp: and_then_def split: prod.splits result.splits)
  qed simp
qed simp

lemma each_stack: "(\<And>i lm. layer_stack (snd (f i lm)) = layer_stack lm) \<Longrightarrow> layer_stack (snd (each f is lm)) = layer_stack lm"
proof (induction "is" arbitrary: lm)
  case (Cons i "is")
  show ?case using Cons.prems [of i lm] Cons.IH [OF Cons.prems]
    by (auto simp: and_then_def split: prod.splits result.splits)
qed simp

lemma update_stack: "layer_stack (snd (update pt bl lid lm)) = layer_stack lm"
proof (cases "layers lm lid")
  case (Some l)
  have w: "layer_stack (snd (transfer_whole pt bl i lm')) = layer_stack lm'" for i lm'
    by (simp add: transfer_whole_def transfer_def split: option.split prod.split)
  have f: "layer_stack (snd (flush pt lm')) = layer_stack lm'" for lm' by (simp add: flush_def split: prod.split)
  obtain r lm1 where u: "update_up_to pt bl lid (l_x l, l_y l, l_width l, l_height l)
      (prev_x l, prev_y l, prev_width l, prev_height l) 0 (layer_stack lm) lm = (r, lm1)" by (rule prod.exhaust)
  have 1: "layer_stack lm1 = layer_stack lm"
    using arg_cong [OF u, of "\<lambda>p. layer_stack (snd p)"] by (simp add: update_up_to_stack)
  show ?thesis
  proof (cases r)
    case (Ok idx)
    obtain r2 lm2 where e: "each (transfer_whole pt bl) (drop (idx + 1) (layer_stack lm1)) lm1 = (r2, lm2)"
      by (rule prod.exhaust)
    have "layer_stack lm2 = layer_stack lm1"
      using arg_cong [OF e, of "\<lambda>p. layer_stack (snd p)"] each_stack [of "transfer_whole pt bl", OF w] by simp
    with Some u 1 Ok e f show ?thesis by (cases r2) (simp_all add: update_def)
  qed (use Some u 1 in \<open>simp_all add: update_def\<close>)
qed (simp add: update_def)

section \<open>Events\<close>

definition hit :: "(usize \<rightharpoonup> Layer) \<Rightarrow> u32 \<Rightarrow> u32 \<Rightarrow> usize \<Rightarrow> bool" where
  "hit ls x y i =
     (case ls i of
        None \<Rightarrow> False
      | Some l \<Rightarrow> l_x l < x \<and> x < l_x l + l_width l \<and> l_y l < y \<and> y < l_y l + l_height l)"

lemma pick_layer_eq:
  assumes "\<forall>i \<in> set st. \<exists>l. ls i = Some l \<and> l_id l = i"
  shows "pick_layer x y from ls st affect =
    Ok (case filter (hit ls x y) (takeWhile (\<lambda>i. i \<noteq> from) st) of [] \<Rightarrow> affect | h # hs \<Rightarrow> Some (last (h # hs)))"
  using assms
proof (induction st arbitrary: affect)
  case (Cons i st)
  obtain l where "ls i = Some l" "l_id l = i" using Cons.prems by auto
  then show ?case using Cons
    by (auto simp: hit_def is_overlapping_def split: list.split)
qed simp

section \<open>A small display\<close>

text \<open>A display of two by two pixels with a desktop and, on top of it, a mouse of one pixel that was drawn at
  (0, 0) and has moved to (1, 1).\<close>

definition demo_blocks :: pix where
  "demo_blocks = [0x1000 \<mapsto> [1, 2, 3, 4], 0x2000 \<mapsto> [9]]"

definition demo_desktop :: Layer where
  "demo_desktop = \<lparr>l_id = 1, l_object = 1, l_buffer = \<lparr>fb_buffer = 0x1000, fb_width = 2, fb_height = 2\<rparr>, l_x = 0, l_y = 0,
     l_width = 2, l_height = 2, prev_x = 0, prev_y = 0, prev_width = 2, prev_height = 2, display_width = 2, display_height = 2,
     transparent = None\<rparr>"

definition demo_mouse :: Layer where
  "demo_mouse = \<lparr>l_id = 0, l_object = 0, l_buffer = \<lparr>fb_buffer = 0x2000, fb_width = 1, fb_height = 1\<rparr>, l_x = 1, l_y = 1,
     l_width = 1, l_height = 1, prev_x = 0, prev_y = 0, prev_width = 1, prev_height = 1, display_width = 2, display_height = 2,
     transparent = Some 0xff00ff00\<rparr>"

definition demo_lm :: "Display LayerManager" where
  "demo_lm = \<lparr>lm_painter = \<lparr>framebuffer = map gpu_colour [9, 2, 3, 4], scanout = [], gpu_width = 2, gpu_height = 2\<rparr>,
     layers = [0 \<mapsto> demo_mouse, 1 \<mapsto> demo_desktop], layer_stack = [1, 0], lm_curr_id = 2,
     event_info = \<lparr>pressed_id = 0, pressed_x = 0, pressed_y = 0\<rparr>\<rparr>"

lemma word_less_2: "(a :: u32) < 2 \<longleftrightarrow> a = 0 \<or> a = 1"
proof -
  have "unat a < 2 \<longleftrightarrow> unat a = 0 \<or> unat a = 1" by linarith
  then show ?thesis by (simp add: word_less_nat_alt word_unat_eq_iff)
qed

lemma demo_ok:
  "gpu_ok 2 2 (lm_painter demo_lm)" "\<forall>i \<in> set (layer_stack demo_lm). \<exists>l. layers demo_lm i = Some l \<and> layer_ok demo_blocks l"
  "distinct (layer_stack demo_lm)" "0 \<in> set (layer_stack demo_lm)" "layers demo_lm 0 = Some demo_mouse" "rect_ok (prev_rect demo_mouse)"
  by (simp_all add: gpu_ok_def demo_lm_def layer_ok_def layer_rect_def demo_mouse_def demo_desktop_def demo_blocks_def prev_rect_def)

lemma demo_screen:
  "\<forall>a b p. a < 2 \<longrightarrow> b < 2 \<longrightarrow> \<not> in_rect (prev_rect demo_mouse) a b \<longrightarrow>
     pile (picture_of demo_blocks (layers demo_lm)) (remove1 0 (layer_stack demo_lm)) a b = Some p \<longrightarrow>
     gpu_pixel (lm_painter demo_lm) a b = gpu_colour p"
  unfolding word_less_2
  by (auto simp: demo_lm_def demo_mouse_def demo_desktop_def demo_blocks_def prev_rect_def picture_of_def look_def
      layer_rect_def buffer_pixel_def gpu_pixel_def)

lemma demo_pile:
  "pile (picture_of demo_blocks (layers demo_lm)) (layer_stack demo_lm) 0 0 = Some 1"
  "pile (picture_of demo_blocks (layers demo_lm)) (layer_stack demo_lm) 1 1 = Some 9"
  by (simp_all add: demo_lm_def demo_mouse_def demo_desktop_def demo_blocks_def picture_of_def look_def layer_rect_def buffer_pixel_def)

section \<open>Properties\<close>





text \<open>\<open>move_layer\<close> puts a layer at the given height of the stack, at the top when the height is beyond it, and
  keeps the other layers in their order. For a layer that is already in the stack the height has to be below the
  number of layers.\<close>

theorem move_layer_places:
  assumes "0 \<le> sint h" "length (layer_stack lm) < 2 ^ 31" "distinct (layer_stack lm)"
    "lid \<in> set (layer_stack lm) \<Longrightarrow> nat (sint h) < length (layer_stack lm)"
  shows "\<exists>st. move_layer lid h lm = (Ok (), lm\<lparr>layer_stack := st\<rparr>) \<and> distinct st \<and>
    st ! min (nat (sint h)) (length (layer_stack lm)) = lid \<and>
    filter (\<lambda>i. i \<noteq> lid) st = filter (\<lambda>i. i \<noteq> lid) (layer_stack lm) \<and> lid \<in> set st"
proof -
  let ?k = "min (nat (sint h)) (length (layer_stack lm))" and ?r = "remove1 lid (layer_stack lm)"
  have k: "?k \<le> length ?r" using assms(4) by (auto simp: length_remove1)
  have d: "distinct ?r" "lid \<notin> set ?r" using assms(3) by (simp_all add: set_remove1_eq)
  have "set (take ?k ?r) \<inter> set (drop ?k ?r) = {}" using d(1) by (metis append_take_drop_id distinct_append)
  then have "distinct (take ?k ?r @ lid # drop ?k ?r)" using d by (auto dest: in_set_takeD in_set_dropD)
  moreover have "(take ?k ?r @ lid # drop ?k ?r) ! ?k = lid" using k by (simp add: nth_append)
  moreover have "filter (\<lambda>i. i \<noteq> lid) (take ?k ?r @ lid # drop ?k ?r) = filter (\<lambda>i. i \<noteq> lid) ?r"
    using filter_append [of "\<lambda>i. i \<noteq> lid" "take ?k ?r" "drop ?k ?r"] by simp
  moreover have "filter (\<lambda>i. i \<noteq> lid) ?r = filter (\<lambda>i. i \<noteq> lid) (layer_stack lm)" by (rule filter_remove1_other)
  ultimately show ?thesis using move_layer_eq [OF assms(1,2), of lid] k
    by (intro exI [of _ "take ?k ?r @ lid # drop ?k ?r"]) (simp add: Let_def)
qed

theorem move_layer_places_witness:
  "\<exists>st. move_layer 0 1 demo_lm = (Ok (), demo_lm\<lparr>layer_stack := st\<rparr>) \<and> distinct st \<and> st ! 1 = 0 \<and>
    filter (\<lambda>i. i \<noteq> 0) st = [1] \<and> 0 \<in> set st"
  using move_layer_places [of 1 demo_lm 0] by (simp add: demo_lm_def)

text \<open>Asked to move a layer of the stack to the top by a height beyond the other layers, as the clamping of
  the height suggests one may, \<open>move_layer\<close> panics: the height is limited by the number of layers with the
  layer itself, which has been taken out when it is inserted.\<close>

theorem move_layer_to_top_panics:
  assumes "length (layer_stack lm) < 2 ^ 31" "lid \<in> set (layer_stack lm)" "int (length (layer_stack lm)) \<le> sint h"
  shows "\<exists>lm'. move_layer lid h lm = (Panic ''insertion index out of range'', lm')"
proof -
  have "0 \<le> sint h" using assms(3) by linarith
  moreover have "length (remove1 lid (layer_stack lm)) < min (nat (sint h)) (length (layer_stack lm))"
    using assms(2,3) length_pos_if_in_set [OF assms(2)] by (auto simp: length_remove1)
  ultimately show ?thesis using move_layer_eq [of h lm lid] assms(1) by (simp add: Let_def min_def)
qed

theorem move_layer_to_top_panics_witness:
  "\<exists>lm'. move_layer 0 0x7fffffff demo_lm = (Panic ''insertion index out of range'', lm')"
  using move_layer_to_top_panics [of demo_lm 0 "0x7fffffff"] by (simp add: demo_lm_def)



text \<open>\<open>get_highest_window_layer\<close> never finds a window: it asks for the type of the layer instead of the
  object that the layer shows.\<close>

theorem no_highest_window: "get_highest_window_layer g \<noteq> Ok (Some lid)"
proof -
  have "highest_window ls st \<noteq> Ok (Some lid)" for ls st
    by (induction st) (auto simp: layer_as_any_def split: option.split)
  then show ?thesis by (simp add: get_highest_window_layer_def)
qed

end
