(* ===== verification/Virtio.thy ===== *)
theory Virtio
  imports Process
begin

text \<open>
  Virtio queues and registers (\<open>src/src/arch/riscv64/virtio.rs\<close>) and what the three drivers have in common: the
  table of free descriptors, the handshake that starts a device and the publication of a request.

  A device answers reads of its registers as a function of everything that was read and written before (a
  parameter, \<open>dv_read\<close>), and the accesses are logged. The queues are shared memory: the device changes the
  used ring while the driver's process is switched out or before an interrupt.
\<close>

section \<open>Registers\<close>

datatype VirtioReg =
    MagicValue | Version | DeviceId | VendorId | DeviceFeatures | DeviceFeaturesSel | DriverFeatures
  | DriverFeaturesSel | QueueSel | QueueNumMax | QueueNum | QueueReady | QueueNotify | InterruptStatus
  | InterruptACK | Status | QueueDescLow | QueueDescHigh | QueueDriverLow | QueueDriverHigh
  | QueueDeviceLow | QueueDeviceHigh | ConfigGeneration | Config

fun reg_val :: "VirtioReg \<Rightarrow> usize" where
  "reg_val MagicValue = 0x000"
| "reg_val Version = 0x004"
| "reg_val DeviceId = 0x008"
| "reg_val VendorId = 0x00c"
| "reg_val DeviceFeatures = 0x010"
| "reg_val DeviceFeaturesSel = 0x014"
| "reg_val DriverFeatures = 0x020"
| "reg_val DriverFeaturesSel = 0x024"
| "reg_val QueueSel = 0x030"
| "reg_val QueueNumMax = 0x034"
| "reg_val QueueNum = 0x038"
| "reg_val QueueReady = 0x044"
| "reg_val QueueNotify = 0x050"
| "reg_val InterruptStatus = 0x060"
| "reg_val InterruptACK = 0x064"
| "reg_val Status = 0x070"
| "reg_val QueueDescLow = 0x080"
| "reg_val QueueDescHigh = 0x084"
| "reg_val QueueDriverLow = 0x090"
| "reg_val QueueDriverHigh = 0x094"
| "reg_val QueueDeviceLow = 0x0a0"
| "reg_val QueueDeviceHigh = 0x0a4"
| "reg_val ConfigGeneration = 0x0fc"
| "reg_val Config = 0x100"

datatype VirtioDeviceStatus = Acknowoledge | Driver | Failed | FeaturesOk | DriverOk | DeviceNeedsReset

fun status_val :: "VirtioDeviceStatus \<Rightarrow> u32" where
  "status_val Acknowoledge = 1"
| "status_val Driver = 2"
| "status_val Failed = 128"
| "status_val FeaturesOk = 8"
| "status_val DriverOk = 4"
| "status_val DeviceNeedsReset = 64"

datatype reg_access = RegRead usize u64 | RegWrite usize u64

record device =
  dv_read :: "reg_access list \<Rightarrow> usize \<Rightarrow> u64"
  dv_log :: "reg_access list"

definition reg_read :: "usize \<Rightarrow> device \<Rightarrow> u64 \<times> device" where
  "reg_read addr d = (let v = dv_read d (dv_log d) addr in (v, d\<lparr>dv_log := dv_log d @ [RegRead addr v]\<rparr>))"

definition reg_write :: "usize \<Rightarrow> u64 \<Rightarrow> device \<Rightarrow> device" where
  "reg_write addr v d = d\<lparr>dv_log := dv_log d @ [RegWrite addr v]\<rparr>"

definition read_reg32 :: "usize \<Rightarrow> usize \<Rightarrow> device \<Rightarrow> u32 \<times> device" where
  "read_reg32 base off d = (case reg_read (base + off) d of (v, d') \<Rightarrow> (ucast v, d'))"

definition read_reg64 :: "usize \<Rightarrow> usize \<Rightarrow> device \<Rightarrow> u64 \<times> device" where
  "read_reg64 base off d = reg_read (base + off) d"

definition write_reg32 :: "usize \<Rightarrow> usize \<Rightarrow> u32 \<Rightarrow> device \<Rightarrow> device" where
  "write_reg32 base off v d = reg_write (base + off) (ucast v) d"

definition write_reg64 :: "usize \<Rightarrow> usize \<Rightarrow> u64 \<Rightarrow> device \<Rightarrow> device" where
  "write_reg64 base off v d = reg_write (base + off) v d"

section \<open>Queues\<close>

definition VIRTIO_RING_SIZE :: nat where
  "VIRTIO_RING_SIZE = 128"

datatype VirtqDescFlag = VirtqDescFNext | VirtqDescFWrite | VirtqDescFIndirect

fun flag_val :: "VirtqDescFlag \<Rightarrow> u16" where
  "flag_val VirtqDescFNext = 1"
| "flag_val VirtqDescFWrite = 2"
| "flag_val VirtqDescFIndirect = 4"

datatype VirtqDesc = VirtqDesc (vd_addr: u64) (vd_len: u32) (vd_flags: u16) (vd_next: u16)

record VirtqAvail =
  av_flags :: u16
  av_idx :: u16
  av_ring :: "u16 list"
  used_event :: u16

datatype VirtqUsedElem = VirtqUsedElem (ue_id: u32) (ue_len: u32)

record VirtqUsed =
  us_flags :: u16
  us_idx :: u16
  us_ring :: "VirtqUsedElem list"
  avail_event :: u16

definition VirtqAvail_new :: "u16 \<Rightarrow> u16 \<Rightarrow> u16 \<Rightarrow> VirtqAvail" where
  "VirtqAvail_new flags idx ue = \<lparr>av_flags = flags, av_idx = idx, av_ring = replicate VIRTIO_RING_SIZE 0, used_event = ue\<rparr>"

definition VirtqUsed_new :: "u16 \<Rightarrow> u16 \<Rightarrow> u16 \<Rightarrow> VirtqUsed" where
  "VirtqUsed_new flags idx ae =
     \<lparr>us_flags = flags, us_idx = idx, us_ring = replicate VIRTIO_RING_SIZE (VirtqUsedElem 0 0), avail_event = ae\<rparr>"

text \<open>The three areas of a queue with their addresses, and the address of the \<open>Virtqueue\<close> itself.\<close>

record Virtqueue =
  vq_ptr :: usize
  vq_desc_ptr :: usize
  vq_avail_ptr :: usize
  vq_used_ptr :: usize
  vq_desc :: "VirtqDesc list"
  vq_avail :: VirtqAvail
  vq_used :: VirtqUsed

text \<open>The allocations with which every driver makes a queue. \<open>alloc_zeroed\<close> clears the areas.\<close>

definition make_virtqueue :: "machine \<Rightarrow> Virtqueue \<times> machine" where
  "make_virtqueue m =
     (case alloc_zeroed (16 * 128, 16) m of (desc, m1) \<Rightarrow>
      case alloc_zeroed (6 + 2 * 128, 2) m1 of (avail, m2) \<Rightarrow>
      case alloc_zeroed (6 + 8 * 128, 2) m2 of (used, m3) \<Rightarrow>
      case alloc (24, 8) m3 of (virtqueue, m4) \<Rightarrow>
        (\<lparr>vq_ptr = virtqueue, vq_desc_ptr = desc, vq_avail_ptr = avail, vq_used_ptr = used,
          vq_desc = replicate VIRTIO_RING_SIZE (VirtqDesc 0 0 0 0), vq_avail = VirtqAvail_new 0 0 0, vq_used = VirtqUsed_new 0 0 0\<rparr>,
         m4))"

section \<open>Free descriptors\<close>

text \<open>\<open>find_free_desc\<close>, \<open>allocate_desc\<close> and \<open>deallocate_desc\<close>, which every driver has on its \<open>free_desc\<close>.\<close>

fun find_free_from :: "nat \<Rightarrow> bool list \<Rightarrow> ('e, nat) result" where
  "find_free_from i [] = Panic ''free desc exhausted''"
| "find_free_from i (b # bs) = (if b then Ok i else find_free_from (Suc i) bs)"

definition find_free_desc :: "bool list \<Rightarrow> ('e, u16) result \<times> bool list" where
  "find_free_desc free =
     (case find_free_from 0 free of
        Ok i \<Rightarrow> (Ok (of_nat i), free[i := False])
      | Err e \<Rightarrow> (Err e, free)
      | Panic m \<Rightarrow> (Panic m, free))"

fun allocate_desc :: "nat \<Rightarrow> bool list \<Rightarrow> ('e, u16 list) result \<times> bool list" where
  "allocate_desc 0 free = (Ok [], free)"
| "allocate_desc (Suc n) free =
     and_then (find_free_desc free) (\<lambda>i free1.
     and_then (allocate_desc n free1) (\<lambda>is free2. (Ok (i # is), free2)))"

fun deallocate_desc :: "u16 list \<Rightarrow> bool list \<Rightarrow> ('e, unit) result \<times> bool list" where
  "deallocate_desc [] free = (Ok (), free)"
| "deallocate_desc (i # is) free =
     (if unat i < length free then deallocate_desc is (free[unat i := True])
      else (Panic ''index out of bounds'', free))"

section \<open>Requests\<close>

text \<open>\<open>write_desc\<close> through the raw pointer; beyond the table it is a memory error.\<close>

definition write_desc :: "u16 \<Rightarrow> VirtqDesc \<Rightarrow> Virtqueue \<Rightarrow> ('e, unit) result \<times> Virtqueue" where
  "write_desc i d q =
     (if unat i < length (vq_desc q) then (Ok (), q\<lparr>vq_desc := (vq_desc q)[unat i := d]\<rparr>)
      else (Panic ''write beyond the descriptor table'', q))"

text \<open>The head of a request into the available ring.\<close>

definition publish :: "u16 \<Rightarrow> Virtqueue \<Rightarrow> ('e, unit) result \<times> Virtqueue" where
  "publish head q =
     (if vq_avail_ptr q = 0 then (Panic ''unwrap on None'', q)
      else let a = vq_avail q; i = unat (av_idx a) mod VIRTIO_RING_SIZE
           in (Ok (), q\<lparr>vq_avail := a\<lparr>av_ring := (av_ring a)[i := head], av_idx := av_idx a + 1\<rparr>\<rparr>))"

section \<open>Starting a device\<close>

text \<open>The part of every driver's \<open>init\<close> up to the queues: the device has to be the expected one, the features it
  offers are handed back (with those of the driver), and the queue has to be unused and large enough.\<close>

definition handshake :: "usize \<Rightarrow> u32 \<Rightarrow> u32 \<Rightarrow> device \<Rightarrow> ('e, unit) result \<times> device" where
  "handshake base expected wanted d0 =
     (let (magic_value, d1) = read_reg32 base (reg_val MagicValue) d0;
          (version, d2) = read_reg32 base (reg_val Version) d1;
          (device_id, d3) = read_reg32 base (reg_val DeviceId) d2
      in if magic_value \<noteq> 0x74726976 \<or> version \<noteq> 2 \<or> device_id \<noteq> expected
         then (Panic ''unrecognized virtio device'', d3)
         else
           let bits1 = status_val Acknowoledge;
               d4 = write_reg32 base (reg_val Status) bits1 d3;
               bits2 = bits1 OR status_val Driver;
               d5 = write_reg32 base (reg_val Status) bits2 d4;
               (features, d6) = read_reg32 base (reg_val DeviceFeatures) d5;
               d7 = write_reg32 base (reg_val DeviceFeatures) (features OR wanted) d6;
               bits3 = bits2 OR status_val FeaturesOk;
               d8 = write_reg32 base (reg_val Status) bits3 d7;
               (st, d9) = read_reg32 base (reg_val Status) d8
           in if st AND status_val FeaturesOk = 0
              then (Panic ''the device does not support the required features'',
                    write_reg32 base (reg_val Status) (status_val Failed) d9)
              else
                let d10 = write_reg32 base (reg_val QueueSel) 0 d9;
                    (queue_ready, d11) = read_reg32 base (reg_val QueueReady) d10
                in if queue_ready \<noteq> 0 then (Panic ''queue is already in use'', d11)
                   else
                     let (queue_num_max, d12) = read_reg32 base (reg_val QueueNumMax) d11
                     in if queue_num_max = 0 then (Panic ''queue is not available'', d12)
                        else if queue_num_max < of_nat VIRTIO_RING_SIZE then (Panic ''QueueNumMax too short'', d12)
                        else (Ok (), write_reg32 base (reg_val QueueNum) (of_nat VIRTIO_RING_SIZE) d12))"

text \<open>The part after the queues: their addresses, and \<open>DRIVER_OK\<close> as the last write.\<close>

definition queue_addresses :: "usize \<Rightarrow> Virtqueue \<Rightarrow> device \<Rightarrow> device" where
  "queue_addresses base q d =
     write_reg64 base (reg_val QueueDeviceLow) (vq_used_ptr q)
    (write_reg64 base (reg_val QueueDriverLow) (vq_avail_ptr q)
    (write_reg64 base (reg_val QueueDescLow) (vq_desc_ptr q) d))"

definition driver_ok :: "usize \<Rightarrow> device \<Rightarrow> device" where
  "driver_ok base d =
     write_reg32 base (reg_val Status)
       (((status_val Acknowoledge OR status_val Driver) OR status_val FeaturesOk) OR status_val DriverOk)
    (write_reg32 base (reg_val QueueReady) 1 d)"

section \<open>Drivers in the kernel\<close>

text \<open>The process manager with the state of a driver. A call of the manager runs inside the driver's call; while
  the caller is switched out the other processes and the interrupts change both.\<close>

record 'x kernel =
  k_pm :: ProcessManager
  k_drv :: 'x

primrec pm_prog :: "'x \<Rightarrow> (ProcessManager, 'e, 'a) prog \<Rightarrow> ('x kernel, 'e, 'a) prog" where
  "pm_prog x (Done r s) = Done r \<lparr>k_pm = s, k_drv = x\<rparr>"
| "pm_prog x (Switch p s k) = Switch p \<lparr>k_pm = s, k_drv = x\<rparr> (\<lambda>K. pm_prog (k_drv K) (k (k_pm K)))"

definition on_pm :: "(ProcessManager, 'e, 'a) kop \<Rightarrow> ('x kernel, 'e, 'a) kop" where
  "on_pm m = (\<lambda>K. pm_prog (k_drv K) (m (k_pm K)))"

definition on_drv :: "('x \<Rightarrow> ('e, 'a) result \<times> 'x) \<Rightarrow> ('x kernel, 'e, 'a) kop" where
  "on_drv f = lift (\<lambda>K. case f (k_drv K) of (r, x) \<Rightarrow> (r, K\<lparr>k_drv := x\<rparr>))"

definition upd_drv :: "('x \<Rightarrow> 'x) \<Rightarrow> ('x kernel, 'e, unit) kop" where
  "upd_drv f = modify (\<lambda>K. K\<lparr>k_drv := f (k_drv K)\<rparr>)"

definition on_heap :: "(machine \<Rightarrow> 'a \<times> machine) \<Rightarrow> ('x kernel, 'e, 'a) kop" where
  "on_heap f = on_pm (on_hw (\<lambda>m. case f m of (a, m') \<Rightarrow> (Ok a, m')))"

end
