(* ===== verification/Virtio_Blk.thy ===== *)
theory Virtio_Blk
  imports Virtio
begin

text \<open>
  The block device (\<open>src/src/arch/riscv64/virtio/virtio_blk.rs\<close>). A request is a chain of three descriptors, header,
  buffer and status; \<open>block_op\<close> publishes it and waits until the interrupt (\<open>pending\<close>) has made its process
  ready again.
\<close>

section \<open>Data\<close>

datatype VirtioBlkFeature =
    VirtioBlkFSizeMax | VirtioBlkFSegMax | VirtioBlkFGeometry | VirtioBlkFRo | VirtioBlkFBlkSize | VirtioBlkFFlush
  | VirtioBlkFTopology | VirtioBlkFConfigWce | VirtioBlkFDiscard | VirtioBlkFWriteZeroes

fun blk_feature_val :: "VirtioBlkFeature \<Rightarrow> u32" where
  "blk_feature_val VirtioBlkFSizeMax = 1"
| "blk_feature_val VirtioBlkFSegMax = 2"
| "blk_feature_val VirtioBlkFGeometry = 0x10"
| "blk_feature_val VirtioBlkFRo = 0x20"
| "blk_feature_val VirtioBlkFBlkSize = 0x40"
| "blk_feature_val VirtioBlkFFlush = 0x200"
| "blk_feature_val VirtioBlkFTopology = 0x400"
| "blk_feature_val VirtioBlkFConfigWce = 0x800"
| "blk_feature_val VirtioBlkFDiscard = 0x2000"
| "blk_feature_val VirtioBlkFWriteZeroes = 0x4000"

datatype RequestType = VirtioBlkTIn | VirtioBlkTOut | VirtioBlkTFlush | VirtioBlkTDiscard | VirtioBlkTWriteZeroes

fun request_val :: "RequestType \<Rightarrow> u32" where
  "request_val VirtioBlkTIn = 0"
| "request_val VirtioBlkTOut = 1"
| "request_val VirtioBlkTFlush = 4"
| "request_val VirtioBlkTDiscard = 11"
| "request_val VirtioBlkTWriteZeroes = 13"

datatype VirtioBlkRequest = VirtioBlkRequest (rq_type: u32) (rq_reserved: u32) (rq_sector: u64)

text \<open>The driver, the device behind its registers, and the requests it has written to the heap. \<open>status_ptr\<close> is
  the address of the array \<open>status\<close>.\<close>

record VirtioBlk =
  b_base :: usize
  b_virtqueue :: Virtqueue
  b_free_desc :: "bool list"
  b_status :: "u8 list"
  b_status_ptr :: usize
  b_desc_indexes :: "u16 list option"
  b_ack_used_index :: u16
  b_sid :: usize
  b_pid :: usize
  b_dev :: device
  b_requests :: "usize \<rightharpoonup> VirtioBlkRequest"

definition no_queue :: Virtqueue where
  "no_queue = \<lparr>vq_ptr = 0, vq_desc_ptr = 0, vq_avail_ptr = 0, vq_used_ptr = 0, vq_desc = [], vq_avail = VirtqAvail_new 0 0 0,
     vq_used = VirtqUsed_new 0 0 0\<rparr>"

type_synonym 'a bop = "(VirtioBlk kernel, ProcessError, 'a) kop"

definition VirtioBlk_new :: "usize \<Rightarrow> usize \<Rightarrow> device \<Rightarrow> (ProcessManager, ProcessError, VirtioBlk) kop" where
  "VirtioBlk_new base status_ptr d =
     bind (create_semaphore 1) (\<lambda>sid.
     ret \<lparr>b_base = base, b_virtqueue = no_queue, b_free_desc = replicate VIRTIO_RING_SIZE True,
          b_status = replicate VIRTIO_RING_SIZE 0, b_status_ptr = status_ptr, b_desc_indexes = None, b_ack_used_index = 0,
          b_sid = sid, b_pid = 0, b_dev = d, b_requests = Map.empty\<rparr>)"

section \<open>Operations\<close>

definition blk_dev :: "(usize \<Rightarrow> device \<Rightarrow> ('e, 'a) result \<times> device) \<Rightarrow> VirtioBlk \<Rightarrow> ('e, 'a) result \<times> VirtioBlk" where
  "blk_dev f b = (case f (b_base b) (b_dev b) of (r, d) \<Rightarrow> (r, b\<lparr>b_dev := d\<rparr>))"

definition blk_write_reg32 :: "usize \<Rightarrow> u32 \<Rightarrow> VirtioBlk \<Rightarrow> VirtioBlk" where
  "blk_write_reg32 off v b = b\<lparr>b_dev := write_reg32 (b_base b) off v (b_dev b)\<rparr>"

definition blk_init :: "unit bop" where
  "blk_init =
     bind (gets (\<lambda>K. b_sid (k_drv K))) (\<lambda>sid.
     seq (expect ''process'' (on_pm (wait_semaphore sid)))
    (seq (on_drv (blk_dev (\<lambda>base. handshake base 2 (blk_feature_val VirtioBlkFConfigWce))))
    (bind (on_heap make_virtqueue) (\<lambda>q.
     seq (upd_drv (\<lambda>b. b\<lparr>b_dev := queue_addresses (b_base b) q
            (write_reg32 (b_base b) (reg_val QueueNum) (of_nat VIRTIO_RING_SIZE) (b_dev b))\<rparr>))
    (seq (if vq_ptr q = 0 then panic ''unwrap on None'' else upd_drv (\<lambda>b. b\<lparr>b_virtqueue := q\<rparr>))
    (seq (upd_drv (\<lambda>b. b\<lparr>b_dev := driver_ok (b_base b) (b_dev b)\<rparr>))
         (expect ''process'' (on_pm (signal_semaphore sid)))))))))"

definition blk_allocate_desc :: "nat \<Rightarrow> VirtioBlk \<Rightarrow> ('e, u16 list) result \<times> VirtioBlk" where
  "blk_allocate_desc n b = (case allocate_desc n (b_free_desc b) of (r, free) \<Rightarrow> (r, b\<lparr>b_free_desc := free\<rparr>))"

definition blk_deallocate_desc :: "u16 list \<Rightarrow> VirtioBlk \<Rightarrow> ('e, unit) result \<times> VirtioBlk" where
  "blk_deallocate_desc is b = (case deallocate_desc is (b_free_desc b) of (r, free) \<Rightarrow> (r, b\<lparr>b_free_desc := free\<rparr>))"

definition blk_write_desc :: "u16 \<Rightarrow> VirtqDesc \<Rightarrow> VirtioBlk \<Rightarrow> ('e, unit) result \<times> VirtioBlk" where
  "blk_write_desc i d b = (case write_desc i d (b_virtqueue b) of (r, q) \<Rightarrow> (r, b\<lparr>b_virtqueue := q\<rparr>))"

definition blk_capacity :: "VirtioBlk \<Rightarrow> usize \<times> VirtioBlk" where
  "blk_capacity b = (case read_reg64 (b_base b) 0x100 (b_dev b) of (v, d) \<Rightarrow> (v, b\<lparr>b_dev := d\<rparr>))"

text \<open>The chain of a request: header, buffer, status.\<close>

definition blk_chain :: "usize \<Rightarrow> usize \<Rightarrow> usize \<Rightarrow> bool \<Rightarrow> u16 list \<Rightarrow> VirtioBlk \<Rightarrow> ('e, unit) result \<times> VirtioBlk" where
  "blk_chain req buffer sz write is b =
     (let flag = flag_val VirtqDescFNext;
          buffer_flag = (if write then flag else flag OR flag_val VirtqDescFWrite)
      in and_then (blk_write_desc (is ! 0) (VirtqDesc req 16 flag (is ! 1)) b) (\<lambda>_ b.
         and_then (blk_write_desc (is ! 1) (VirtqDesc buffer (ucast sz) buffer_flag (is ! 2)) b) (\<lambda>_ b.
         if unat (is ! 0) < length (b_status b)
         then blk_write_desc (is ! 2) (VirtqDesc (b_status_ptr b + ucast (is ! 0)) 1 (flag_val VirtqDescFWrite) 0) b
         else (Panic ''index out of bounds'', b))))"

definition blk_publish :: "u16 list \<Rightarrow> VirtioBlk \<Rightarrow> ('e, unit) result \<times> VirtioBlk" where
  "blk_publish is b =
     (case publish (is ! 0) (b_virtqueue b) of
        (Ok _, q) \<Rightarrow> (Ok (), b\<lparr>b_virtqueue := q, b_desc_indexes := Some is\<rparr>)
      | (Err e, q) \<Rightarrow> (Err e, b\<lparr>b_virtqueue := q\<rparr>)
      | (Panic m, q) \<Rightarrow> (Panic m, b\<lparr>b_virtqueue := q\<rparr>))"

definition block_op :: "usize \<Rightarrow> usize \<Rightarrow> usize \<Rightarrow> bool \<Rightarrow> unit bop" where
  "block_op buffer sz sector write =
     bind (gets (\<lambda>K. b_sid (k_drv K))) (\<lambda>sid.
     seq (expect ''process'' (on_pm (wait_semaphore sid)))
    (bind (on_pm (gets running)) (\<lambda>pid.
     seq (upd_drv (\<lambda>b. b\<lparr>b_pid := pid\<rparr>))
    (bind (on_heap (alloc (16, 1))) (\<lambda>req.
     let req_type = request_val (if write then VirtioBlkTOut else VirtioBlkTIn)
     in seq (upd_drv (\<lambda>b. b\<lparr>b_requests := (b_requests b)(req \<mapsto> VirtioBlkRequest req_type 0 sector)\<rparr>))
       (bind (on_drv (blk_allocate_desc 3)) (\<lambda>is.
        seq (on_drv (blk_chain req buffer sz write is))
       (seq (expect ''process'' (on_pm (signal_semaphore sid)))
       (seq (on_drv (blk_publish is))
       (bind (gets (\<lambda>K. b_pid (k_drv K))) (\<lambda>pid.
        seq (expect ''process'' (on_pm (io_wait pid)))
       (seq (upd_drv (blk_write_reg32 (reg_val QueueNotify) 0))
            (expect ''process'' (on_pm schedule))))))))))))))"

definition blk_read_sector :: "usize \<Rightarrow> usize \<Rightarrow> unit bop" where
  "blk_read_sector sector buffer = block_op buffer 512 sector False"

definition blk_write_sector :: "usize \<Rightarrow> usize \<Rightarrow> unit bop" where
  "blk_write_sector sector buffer = block_op buffer 512 sector True"

definition blk_sector_size :: usize where
  "blk_sector_size = 512"

section \<open>The interrupt\<close>

lemma ack_distance: "(ack :: u16) \<noteq> idx \<Longrightarrow> unat (idx - (ack + 1)) < unat (idx - ack)"
proof -
  assume "ack \<noteq> idx"
  then have "idx - ack \<noteq> 0" by simp
  moreover have "idx - (ack + 1) = (idx - ack) - 1" by (simp add: algebra_simps)
  ultimately show ?thesis by (metis measure_unat)
qed

text \<open>The loop over the used ring: every element is checked and acknowledged, and its request is given back to
  the heap, once for each address. The distance from the acknowledged to the used index, as \<open>u16\<close>, goes down
  with each iteration.\<close>

function ack_loop ::
  "Virtqueue \<Rightarrow> u8 list \<Rightarrow> u16 \<Rightarrow> usize set \<Rightarrow> machine \<Rightarrow> ('e, unit) result \<times> u16 \<times> machine" where
  "ack_loop q st ack seen m =
     (if ack = us_idx (vq_used q) then (Ok (), ack, m)
      else
        let i = unat (ue_id (us_ring (vq_used q) ! (unat ack mod VIRTIO_RING_SIZE)))
        in if \<not> i < length st then (Panic ''index out of bounds'', ack, m)
           else if st ! i \<noteq> 0 then (Panic ''virtio_blk operation failed'', ack, m)
           else if \<not> i < length (vq_desc q) then (Panic ''read beyond the descriptor table'', ack + 1, m)
           else let d = vq_desc q ! i; req = vd_addr d
                in if req \<in> seen then ack_loop q st (ack + 1) seen m
                   else ack_loop q st (ack + 1) (insert req seen) (dealloc req (ucast (vd_len d), 1) m))"
  by pat_completeness auto
termination
  by (relation "measure (\<lambda>(q, st, ack, seen, m). unat (us_idx (vq_used q) - ack))") (simp_all add: ack_distance)

declare ack_loop.simps [simp del]

definition blk_pending :: "unit bop" where
  "blk_pending =
     seq (upd_drv (\<lambda>b. case read_reg32 (b_base b) (reg_val InterruptStatus) (b_dev b) of (st, d) \<Rightarrow>
            b\<lparr>b_dev := write_reg32 (b_base b) (reg_val InterruptACK) (st AND 3) d\<rparr>))
    (bind (gets k_drv) (\<lambda>b.
     if vq_used_ptr (b_virtqueue b) = 0 then panic ''unwrap on None''
     else
       bind (on_heap (\<lambda>m. case ack_loop (b_virtqueue b) (b_status b) (b_ack_used_index b) {} m of
                            (r, ack, m') \<Rightarrow> ((r, ack), m'))) (\<lambda>(r, ack).
       seq (upd_drv (\<lambda>b. b\<lparr>b_ack_used_index := ack\<rparr>))
      (seq (\<lambda>K. Done r K)
      (case b_desc_indexes b of
         None \<Rightarrow> panic ''desc_indexes must be saved''
       | Some is \<Rightarrow>
           seq (on_drv (blk_deallocate_desc is))
          (seq (expect ''process'' (on_pm (io_signal (b_pid b))))
               (expect ''process'' (on_pm (signal_semaphore (b_sid b))))))))))"

end
