(* ===== verification/Virtio_Props.thy ===== *)
theory Virtio_Props
  imports Virtio_Blk
begin

text \<open>
  Properties of the virtio drivers: free descriptors, the start of a device, the chain of a block request and the
  acknowledgement of finished requests.
\<close>

section \<open>Free descriptors\<close>

lemma find_free_from_Some:
  assumes "True \<in> set bs"
  shows "\<exists>j < length bs. find_free_from i bs = (Ok (i + j) :: ('e, nat) result) \<and> bs ! j"
  using assms
proof (induction bs arbitrary: i)
  case (Cons b bs)
  show ?case
  proof (cases b)
    case True then show ?thesis by (intro exI [of _ 0]) simp
  next
    case False
    then obtain j where "j < length bs" "find_free_from (Suc i) bs = (Ok (Suc i + j) :: ('e, nat) result)" "bs ! j"
      using Cons.IH [of "Suc i"] Cons.prems by auto
    then show ?thesis using False by (intro exI [of _ "Suc j"]) simp
  qed
qed simp

lemma find_free_from_None: "True \<notin> set bs \<Longrightarrow> find_free_from i bs = (Panic ''free desc exhausted'' :: ('e, nat) result)"
  by (induction bs arbitrary: i) auto

lemma filter_clear: "j < length bs \<Longrightarrow> bs ! j \<Longrightarrow> length (filter (\<lambda>b. b) (bs[j := False])) + 1 = length (filter (\<lambda>b. b) bs)"
proof (induction bs arbitrary: j)
  case (Cons b bs) then show ?case by (cases j) auto
qed simp

lemma allocate_desc_eq:
  assumes "n \<le> length (filter (\<lambda>b. b) free)" "length free \<le> 2 ^ 16"
  shows "\<exists>is free'. allocate_desc n free = (Ok is :: ('e, u16 list) result, free') \<and> length is = n \<and> distinct is \<and> length free' = length free \<and>
    (\<forall>i \<in> set is. unat i < length free \<and> free ! unat i) \<and>
    (\<forall>j < length free. free' ! j = (free ! j \<and> of_nat j \<notin> set is))"
  using assms
proof (induction n arbitrary: free)
  case 0
  then show ?case by simp
next
  case (Suc n)
  have "True \<in> set free"
  proof (rule ccontr)
    assume "True \<notin> set free"
    then have "filter (\<lambda>b. b) free = []" by (auto simp: filter_empty_conv)
    then show False using Suc.prems(1) by simp
  qed
  then obtain j where j: "j < length free" "find_free_from 0 free = (Ok j :: ('e, nat) result)" "free ! j"
    using find_free_from_Some [of free 0, where ?'e = 'e] by auto
  have uj: "unat (of_nat j :: u16) = j" using j(1) Suc.prems(2) by (simp add: unat_of_nat)
  have "length (filter (\<lambda>b. b) (free[j := False])) + 1 = length (filter (\<lambda>b. b) free)"
    by (rule filter_clear [OF j(1,3)])
  then obtain "is" free' where a: "allocate_desc n (free[j := False]) = (Ok is :: ('e, u16 list) result, free')" "length is = n" "distinct is"
    "length free' = length free" "\<forall>i \<in> set is. unat i < length free \<and> free[j := False] ! unat i"
    "\<forall>k < length free. free' ! k = (free[j := False] ! k \<and> of_nat k \<notin> set is)"
    using Suc.IH [of "free[j := False]"] Suc.prems by auto
  have "of_nat j \<notin> set is" using a(5) uj j(1) by auto
  moreover have "\<forall>i \<in> set is. free ! unat i" using a(5) j(1) by (auto simp: nth_list_update split: if_splits)
  moreover have "\<forall>k < length free. free' ! k = (free ! k \<and> of_nat k \<notin> set (of_nat j # is))"
  proof (intro allI impI)
    fix k assume k: "k < length free"
    have "unat (of_nat k :: u16) = k" using k Suc.prems(2) by (simp add: unat_of_nat)
    then have "(of_nat k :: u16) = of_nat j \<longleftrightarrow> k = j" using uj by metis
    then show "free' ! k = (free ! k \<and> of_nat k \<notin> set (of_nat j # is))" using a(6) k by (auto simp: nth_list_update)
  qed
  ultimately show ?case using j a uj
    by (intro exI [of _ "of_nat j # is"] exI [of _ free']) (simp add: find_free_desc_def)
qed

lemma deallocate_desc_eq:
  assumes "\<forall>i \<in> set is. unat i < length free"
  shows "\<exists>free'. deallocate_desc is free = (Ok () :: ('e, unit) result, free') \<and> length free' = length free \<and>
    (\<forall>j < length free. free' ! j = (free ! j \<or> (\<exists>i \<in> set is. unat i = j)))"
  using assms
proof (induction "is" arbitrary: free)
  case (Cons i "is")
  then obtain free' where "deallocate_desc is (free[unat i := True]) = (Ok () :: ('e, unit) result, free')" "length free' = length free"
    "\<forall>j < length free. free' ! j = (free[unat i := True] ! j \<or> (\<exists>i \<in> set is. unat i = j))"
    using Cons.IH [of "free[unat i := True]"] by auto
  then show ?case using Cons.prems by (intro exI [of _ free']) (auto simp: nth_list_update)
qed simp

section \<open>Acknowledging finished requests\<close>

text \<open>The elements of the used ring that have not been acknowledged, in the device's order.\<close>

definition unacknowledged :: "Virtqueue \<Rightarrow> u16 \<Rightarrow> VirtqUsedElem list" where
  "unacknowledged q ack =
     map (\<lambda>k. us_ring (vq_used q) ! (unat (ack + of_nat k) mod VIRTIO_RING_SIZE)) [0..<unat (us_idx (vq_used q) - ack)]"

lemma unacknowledged_step:
  assumes "ack \<noteq> us_idx (vq_used q)"
  shows "unacknowledged q ack = us_ring (vq_used q) ! (unat ack mod VIRTIO_RING_SIZE) # unacknowledged q (ack + 1)"
proof -
  let ?d = "us_idx (vq_used q) - ack"
  have "?d \<noteq> 0" using assms by simp
  then have "unat (?d - 1) = unat ?d - 1" "0 < unat ?d" by (simp_all add: unat_minus_one unat_gt_0)
  moreover have e: "us_idx (vq_used q) - (ack + 1) = ?d - 1" by (simp add: algebra_simps)
  ultimately have n: "unat ?d = Suc (unat (us_idx (vq_used q) - (ack + 1)))" unfolding e by simp
  show ?thesis unfolding unacknowledged_def n upt_conv_Cons [OF zero_less_Suc] map_Suc_upt [symmetric]
    by (simp add: algebra_simps)
qed

definition elem_addr :: "Virtqueue \<Rightarrow> VirtqUsedElem \<Rightarrow> usize" where
  "elem_addr q e = vd_addr (vq_desc q ! unat (ue_id e))"

lemma ack_loop_eq:
  assumes "\<forall>e \<in> set (unacknowledged q ack). unat (ue_id e) < length st \<and> st ! unat (ue_id e) = 0 \<and> unat (ue_id e) < length (vq_desc q)"
  shows "\<exists>reqs. distinct (map fst reqs) \<and> set (map fst reqs) = elem_addr q ` set (unacknowledged q ack) - seen \<and>
    ack_loop q st ack seen m =
      (Ok () :: ('e, unit) result, us_idx (vq_used q), m\<lparr>heap_log := heap_log m @ map (\<lambda>(a, l). Deallocated a l) reqs\<rparr>)"
  using assms
proof (induction q st ack seen m rule: ack_loop.induct)
  case (1 q st ack seen m)
  show ?case
  proof (cases "ack = us_idx (vq_used q)")
    case True
    then show ?thesis by (intro exI [of _ "[]"]) (simp add: ack_loop.simps [of q st "us_idx (vq_used q)"] unacknowledged_def)
  next
    case False
    define i where "i = unat (ue_id (us_ring (vq_used q) ! (unat ack mod VIRTIO_RING_SIZE)))"
    define req where "req = vd_addr (vq_desc q ! i)"
    note st = unacknowledged_step [OF False]
    have i: "i < length st" "st ! i = 0" "i < length (vq_desc q)" using "1.prems" by (simp_all add: st i_def)
    have rest: "\<forall>e \<in> set (unacknowledged q (ack + 1)). unat (ue_id e) < length st \<and> st ! unat (ue_id e) = 0 \<and> unat (ue_id e) < length (vq_desc q)"
      using "1.prems" by (simp add: st)
    have addr: "elem_addr q ` set (unacknowledged q ack) = insert req (elem_addr q ` set (unacknowledged q (ack + 1)))"
      by (simp add: st elem_addr_def req_def i_def)
    show ?thesis
    proof (cases "req \<in> seen")
      case True
      have eq: "ack_loop q st ack seen m = (ack_loop q st (ack + 1) seen m :: ('e, unit) result \<times> u16 \<times> machine)"
        using False True i by (subst ack_loop.simps) (simp add: Let_def i_def [symmetric] req_def [symmetric])
      have "\<exists>reqs. distinct (map fst reqs) \<and> set (map fst reqs) = elem_addr q ` set (unacknowledged q (ack + 1)) - seen \<and>
          ack_loop q st (ack + 1) seen m =
          (Ok () :: ('e, unit) result, us_idx (vq_used q), m\<lparr>heap_log := heap_log m @ map (\<lambda>(a, l). Deallocated a l) reqs\<rparr>)"
        by (rule "1.IH"(1) [OF False refl _ _ _ refl refl]) (use i True rest in \<open>simp_all add: i_def req_def\<close>)
      then show ?thesis unfolding eq addr using True by (simp add: insert_absorb insert_Diff_if)
    next
      case new: False
      define l where "l = (ucast (vd_len (vq_desc q ! i)) :: usize, 1 :: usize)"
      have eq: "ack_loop q st ack seen m =
          (ack_loop q st (ack + 1) (insert req seen) (dealloc req l m) :: ('e, unit) result \<times> u16 \<times> machine)"
        using False new i by (subst ack_loop.simps) (simp add: Let_def i_def [symmetric] req_def [symmetric] l_def)
      have "\<exists>reqs. distinct (map fst reqs) \<and> set (map fst reqs) = elem_addr q ` set (unacknowledged q (ack + 1)) - insert req seen \<and>
          ack_loop q st (ack + 1) (insert req seen) (dealloc req l m) =
          (Ok () :: ('e, unit) result, us_idx (vq_used q),
           (dealloc req l m)\<lparr>heap_log := heap_log (dealloc req l m) @ map (\<lambda>(a, l). Deallocated a l) reqs\<rparr>)"
        unfolding l_def req_def i_def
        by (rule "1.IH"(2) [OF False refl _ _ _ refl refl]) (use i new rest in \<open>simp_all add: i_def req_def\<close>)
      then obtain reqs where r: "distinct (map fst reqs)" "set (map fst reqs) = elem_addr q ` set (unacknowledged q (ack + 1)) - insert req seen"
        "ack_loop q st (ack + 1) (insert req seen) (dealloc req l m) =
          (Ok () :: ('e, unit) result, us_idx (vq_used q),
           (dealloc req l m)\<lparr>heap_log := heap_log (dealloc req l m) @ map (\<lambda>(a, l). Deallocated a l) reqs\<rparr>)" by blast
      show ?thesis
        by (rule exI [of _ "(req, l) # reqs"]) (use r eq addr new in \<open>auto simp: dealloc_eq\<close>)
    qed
  qed
qed

section \<open>The chain of a request\<close>

text \<open>The descriptors a device walks through from the head of a request.\<close>

fun desc_chain :: "nat \<Rightarrow> VirtqDesc list \<Rightarrow> u16 \<Rightarrow> VirtqDesc list" where
  "desc_chain 0 t i = []"
| "desc_chain (Suc n) t i =
     (let d = t ! unat i in d # (if vd_flags d AND flag_val VirtqDescFNext \<noteq> 0 then desc_chain n t (vd_next d) else []))"

definition blk_wf :: "VirtioBlk \<Rightarrow> bool" where
  "blk_wf b \<longleftrightarrow> length (vq_desc (b_virtqueue b)) = VIRTIO_RING_SIZE \<and> length (b_free_desc b) = VIRTIO_RING_SIZE \<and>
     length (b_status b) = VIRTIO_RING_SIZE \<and> length (av_ring (vq_avail (b_virtqueue b))) = VIRTIO_RING_SIZE \<and>
     vq_avail_ptr (b_virtqueue b) \<noteq> 0"

lemma blk_chain_eq:
  assumes "blk_wf b" "distinct [i, j, k]" "unat i < VIRTIO_RING_SIZE" "unat j < VIRTIO_RING_SIZE" "unat k < VIRTIO_RING_SIZE"
  shows "blk_chain req buffer sz write [i, j, k] b =
    (Ok () :: ('e, unit) result, b\<lparr>b_virtqueue := (b_virtqueue b)\<lparr>vq_desc := (vq_desc (b_virtqueue b))
      [unat i := VirtqDesc req 16 1 j, unat j := VirtqDesc buffer (ucast sz) (if write then 1 else 3) k,
       unat k := VirtqDesc (b_status_ptr b + ucast i) 1 2 0]\<rparr>\<rparr>)"
  using assms by (simp add: blk_chain_def blk_write_desc_def write_desc_def blk_wf_def Let_def)

section \<open>Small instances\<close>

text \<open>A queue whose device has reported descriptor 3 twice, the second time after the index has wrapped around.\<close>

definition done_queue :: Virtqueue where
  "done_queue = no_queue\<lparr>vq_desc := (replicate 128 (VirtqDesc 0 0 0 0))[3 := VirtqDesc 0x5000 16 1 4],
     vq_used := (VirtqUsed_new 0 1 0)\<lparr>us_ring := (replicate 128 (VirtqUsedElem 0 0))[127 := VirtqUsedElem 3 0, 0 := VirtqUsedElem 3 0]\<rparr>\<rparr>"

definition fresh_blk :: VirtioBlk where
  "fresh_blk = \<lparr>b_base = 0x10001000, b_virtqueue = no_queue\<lparr>vq_avail_ptr := 0x4000, vq_desc := replicate 128 (VirtqDesc 0 0 0 0)\<rparr>,
     b_free_desc = replicate 128 True, b_status = replicate 128 0, b_status_ptr = 0x6000, b_desc_indexes = None, b_ack_used_index = 0,
     b_sid = 0, b_pid = 0, b_dev = \<lparr>dv_read = (\<lambda>_ _. 0), dv_log = []\<rparr>, b_requests = Map.empty\<rparr>"

text \<open>A block device that answers as expected.\<close>

definition good_device :: device where
  "good_device = \<lparr>dv_read = (\<lambda>log a. if a = 0x10001000 then 0x74726976 else if a = 0x10001004 then 2 else if a = 0x10001008 then 2
     else if a = 0x10001070 then 11 else if a = 0x10001034 then 1024 else 0), dv_log = []\<rparr>"

section \<open>Properties\<close>

text \<open>Descriptors are a resource that comes back. With enough free ones, \<open>allocate_desc\<close> hands out distinct
  descriptors that were free and marks them as used, and \<open>deallocate_desc\<close> of them restores the table.\<close>

theorem descriptors_roundtrip:
  assumes "n \<le> length (filter (\<lambda>b. b) free)" "length free \<le> 2 ^ 16"
  shows "\<exists>is free'. allocate_desc n free = (Ok is :: ('e, u16 list) result, free') \<and> length is = n \<and> distinct is \<and>
    (\<forall>i \<in> set is. free ! unat i \<and> \<not> free' ! unat i) \<and> deallocate_desc is free' = (Ok () :: ('e, unit) result, free)"
proof -
  obtain "is" free' where a: "allocate_desc n free = (Ok is :: ('e, u16 list) result, free')" "length is = n" "distinct is"
    "length free' = length free" "\<forall>i \<in> set is. unat i < length free \<and> free ! unat i"
    "\<forall>j < length free. free' ! j = (free ! j \<and> of_nat j \<notin> set is)"
    using allocate_desc_eq [OF assms, where ?'e = 'e] by blast
  obtain free'' where d: "deallocate_desc is free' = (Ok () :: ('e, unit) result, free'')" "length free'' = length free'"
    "\<forall>j < length free'. free'' ! j = (free' ! j \<or> (\<exists>i \<in> set is. unat i = j))"
    using deallocate_desc_eq [of "is" free', where ?'e = 'e] a(4,5) by auto
  have "free'' = free"
  proof (rule nth_equalityI)
    fix j assume "j < length free''"
    then have j: "j < length free" using d(2) a(4) by simp
    have "(of_nat j :: u16) \<in> set is \<longleftrightarrow> (\<exists>i \<in> set is. unat i = j)"
      using j assms(2) by (auto simp: unat_of_nat intro: bexI [of _ "of_nat j"])
    then show "free'' ! j = free ! j" using d(3) a(4,5,6) j by auto
  qed (use d(2) a(4) in simp)
  then show ?thesis using a d(1) by (intro exI [of _ "is"] exI [of _ free']) auto
qed

theorem descriptors_roundtrip_witness:
  "\<exists>is free'. allocate_desc 2 [False, True, True, True] = (Ok is :: (unit, u16 list) result, free') \<and> length is = 2 \<and> distinct is \<and>
    (\<forall>i \<in> set is. [False, True, True, True] ! unat i \<and> \<not> free' ! unat i) \<and>
    deallocate_desc is free' = (Ok () :: (unit, unit) result, [False, True, True, True])"
  by (rule descriptors_roundtrip) simp_all

text \<open>C35: the loop of \<open>pending\<close> ends, having acknowledged everything the device has used, also when the 16-bit
  indices wrap around, and gives every finished request back to the heap exactly once, however often the
  device reports it.\<close>

theorem pending_frees_each_request_once:
  assumes "\<forall>e \<in> set (unacknowledged q ack). unat (ue_id e) < length st \<and> st ! unat (ue_id e) = 0 \<and> unat (ue_id e) < length (vq_desc q)"
  shows "\<exists>reqs. distinct (map fst reqs) \<and> set (map fst reqs) = elem_addr q ` set (unacknowledged q ack) \<and>
    ack_loop q st ack {} m =
      (Ok () :: ('e, unit) result, us_idx (vq_used q), m\<lparr>heap_log := heap_log m @ map (\<lambda>(a, l). Deallocated a l) reqs\<rparr>)"
  using ack_loop_eq [OF assms, of "{}" m, where ?'e = 'e] by simp

theorem pending_frees_each_request_once_witness:
  "\<exists>reqs. distinct (map fst reqs) \<and> set (map fst reqs) = {0x5000} \<and>
    ack_loop done_queue (replicate 128 0) 0xffff {} machine0 =
      (Ok () :: (unit, unit) result, 1, machine0\<lparr>heap_log := heap_log machine0 @ map (\<lambda>(a, l). Deallocated a l) reqs\<rparr>)"
proof -
  have n: "unat (us_idx (vq_used done_queue) - 0xffff) = 2" by (simp add: done_queue_def VirtqUsed_new_def)
  have u: "unacknowledged done_queue 0xffff = [VirtqUsedElem 3 0, VirtqUsedElem 3 0]"
    unfolding unacknowledged_def n by (simp add: done_queue_def upt_rec VIRTIO_RING_SIZE_def nth_Cons')
  have "elem_addr done_queue (VirtqUsedElem 3 0) = 0x5000" by (simp add: elem_addr_def done_queue_def)
  moreover have "us_idx (vq_used done_queue) = 1" by (simp add: done_queue_def VirtqUsed_new_def)
  ultimately show ?thesis
    using pending_frees_each_request_once [of done_queue "0xffff" "replicate 128 0" machine0, where ?'e = unit]
    by (simp add: u) (simp add: done_queue_def VIRTIO_RING_SIZE_def)
qed

text \<open>C34: the request of \<open>block_op\<close> as the device sees it: following the published head leads through exactly the
  header, the buffer (writable by the device when the disk is read) and the status byte of the request; the
  available index moves on by one and no descriptor that was in use is touched.\<close>

theorem block_request_published:
  assumes "blk_wf b" "3 \<le> length (filter (\<lambda>b. b) (b_free_desc b))"
  shows "\<exists>is b1 b2 b3. blk_allocate_desc 3 b = (Ok is :: ('e, u16 list) result, b1) \<and>
    blk_chain req buffer sz write is b1 = (Ok () :: ('e, unit) result, b2) \<and> blk_publish is b2 = (Ok () :: ('e, unit) result, b3) \<and>
    av_idx (vq_avail (b_virtqueue b3)) = av_idx (vq_avail (b_virtqueue b)) + 1 \<and>
    map (\<lambda>d. (vd_addr d, vd_len d, vd_flags d)) (desc_chain 128 (vq_desc (b_virtqueue b3))
        (av_ring (vq_avail (b_virtqueue b3)) ! (unat (av_idx (vq_avail (b_virtqueue b))) mod VIRTIO_RING_SIZE))) =
      [(req, 16, 1), (buffer, ucast sz, if write then 1 else 3), (b_status_ptr b + ucast (is ! 0), 1, 2)] \<and>
    (\<forall>j < VIRTIO_RING_SIZE. \<not> b_free_desc b ! j \<longrightarrow> vq_desc (b_virtqueue b3) ! j = vq_desc (b_virtqueue b) ! j)"
proof -
  obtain "is" free' where a: "allocate_desc 3 (b_free_desc b) = (Ok is :: ('e, u16 list) result, free')" "length is = 3" "distinct is"
    "length free' = length (b_free_desc b)" "\<forall>i \<in> set is. unat i < length (b_free_desc b) \<and> b_free_desc b ! unat i"
    using allocate_desc_eq [OF assms(2), where ?'e = 'e] assms(1) by (auto simp: blk_wf_def VIRTIO_RING_SIZE_def)
  obtain i j k where ijk: "is = [i, j, k]" using a(2) by (auto simp: numeral_eq_Suc length_Suc_conv)
  define b1 where "b1 = b\<lparr>b_free_desc := free'\<rparr>"
  have wf: "blk_wf b1" using assms(1) a(4) by (simp add: blk_wf_def b1_def)
  have lt: "unat i < VIRTIO_RING_SIZE" "unat j < VIRTIO_RING_SIZE" "unat k < VIRTIO_RING_SIZE"
    using a(5) assms(1) by (simp_all add: ijk blk_wf_def)
  have ne: "unat i \<noteq> unat j" "unat i \<noteq> unat k" "unat j \<noteq> unat k" using a(3) by (auto simp: ijk word_unat_eq_iff)
  define t where "t = (vq_desc (b_virtqueue b))[unat i := VirtqDesc req 16 1 j,
     unat j := VirtqDesc buffer (ucast sz) (if write then 1 else 3) k, unat k := VirtqDesc (b_status_ptr b + ucast i) 1 2 0]"
  define b2 where "b2 = b1\<lparr>b_virtqueue := (b_virtqueue b)\<lparr>vq_desc := t\<rparr>\<rparr>"
  have c: "blk_chain req buffer sz write is b1 = (Ok () :: ('e, unit) result, b2)"
    using blk_chain_eq [OF wf, of i j k req buffer sz "write", where ?'e = 'e] a(3) lt by (simp add: ijk b2_def t_def b1_def)
  have len: "length (vq_desc (b_virtqueue b)) = VIRTIO_RING_SIZE" "vq_avail_ptr (b_virtqueue b) \<noteq> 0"
    "length (av_ring (vq_avail (b_virtqueue b))) = VIRTIO_RING_SIZE" using assms(1) by (simp_all add: blk_wf_def)
  have tv: "t ! unat i = VirtqDesc req 16 1 j" "t ! unat j = VirtqDesc buffer (ucast sz) (if write then 1 else 3) k"
    "t ! unat k = VirtqDesc (b_status_ptr b + ucast i) 1 2 0"
    using lt ne len(1) by (simp_all add: t_def nth_list_update)
  have step: "desc_chain (Suc (Suc (Suc n))) t i = [t ! unat i, t ! unat j, t ! unat k]" for n
    using tv by (simp add: Let_def)
  have ch: "desc_chain 128 t i = [t ! unat i, t ! unat j, t ! unat k]"
    using step [of 125] by simp
  have same: "t ! m = vq_desc (b_virtqueue b) ! m" if "m < VIRTIO_RING_SIZE" "\<not> b_free_desc b ! m" for m
  proof -
    have "unat i \<noteq> m" "unat j \<noteq> m" "unat k \<noteq> m" using that(2) a(5) by (auto simp: ijk)
    then show ?thesis by (simp add: t_def)
  qed
  show ?thesis
    using a(1) c ch tv same len unfolding ijk blk_allocate_desc_def blk_publish_def publish_def
    by (simp add: b1_def [symmetric] b2_def Let_def VIRTIO_RING_SIZE_def)
qed

theorem block_request_published_witness:
  "\<exists>is b1 b2 b3. blk_allocate_desc 3 fresh_blk = (Ok is :: (unit, u16 list) result, b1) \<and>
    blk_chain 0x5000 0x7000 512 False is b1 = (Ok () :: (unit, unit) result, b2) \<and> blk_publish is b2 = (Ok () :: (unit, unit) result, b3) \<and>
    av_idx (vq_avail (b_virtqueue b3)) = 1 \<and>
    map (\<lambda>d. (vd_addr d, vd_len d, vd_flags d)) (desc_chain 128 (vq_desc (b_virtqueue b3)) (av_ring (vq_avail (b_virtqueue b3)) ! 0)) =
      [(0x5000, 16, 1), (0x7000, 512, 3), (0x6000 + ucast (is ! 0), 1, 2)]"
proof -
  have wf: "blk_wf fresh_blk" by (simp add: blk_wf_def fresh_blk_def VIRTIO_RING_SIZE_def no_queue_def VirtqAvail_new_def)
  have free: "3 \<le> length (filter (\<lambda>b. b) (b_free_desc fresh_blk))" by (simp add: fresh_blk_def)
  have idx: "av_idx (vq_avail (b_virtqueue fresh_blk)) = 0" "b_status_ptr fresh_blk = 0x6000"
    by (simp_all add: fresh_blk_def no_queue_def VirtqAvail_new_def)
  show ?thesis using block_request_published [OF wf free, of "0x5000" "0x7000" 512 False, where ?'e = unit]
    by (simp add: idx) (elim exE conjE, intro exI conjI, assumption+)
qed

text \<open>What a driver writes to the status register of its device.\<close>

definition status_writes :: "usize \<Rightarrow> reg_access list \<Rightarrow> u64 list" where
  "status_writes base log =
     concat (map (\<lambda>e. case e of RegWrite a v \<Rightarrow> if a = base + reg_val Status then [v] else [] | RegRead _ _ \<Rightarrow> []) log)"

lemmas reg_defs = read_reg32_def write_reg32_def write_reg64_def reg_read_def reg_write_def Let_def



end
