(* ===== verification/Virtio_Input.thy ===== *)
theory Virtio_Input
  imports Virtio_Blk
begin

text \<open>
  Mouse and keyboard (\<open>src/src/arch/riscv64/virtio/virtio_input.rs\<close>). The driver keeps 64 buffers with the device; the
  interrupt takes the events out of the used ones, in order, and gives the device a buffer for each. What the
  device has written to a buffer is part of the state (\<open>i_memory\<close>).
\<close>

section \<open>Data\<close>

datatype DeviceType = MouseDevice | KeyboardDevice

definition EVENT_BUFFER_SIZE :: nat where
  "EVENT_BUFFER_SIZE = VIRTIO_RING_SIZE"

datatype VirtioInputConfigSelect =
  InputCfgUnset | InputCfgIdName | InputCfgIdSerial | InputCfgIdDevids | InputCfgPropBits | InputCfgEvBits | InputCfgAbsInfo

fun cfg_val :: "VirtioInputConfigSelect \<Rightarrow> u8" where
  "cfg_val InputCfgUnset = 0x00"
| "cfg_val InputCfgIdName = 0x01"
| "cfg_val InputCfgIdSerial = 0x02"
| "cfg_val InputCfgIdDevids = 0x03"
| "cfg_val InputCfgPropBits = 0x10"
| "cfg_val InputCfgEvBits = 0x11"
| "cfg_val InputCfgAbsInfo = 0x12"

datatype EventType =
    EV_SYN | EV_KEY | EV_REL | EV_ABS | EV_MSC | EV_SW | EV_LED | EV_SND | EV_REP | EV_FF | EV_PWR | EV_FF_STATUS | EV_UNK | EV_MAX

fun event_val :: "EventType \<Rightarrow> u16" where
  "event_val EV_SYN = 0"
| "event_val EV_KEY = 1"
| "event_val EV_REL = 2"
| "event_val EV_ABS = 3"
| "event_val EV_MSC = 4"
| "event_val EV_SW = 5"
| "event_val EV_LED = 17"
| "event_val EV_SND = 18"
| "event_val EV_REP = 20"
| "event_val EV_FF = 21"
| "event_val EV_PWR = 22"
| "event_val EV_FF_STATUS = 23"
| "event_val EV_UNK = 24"
| "event_val EV_MAX = 31"

definition EventType_from :: "u16 \<Rightarrow> ('e, EventType) result" where
  "EventType_from t =
     (if t = 0 then Ok EV_SYN else if t = 1 then Ok EV_KEY else if t = 2 then Ok EV_REL else if t = 3 then Ok EV_ABS
      else if t = 4 then Ok EV_MSC else if t = 5 then Ok EV_SW else if t = 17 then Ok EV_LED else if t = 18 then Ok EV_SND
      else if t = 20 then Ok EV_REP else if t = 21 then Ok EV_FF else if t = 22 then Ok EV_PWR
      else if t = 23 then Ok EV_FF_STATUS else if t = 31 then Ok EV_MAX else Panic ''unknown event type'')"

datatype EV_REL_CODE =
    REL_X | REL_Y | REL_Z | REL_RX | REL_RY | REL_RZ | REL_HWHEEL | REL_DIAL | REL_WHEEL | REL_MISC | REL_RESERVED
  | REL_WHEEL_HI_RES | REL_HWHEEL_HI_RES | REL_MAX

fun rel_val :: "EV_REL_CODE \<Rightarrow> u16" where
  "rel_val REL_X = 0"
| "rel_val REL_Y = 1"
| "rel_val REL_Z = 2"
| "rel_val REL_RX = 3"
| "rel_val REL_RY = 4"
| "rel_val REL_RZ = 5"
| "rel_val REL_HWHEEL = 6"
| "rel_val REL_DIAL = 7"
| "rel_val REL_WHEEL = 8"
| "rel_val REL_MISC = 9"
| "rel_val REL_RESERVED = 10"
| "rel_val REL_WHEEL_HI_RES = 11"
| "rel_val REL_HWHEEL_HI_RES = 12"
| "rel_val REL_MAX = 15"

record VirtioInputEvent =
  ev_type :: u16
  ev_code :: u16
  ev_value :: u32

definition VirtioInputEvent_default :: VirtioInputEvent where
  "VirtioInputEvent_default = \<lparr>ev_type = 0, ev_code = 0, ev_value = 0\<rparr>"

datatype VirtioInputQueue = Eventq | Statusq

fun input_queue_val :: "VirtioInputQueue \<Rightarrow> nat" where
  "input_queue_val Eventq = 0"
| "input_queue_val Statusq = 1"

record VirtioInput =
  i_base :: usize
  i_device_type :: DeviceType
  i_virtqueue :: "Virtqueue list"
  i_event_buffer :: usize
  i_curr_queue :: VirtioInputQueue
  i_free_desc :: "bool list"
  i_desc_indexes :: "u16 list option"
  i_event_ack_used_index :: u16
  i_event_index :: u16
  i_status_ack_used_index :: u16
  i_event_queue :: "VirtioInputEvent list"
  i_sid :: usize
  i_pid :: usize
  i_dev :: device
  i_memory :: "usize \<Rightarrow> VirtioInputEvent"
  i_config :: "u8 \<times> u8 \<Rightarrow> u8 list"

type_synonym 'a iop = "(VirtioInput kernel, ProcessError, 'a) kop"

definition VirtioInput_new ::
  "usize \<Rightarrow> DeviceType \<Rightarrow> (u8 \<times> u8 \<Rightarrow> u8 list) \<Rightarrow> device \<Rightarrow> (ProcessManager, ProcessError, VirtioInput) kop" where
  "VirtioInput_new base device_type config d =
     bind (on_hw (\<lambda>m. case alloc_zeroed (8 * of_nat EVENT_BUFFER_SIZE, 8) m of (p, m') \<Rightarrow> (Ok p, m'))) (\<lambda>event_buffer.
     bind (create_semaphore 1) (\<lambda>sid.
     ret \<lparr>i_base = base, i_device_type = device_type, i_virtqueue = [no_queue, no_queue], i_event_buffer = event_buffer,
          i_curr_queue = Eventq, i_free_desc = replicate VIRTIO_RING_SIZE True, i_desc_indexes = None,
          i_event_ack_used_index = 0, i_event_index = 0, i_status_ack_used_index = 0, i_event_queue = [], i_sid = sid, i_pid = 0,
          i_dev = d, i_memory = (\<lambda>_. VirtioInputEvent_default), i_config = config\<rparr>))"

section \<open>Start-up\<close>

definition input_dev :: "(usize \<Rightarrow> device \<Rightarrow> ('e, 'a) result \<times> device) \<Rightarrow> VirtioInput \<Rightarrow> ('e, 'a) result \<times> VirtioInput" where
  "input_dev f v = (case f (i_base v) (i_dev v) of (r, d) \<Rightarrow> (r, v\<lparr>i_dev := d\<rparr>))"

definition input_init_virtq :: "VirtioInputQueue \<Rightarrow> unit iop" where
  "input_init_virtq queue =
     bind (on_heap make_virtqueue) (\<lambda>q.
     if vq_ptr q = 0 then panic ''unwrap on None''
     else upd_drv (\<lambda>v. v\<lparr>i_virtqueue := (i_virtqueue v)[input_queue_val queue := q]\<rparr>))"

definition input_init :: "unit iop" where
  "input_init =
     bind (gets (\<lambda>K. i_sid (k_drv K))) (\<lambda>sid.
     seq (expect ''process'' (on_pm (wait_semaphore sid)))
    (seq (on_drv (input_dev (\<lambda>base. handshake base 18 0)))
    (seq (input_init_virtq Eventq)
    (seq (input_init_virtq Statusq)
    (seq (upd_drv (\<lambda>v. v\<lparr>i_dev := queue_addresses (i_base v) (i_virtqueue v ! 0)
            (write_reg32 (i_base v) (reg_val QueueNum) (of_nat VIRTIO_RING_SIZE) (i_dev v))\<rparr>))
    (seq (upd_drv (\<lambda>v. v\<lparr>i_dev := driver_ok (i_base v) (i_dev v)\<rparr>))
         (expect ''process'' (on_pm (signal_semaphore sid)))))))))"

text \<open>\<open>setup_config\<close>: bytes of the configuration space are written through \<open>reg_write\<close>; the data the device then
  shows for a selection is \<open>i_config\<close>. The name it reads is only printed.\<close>

definition setup_config :: "string iop" where
  "setup_config =
     bind (gets k_drv) (\<lambda>v.
     seq (expect ''process'' (on_pm (wait_semaphore (i_sid v))))
    (seq (expect ''process'' (on_pm (io_wait (i_pid v))))
    (seq (upd_drv (\<lambda>v. v\<lparr>i_dev := reg_write (i_base v + reg_val Config) (ucast (cfg_val InputCfgIdName)) (i_dev v)\<rparr>))
    (seq (expect ''process'' (on_pm schedule))
    (bind (gets (\<lambda>K. map (\<lambda>b. char_of (unat b) :: char) (i_config (k_drv K) (cfg_val InputCfgIdName, 0)))) (\<lambda>name.
     let event_type = (case i_device_type v of MouseDevice \<Rightarrow> EV_REL | KeyboardDevice \<Rightarrow> EV_KEY)
     in seq (expect ''process'' (on_pm (io_wait (i_pid v))))
       (seq (upd_drv (\<lambda>v. v\<lparr>i_dev := reg_write (i_base v + reg_val Config + 1) (ucast (event_val event_type)) (i_dev v)\<rparr>))
       (seq (upd_drv (\<lambda>v. v\<lparr>i_dev := reg_write (i_base v + reg_val Config) (ucast (cfg_val InputCfgEvBits)) (i_dev v)\<rparr>))
       (seq (expect ''process'' (on_pm schedule))
       (seq (expect ''process'' (on_pm (signal_semaphore (i_sid v))))
            (ret name)))))))))))"

section \<open>Events\<close>

definition input_allocate_desc :: "nat \<Rightarrow> VirtioInput \<Rightarrow> ('e, u16 list) result \<times> VirtioInput" where
  "input_allocate_desc n v = (case allocate_desc n (i_free_desc v) of (r, free) \<Rightarrow> (r, v\<lparr>i_free_desc := free\<rparr>))"

definition input_deallocate_desc :: "u16 list \<Rightarrow> VirtioInput \<Rightarrow> ('e, unit) result \<times> VirtioInput" where
  "input_deallocate_desc is v = (case deallocate_desc is (i_free_desc v) of (r, free) \<Rightarrow> (r, v\<lparr>i_free_desc := free\<rparr>))"

definition input_write_desc :: "u16 \<Rightarrow> VirtioInputQueue \<Rightarrow> VirtqDesc \<Rightarrow> VirtioInput \<Rightarrow> ('e, unit) result \<times> VirtioInput" where
  "input_write_desc i queue d v =
     (case write_desc i d (i_virtqueue v ! input_queue_val queue) of (r, q) \<Rightarrow>
        (r, v\<lparr>i_virtqueue := (i_virtqueue v)[input_queue_val queue := q]\<rparr>))"

definition input_send_desc :: "VirtioInputQueue \<Rightarrow> u16 list \<Rightarrow> VirtioInput \<Rightarrow> ('e, unit) result \<times> VirtioInput" where
  "input_send_desc queue is v =
     (let v1 = v\<lparr>i_dev := queue_addresses (i_base v) (i_virtqueue v ! input_queue_val queue) (i_dev v), i_curr_queue := queue\<rparr>
      in case publish (is ! 0) (i_virtqueue v1 ! input_queue_val queue) of (r, q) \<Rightarrow>
           (r, v1\<lparr>i_virtqueue := (i_virtqueue v1)[input_queue_val queue := q]\<rparr>))"

definition repopulate_event :: "usize \<Rightarrow> VirtioInput \<Rightarrow> ('e, unit) result \<times> VirtioInput" where
  "repopulate_event i v =
     (let buffer = i_event_buffer v + 8 * i; head = i_event_index v
      in and_then (input_write_desc head Eventq (VirtqDesc buffer 8 (flag_val VirtqDescFWrite) 0) v) (\<lambda>_ v.
           input_send_desc Eventq [head] (v\<lparr>i_event_index := (i_event_index v + 1) mod of_nat VIRTIO_RING_SIZE\<rparr>)))"

fun repopulate_all :: "nat list \<Rightarrow> VirtioInput \<Rightarrow> ('e, unit) result \<times> VirtioInput" where
  "repopulate_all [] v = (Ok (), v)"
| "repopulate_all (i # is) v = and_then (repopulate_event (of_nat i) v) (\<lambda>_. repopulate_all is)"

definition init_input_event :: "unit iop" where
  "init_input_event =
     bind (gets (\<lambda>K. i_sid (k_drv K))) (\<lambda>sid.
     seq (expect ''process'' (on_pm (wait_semaphore sid)))
    (bind (on_pm (gets running)) (\<lambda>pid.
     seq (upd_drv (\<lambda>v. v\<lparr>i_pid := pid\<rparr>))
    (seq (on_drv (repopulate_all [0..<EVENT_BUFFER_SIZE div 2]))
         (expect ''process'' (on_pm (signal_semaphore sid)))))))"

text \<open>The loop of \<open>pending\<close> over the used ring as it is when the interrupt comes. Each iteration acknowledges one
  element, so the distance of the indices is enough fuel.\<close>

fun event_loop :: "nat \<Rightarrow> VirtqUsed \<Rightarrow> nat \<Rightarrow> VirtioInput \<Rightarrow> ('e, unit) result \<times> VirtioInput" where
  "event_loop n used qn v =
     (if i_event_ack_used_index v = us_idx used then (Ok (), v)
      else case n of
        0 \<Rightarrow> (Panic ''out of fuel'', v)
      | Suc n' \<Rightarrow>
          (let i = ue_id (us_ring used ! (unat (i_event_ack_used_index v) mod VIRTIO_RING_SIZE))
           in and_then (repopulate_event (ucast i) v) (\<lambda>_ v.
                let v1 = v\<lparr>i_event_ack_used_index := i_event_ack_used_index v + 1\<rparr>;
                    table = vq_desc (i_virtqueue v1 ! qn)
                in if unat i < length table
                   then event_loop n' used qn (v1\<lparr>i_event_queue := i_event_queue v1 @ [i_memory v1 (vd_addr (table ! unat i))]\<rparr>)
                   else (Panic ''read beyond the descriptor table'', v1))))"

declare event_loop.simps [simp del]

definition input_pending :: "unit iop" where
  "input_pending =
     bind (on_pm irq_disable) (\<lambda>msk.
     seq (upd_drv (\<lambda>v. case read_reg32 (i_base v) (reg_val InterruptStatus) (i_dev v) of (st, d) \<Rightarrow>
            v\<lparr>i_dev := write_reg32 (i_base v) (reg_val InterruptACK) (st AND 3) d\<rparr>))
    (bind (gets k_drv) (\<lambda>v.
     let qn = input_queue_val (i_curr_queue v); used = vq_used (i_virtqueue v ! qn)
     in if vq_used_ptr (i_virtqueue v ! qn) = 0 then panic ''unwrap on None''
        else
          seq (on_drv (event_loop (unat (us_idx used - i_event_ack_used_index v)) used qn))
         (seq (expect ''process'' (on_pm (event_signal (case i_device_type v of
                 MouseDevice \<Rightarrow> MouseEvent | KeyboardDevice \<Rightarrow> KeyboardEvent))))
              (on_pm (irq_restore msk))))))"

end
