(* ===== verification/Input_Ring.thy ===== *)
theory Input_Ring
  imports Virtio_Input
begin

text \<open>
  The event buffers of mouse and keyboard: the driver has 64 of them with the device at any time, no two the same, and
  takes the events out in the order in which the device, which uses buffers in the order it was given them, has
  written them.
\<close>

section \<open>Buffers\<close>

text \<open>The buffer of the \<open>k\<close>-th descriptor that is published: the first 64 in a row, then for every event that is
  taken out the one with the number of its descriptor.\<close>

definition buffer_no :: "nat \<Rightarrow> nat" where
  "buffer_no k = (if k < 64 then k else (k - 64) mod 128)"

definition buffer_of :: "VirtioInput \<Rightarrow> nat \<Rightarrow> usize" where
  "buffer_of v k = i_event_buffer v + 8 * of_nat (buffer_no k)"

lemma buffer_no_less: "buffer_no k < 128"
  by (simp add: buffer_no_def)

lemma mod_window_inj:
  fixes a b t n :: nat
  assumes "a mod n = b mod n" "t \<le> a" "a < t + n" "t \<le> b" "b < t + n"
  shows "a = b"
proof -
  have *: "a = b" if h: "a mod n = b mod n" "t \<le> a" "a < t + n" "t \<le> b" "b < t + n" "b \<le> a" for a b
  proof -
    have "n dvd a - b" using h(1,6) by (simp add: mod_eq_dvd_iff_nat)
    moreover have "a - b < n" using h by simp
    ultimately show ?thesis using h(6) by (auto dest: dvd_imp_le)
  qed
  show ?thesis using *[of a b] *[of b a] assms by (cases "b \<le> a") auto
qed

lemma buffer_no_inj: "inj_on buffer_no {t..<t + 64}"
proof (rule inj_onI)
  fix a b assume ab: "a \<in> {t..<t + 64}" "b \<in> {t..<t + 64}" "buffer_no a = buffer_no b"
  show "a = b"
  proof (cases "a < 64 \<or> b < 64")
    case True
    then have "a - 64 < 128" "b - 64 < 128" using ab by auto
    then have "(a - 64) mod 128 = a - 64" "(b - 64) mod 128 = b - 64" by simp_all
    then show ?thesis using ab True by (auto simp: buffer_no_def split: if_splits)
  next
    case False
    then have m: "(a - 64) mod 128 = (b - 64) mod 128" using ab(3) by (simp add: buffer_no_def)
    have "t - 64 \<le> a - 64" "a - 64 < t - 64 + 128" "t - 64 \<le> b - 64" "b - 64 < t - 64 + 128" using ab(1,2) by auto
    then have "a - 64 = b - 64" by (rule mod_window_inj [OF m])
    then show ?thesis using False by linarith
  qed
qed

lemma buffers_distinct: "distinct (map (buffer_of v) [t..<t + 64])"
proof -
  have "inj_on (buffer_of v) {t..<t + 64}"
  proof (rule inj_onI)
    fix a b assume ab: "a \<in> {t..<t + 64}" "b \<in> {t..<t + 64}" "buffer_of v a = buffer_of v b"
    have u: "unat (8 * of_nat (buffer_no k) :: usize) = 8 * buffer_no k" for k
      using buffer_no_less [of k] by (simp add: unat_word_ariths unat_of_nat)
    have "8 * of_nat (buffer_no a) = (8 * of_nat (buffer_no b) :: usize)" using ab(3) by (simp add: buffer_of_def)
    then have "unat (8 * of_nat (buffer_no a) :: usize) = unat (8 * of_nat (buffer_no b) :: usize)" by (simp only:)
    then have "buffer_no a = buffer_no b" unfolding u by simp
    then show "a = b" using buffer_no_inj [of t] ab(1,2) by (auto dest: inj_onD)
  qed
  then show ?thesis by (simp add: distinct_map)
qed

section \<open>The ring\<close>

text \<open>The descriptors from \<open>lo\<close> up to \<open>hi\<close> are with the device.\<close>

definition ring_ok :: "nat \<Rightarrow> nat \<Rightarrow> VirtioInput \<Rightarrow> bool" where
  "ring_ok lo hi v \<longleftrightarrow> length (i_virtqueue v) = 2 \<and> i_curr_queue v = Eventq \<and> i_event_index v = of_nat (hi mod 128) \<and>
     i_event_ack_used_index v = of_nat lo \<and>
     (let q = i_virtqueue v ! 0
      in length (vq_desc q) = 128 \<and> length (av_ring (vq_avail q)) = 128 \<and> vq_avail_ptr q \<noteq> 0 \<and>
         av_idx (vq_avail q) = of_nat hi \<and>
         (\<forall>k. lo \<le> k \<longrightarrow> k < hi \<longrightarrow> vq_desc q ! (k mod 128) = VirtqDesc (buffer_of v k) 8 2 0 \<and>
            av_ring (vq_avail q) ! (k mod 128) = of_nat (k mod 128)))"

lemma unat_u16_mod: "unat (of_nat k :: u16) mod 128 = k mod 128"
  unfolding unat_of_nat by (simp add: mod_mod_cancel)

lemma unat_u16_ring: "unat (of_nat (k mod 128) :: u16) = k mod 128"
proof -
  have "k mod 128 < 128" by simp
  then show ?thesis by (simp add: unat_of_nat)
qed

lemma event_index_step: "(of_nat (k mod 128) + 1) mod 128 = (of_nat (Suc k mod 128) :: u16)"
proof (rule word_unat_eq_iff [THEN iffD2])
  have "k mod 128 < 128" by simp
  then have "unat (of_nat (k mod 128) + 1 :: u16) = k mod 128 + 1" by (simp add: unat_word_ariths unat_of_nat)
  then have "unat ((of_nat (k mod 128) + 1) mod 128 :: u16) = (k mod 128 + 1) mod 128" by (simp add: unat_mod)
  also have "\<dots> = Suc k mod 128" by (simp add: mod_Suc_eq)
  finally show "unat ((of_nat (k mod 128) + 1) mod 128 :: u16) = unat (of_nat (Suc k mod 128) :: u16)"
    unfolding unat_u16_ring .
qed

lemma repopulate_extends:
  assumes "ring_ok lo hi v" "lo \<le> hi" "hi < lo + 128" "i = buffer_no hi"
  shows "\<exists>q d. repopulate_event (of_nat i) v =
      (Ok () :: ('e, unit) result, v\<lparr>i_virtqueue := (i_virtqueue v)[0 := q], i_event_index := of_nat (Suc hi mod 128), i_dev := d, i_curr_queue := Eventq\<rparr>) \<and>
    vq_desc q = (vq_desc (i_virtqueue v ! 0))[hi mod 128 := VirtqDesc (buffer_of v hi) 8 2 0] \<and>
    ring_ok lo (Suc hi) (v\<lparr>i_virtqueue := (i_virtqueue v)[0 := q], i_event_index := of_nat (Suc hi mod 128), i_dev := d, i_curr_queue := Eventq\<rparr>)"
proof -
  let ?q = "i_virtqueue v ! 0"
  have r: "length (i_virtqueue v) = 2" "i_curr_queue v = Eventq" "i_event_index v = of_nat (hi mod 128)"
    "i_event_ack_used_index v = of_nat lo" "length (vq_desc ?q) = 128" "length (av_ring (vq_avail ?q)) = 128"
    "vq_avail_ptr ?q \<noteq> 0" "av_idx (vq_avail ?q) = of_nat hi"
    "\<And>k. lo \<le> k \<Longrightarrow> k < hi \<Longrightarrow> vq_desc ?q ! (k mod 128) = VirtqDesc (buffer_of v k) 8 2 0 \<and> av_ring (vq_avail ?q) ! (k mod 128) = of_nat (k mod 128)"
    using assms(1) by (auto simp: ring_ok_def Let_def)
  define q where "q = ?q\<lparr>vq_desc := (vq_desc ?q)[hi mod 128 := VirtqDesc (buffer_of v hi) 8 2 0],
      vq_avail := (vq_avail ?q)\<lparr>av_ring := (av_ring (vq_avail ?q))[hi mod 128 := of_nat (hi mod 128)], av_idx := of_nat (Suc hi)\<rparr>\<rparr>"
  define d where "d = queue_addresses (i_base v) (?q\<lparr>vq_desc := (vq_desc ?q)[hi mod 128 := VirtqDesc (buffer_of v hi) 8 2 0]\<rparr>) (i_dev v)"
  have rep: "repopulate_event (of_nat i) v =
      (Ok () :: ('e, unit) result, v\<lparr>i_virtqueue := (i_virtqueue v)[0 := q], i_event_index := of_nat (Suc hi mod 128), i_dev := d, i_curr_queue := Eventq\<rparr>)"
    using r(1-8) event_index_step [of hi] unat_u16_mod [of hi] unat_u16_ring [of hi]
    by (simp add: repopulate_event_def input_write_desc_def write_desc_def input_send_desc_def publish_def Let_def q_def d_def
        assms(4) buffer_of_def VIRTIO_RING_SIZE_def add.commute)
  have new: "vq_desc q ! (k mod 128) = VirtqDesc (buffer_of v k) 8 2 0 \<and> av_ring (vq_avail q) ! (k mod 128) = of_nat (k mod 128)"
    if k: "lo \<le> k" "k < Suc hi" for k
  proof (cases "k = hi")
    case True
    then show ?thesis using r(5,6) by (simp add: q_def)
  next
    case False
    then have lt: "k < hi" using k by simp
    have "hi mod 128 \<noteq> k mod 128" using mod_window_inj [of k 128 hi lo] lt k(1) assms(3) by auto
    then show ?thesis using r(9) [OF k(1) lt] by (simp add: q_def)
  qed
  have "vq_avail_ptr q \<noteq> 0" "length (vq_desc q) = 128" "length (av_ring (vq_avail q)) = 128" "av_idx (vq_avail q) = of_nat (Suc hi)"
    using r(5,6,7) by (simp_all add: q_def)
  then have "ring_ok lo (Suc hi) (v\<lparr>i_virtqueue := (i_virtqueue v)[0 := q], i_event_index := of_nat (Suc hi mod 128), i_dev := d, i_curr_queue := Eventq\<rparr>)"
    using r(1,4) new by (simp add: ring_ok_def Let_def buffer_of_def)
  then show ?thesis using rep by (intro exI [of _ q] exI [of _ d]) (simp add: q_def)
qed

text \<open>One element of the used ring, and all of them.\<close>

lemma ring_ok_shrink: "ring_ok lo hi v \<Longrightarrow> lo < hi \<Longrightarrow> ring_ok (Suc lo) hi (v\<lparr>i_event_ack_used_index := of_nat (Suc lo), i_event_queue := es\<rparr>)"
  by (auto simp: ring_ok_def Let_def buffer_of_def)

lemma event_loop_eq:
  assumes "ring_ok t (t + 64) v" "n \<le> 64" "us_idx used = of_nat (t + n)"
    "\<forall>k < n. ue_id (us_ring used ! ((t + k) mod 128)) = of_nat ((t + k) mod 128)"
  shows "\<exists>v'. event_loop n used 0 v = (Ok () :: ('e, unit) result, v') \<and> ring_ok (t + n) (t + n + 64) v' \<and>
    i_event_queue v' = i_event_queue v @ map (\<lambda>k. i_memory v (buffer_of v k)) [t..<t + n]"
  using assms
proof (induction n arbitrary: t v)
  case 0
  then have "i_event_ack_used_index v = us_idx used" by (simp add: ring_ok_def)
  then show ?case using 0 by (simp add: event_loop.simps)
next
  case (Suc n)
  have ack: "i_event_ack_used_index v = of_nat t" using Suc.prems(1) by (simp add: ring_ok_def)
  have "(of_nat (Suc n) :: u16) \<noteq> 0"
  proof
    assume "(of_nat (Suc n) :: u16) = 0"
    then have "unat (of_nat (Suc n) :: u16) = 0" by simp
    moreover have "unat (of_nat (Suc n) :: u16) = Suc n" using Suc.prems(2) by (subst unat_of_nat) simp
    ultimately show False by simp
  qed
  then have ne: "i_event_ack_used_index v \<noteq> us_idx used" using ack Suc.prems(3) by simp
  have id': "ue_id (us_ring used ! (unat (i_event_ack_used_index v) mod VIRTIO_RING_SIZE)) = of_nat (t mod 128)"
    using Suc.prems(4) [rule_format, of 0] ack unat_u16_mod [of t] by (simp add: VIRTIO_RING_SIZE_def)
  have small: "t mod 128 < 128" by simp
  then have u: "unat (of_nat (t mod 128) :: u32) = t mod 128" "ucast (of_nat (t mod 128) :: u32) = (of_nat (t mod 128) :: usize)"
    by (simp_all add: unat_of_nat word_unat_eq_iff unsigned_ucast_eq take_bit_nat_eq_self)
  have b: "t mod 128 = buffer_no (t + 64)" by (simp add: buffer_no_def)
  obtain q d where r: "repopulate_event (of_nat (t mod 128)) v = (Ok () :: ('e, unit) result,
      v\<lparr>i_virtqueue := (i_virtqueue v)[0 := q], i_event_index := of_nat (Suc (t + 64) mod 128), i_dev := d, i_curr_queue := Eventq\<rparr>)"
    "ring_ok t (Suc (t + 64)) (v\<lparr>i_virtqueue := (i_virtqueue v)[0 := q], i_event_index := of_nat (Suc (t + 64) mod 128), i_dev := d, i_curr_queue := Eventq\<rparr>)"
    using repopulate_extends [OF Suc.prems(1) _ _ b, where ?'e = 'e] by auto
  define v1 where "v1 = v\<lparr>i_virtqueue := (i_virtqueue v)[0 := q], i_event_index := of_nat (Suc (t + 64) mod 128), i_dev := d, i_curr_queue := Eventq\<rparr>"
  have same: "buffer_of v1 = buffer_of v" "i_memory v1 = i_memory v" "i_event_queue v1 = i_event_queue v" "i_event_ack_used_index v1 = of_nat t"
    using ack by (auto simp: v1_def buffer_of_def)
  have tab: "t mod 128 < length (vq_desc (i_virtqueue v1 ! 0))" "vd_addr (vq_desc (i_virtqueue v1 ! 0) ! (t mod 128)) = buffer_of v t"
    using r(2) same(1) unfolding v1_def [symmetric] by (auto simp: ring_ok_def Let_def)
  define v2 where "v2 = v1\<lparr>i_event_ack_used_index := of_nat (Suc t), i_event_queue := i_event_queue v @ [i_memory v (buffer_of v t)]\<rparr>"
  have step: "event_loop (Suc n) used 0 v = (event_loop n used 0 v2 :: ('e, unit) result \<times> VirtioInput)"
    using ne id' u r(1) [folded v1_def] tab same
    by (subst event_loop.simps) (simp add: v2_def Let_def add.commute)
  have ok2: "ring_ok (Suc t) (Suc t + 64) v2"
    using ring_ok_shrink [OF r(2) [folded v1_def]] by (simp add: v2_def)
  have "\<exists>v'. event_loop n used 0 v2 = (Ok () :: ('e, unit) result, v') \<and> ring_ok (Suc t + n) (Suc t + n + 64) v' \<and>
      i_event_queue v' = i_event_queue v2 @ map (\<lambda>k. i_memory v2 (buffer_of v2 k)) [Suc t..<Suc t + n]"
  proof (rule Suc.IH [OF ok2])
    show "\<forall>k < n. ue_id (us_ring used ! ((Suc t + k) mod 128)) = of_nat ((Suc t + k) mod 128)"
      using Suc.prems(4) by (metis Suc_less_eq add_Suc_shift)
  qed (use Suc.prems(2,3) in simp_all)
  moreover have "buffer_of v2 = buffer_of v" "i_memory v2 = i_memory v" by (simp_all add: v2_def v1_def buffer_of_def fun_eq_iff)
  moreover have "[t..<t + Suc n] = t # [Suc t..<Suc t + n]" by (simp add: upt_conv_Cons)
  ultimately show ?case unfolding step by (auto simp: v2_def)
qed

text \<open>\<open>init_input_event\<close> gives the device its first 64 buffers.\<close>

lemma repopulate_all_ok:
  assumes "ring_ok 0 h v" "h + n \<le> 64"
  shows "\<exists>v'. repopulate_all [h..<h + n] v = (Ok () :: ('e, unit) result, v') \<and> ring_ok 0 (h + n) v' \<and> i_event_queue v' = i_event_queue v"
  using assms
proof (induction n arbitrary: h v)
  case (Suc n)
  have b: "h = buffer_no h" using Suc.prems(2) by (simp add: buffer_no_def)
  obtain v1 where v1: "repopulate_event (of_nat h) v = (Ok () :: ('e, unit) result, v1)" "ring_ok 0 (Suc h) v1" "i_event_queue v1 = i_event_queue v"
    using repopulate_extends [OF Suc.prems(1) _ _ b, where ?'e = 'e] Suc.prems(2) by auto
  obtain v' where "repopulate_all [Suc h..<Suc h + n] v1 = (Ok () :: ('e, unit) result, v')" "ring_ok 0 (Suc h + n) v'" "i_event_queue v' = i_event_queue v1"
    using Suc.IH [OF v1(2)] Suc.prems(2) by auto
  moreover have "[h..<h + Suc n] = h # [Suc h..<Suc h + n]" by (simp add: upt_conv_Cons)
  ultimately show ?case using v1 by simp
qed simp

section \<open>Properties\<close>

definition demo_input :: VirtioInput where
  "demo_input = \<lparr>i_base = 0x10003000, i_device_type = MouseDevice,
     i_virtqueue = [no_queue\<lparr>vq_avail_ptr := 0x4000, vq_desc := replicate 128 (VirtqDesc 0 0 0 0)\<rparr>, no_queue], i_event_buffer = 0x9000,
     i_curr_queue = Eventq, i_free_desc = replicate 128 True, i_desc_indexes = None, i_event_ack_used_index = 0, i_event_index = 0,
     i_status_ack_used_index = 0, i_event_queue = [], i_sid = 0, i_pid = 0, i_dev = \<lparr>dv_read = (\<lambda>_ _. 0), dv_log = []\<rparr>,
     i_memory = (\<lambda>a. \<lparr>ev_type = 2, ev_code = 0, ev_value = ucast a\<rparr>), i_config = (\<lambda>_. [])\<rparr>"



end
