(* ===== verification/Virtio_Gpu.thy ===== *)
theory Virtio_Gpu
  imports Virtio_Blk
begin

text \<open>
  The display device (\<open>src/src/arch/riscv64/virtio/virtio_gpu.rs\<close>). A command is a message on the heap, followed by
  the room for the response; its descriptors are sent to the control queue and the process waits for the
  interrupt. What the device answers is part of the state (\<open>g_response\<close>).
\<close>

section \<open>Data\<close>

datatype VirtioGpuFeature = VirtioGpuFVirgl | VirtioGpuFEdid

fun gpu_feature_val :: "VirtioGpuFeature \<Rightarrow> u32" where
  "gpu_feature_val VirtioGpuFVirgl = 0"
| "gpu_feature_val VirtioGpuFEdid = 1"

record VirtioGpuCtrlHdr =
  gh_type :: u32
  gh_flags :: u32
  gh_fence_id :: u64
  gh_ctx_id :: u32
  gh_padding :: u32

datatype VirtioGpuCtrlType =
    CmdGetDisplayInfo | CmdResourceCreate2d | CmdResourceUnref | CmdSetScanout | CmdResourceFlush | CmdTransferToHost2d
  | CmdResourceAttachBacking | CmdResourceDetachBacking | CmdGetCapsetInfo | CmdGetCapset | CmdGetEdid
  | CmdUpdateCursor | CmdMoveCursor
  | RespOkNodata | RespOkDisplayInfo | RespOkCapsetInfo | RespOkCapset | RespOkEdid
  | RespErrUnspec | RespErrOutOfMemory | RespErrInvalidScanoutId | RespErrInvalidResourceId | RespErrInvalidContextId
  | RespErrInvalidParameter

fun ctrl_val :: "VirtioGpuCtrlType \<Rightarrow> u32" where
  "ctrl_val CmdGetDisplayInfo = 0x0100"
| "ctrl_val CmdResourceCreate2d = 0x0101"
| "ctrl_val CmdResourceUnref = 0x0102"
| "ctrl_val CmdSetScanout = 0x0103"
| "ctrl_val CmdResourceFlush = 0x0104"
| "ctrl_val CmdTransferToHost2d = 0x0105"
| "ctrl_val CmdResourceAttachBacking = 0x0106"
| "ctrl_val CmdResourceDetachBacking = 0x0107"
| "ctrl_val CmdGetCapsetInfo = 0x0108"
| "ctrl_val CmdGetCapset = 0x0109"
| "ctrl_val CmdGetEdid = 0x010a"
| "ctrl_val CmdUpdateCursor = 0x0300"
| "ctrl_val CmdMoveCursor = 0x0301"
| "ctrl_val RespOkNodata = 0x1100"
| "ctrl_val RespOkDisplayInfo = 0x1101"
| "ctrl_val RespOkCapsetInfo = 0x1102"
| "ctrl_val RespOkCapset = 0x1103"
| "ctrl_val RespOkEdid = 0x1104"
| "ctrl_val RespErrUnspec = 0x1200"
| "ctrl_val RespErrOutOfMemory = 0x1201"
| "ctrl_val RespErrInvalidScanoutId = 0x1202"
| "ctrl_val RespErrInvalidResourceId = 0x1203"
| "ctrl_val RespErrInvalidContextId = 0x1204"
| "ctrl_val RespErrInvalidParameter = 0x1205"

record VirtioGpuRect =
  gr_x :: u32
  gr_y :: u32
  gr_width :: u32
  gr_height :: u32

record VirtioGpuDisplayOne =
  do_r :: VirtioGpuRect
  do_enabled :: u32
  do_flags :: u32

record VirtioGpuRespDisplayInfo =
  rd_hdr :: VirtioGpuCtrlHdr
  rd_pmodes :: "VirtioGpuDisplayOne list"

datatype VirtioGpuFormats =
    B8G8R8A8Unorm | B8G8R8X8Unorm | A8R8G8B8Unorm | X8R8G8B8Unorm | R8G8B8A8Unorm | X8B8G8R8Unorm | A8B8G8R8Unorm
  | R8G8B8X8Unorm

fun format_val :: "VirtioGpuFormats \<Rightarrow> u32" where
  "format_val B8G8R8A8Unorm = 1"
| "format_val B8G8R8X8Unorm = 2"
| "format_val A8R8G8B8Unorm = 3"
| "format_val X8R8G8B8Unorm = 4"
| "format_val R8G8B8A8Unorm = 67"
| "format_val X8B8G8R8Unorm = 68"
| "format_val A8B8G8R8Unorm = 121"
| "format_val R8G8B8X8Unorm = 134"

record VirtioGpuMemEntry =
  me_addr :: u64
  me_length :: u32
  me_padding :: u32

text \<open>The messages, with the fields of their structures after the header.\<close>

datatype GpuMessage =
    CtrlHdr VirtioGpuCtrlHdr
  | ResourceCreate2d VirtioGpuCtrlHdr (rc_resource_id: u32) (rc_format: u32) (rc_width: u32) (rc_height: u32)
  | ResourceAttachBacking VirtioGpuCtrlHdr (ra_resource_id: u32) (ra_nr_entries: u32) (ra_entry: VirtioGpuMemEntry)
  | SetScanout VirtioGpuCtrlHdr VirtioGpuRect (ss_scanout_id: u32) (ss_resource_id: u32)
  | TransferToHost2d VirtioGpuCtrlHdr VirtioGpuRect (tt_offset: u64) (tt_resource_id: u32) (tt_padding: u32)
  | ResourceFlush VirtioGpuCtrlHdr VirtioGpuRect (rf_resource_id: u32) (rf_padding: u32)

definition PIXEL_SIZE :: u32 where
  "PIXEL_SIZE = 4"

datatype VirtioGpuQueue = Controlq | Cursorq

fun gpu_queue_val :: "VirtioGpuQueue \<Rightarrow> nat" where
  "gpu_queue_val Controlq = 0"
| "gpu_queue_val Cursorq = 1"

record VirtioGpu =
  g_base :: usize
  g_framebuffer :: usize
  g_virtqueue :: "Virtqueue list"
  g_curr_queue :: VirtioGpuQueue
  g_free_desc :: "bool list"
  g_desc_indexes :: "u16 list option"
  g_ack_used_index :: u16
  g_resource_id :: u32
  g_width :: u32
  g_height :: u32
  g_sid :: usize
  g_pid :: usize
  g_dev :: device
  g_messages :: "usize \<rightharpoonup> GpuMessage"
  g_response :: "usize \<Rightarrow> VirtioGpuRespDisplayInfo"

type_synonym 'a gop = "(VirtioGpu kernel, ProcessError, 'a) kop"

definition VirtioGpu_new ::
  "usize \<Rightarrow> (usize \<Rightarrow> VirtioGpuRespDisplayInfo) \<Rightarrow> device \<Rightarrow> (ProcessManager, ProcessError, VirtioGpu) kop" where
  "VirtioGpu_new base resp d =
     bind (create_semaphore 1) (\<lambda>sid.
     ret \<lparr>g_base = base, g_framebuffer = 0, g_virtqueue = [no_queue, no_queue], g_curr_queue = Controlq,
          g_free_desc = replicate VIRTIO_RING_SIZE True, g_desc_indexes = None, g_ack_used_index = 0, g_resource_id = 1,
          g_width = 0, g_height = 0, g_sid = sid, g_pid = 0, g_dev = d, g_messages = Map.empty, g_response = resp\<rparr>)"

section \<open>Start-up\<close>

definition gpu_dev :: "(usize \<Rightarrow> device \<Rightarrow> ('e, 'a) result \<times> device) \<Rightarrow> VirtioGpu \<Rightarrow> ('e, 'a) result \<times> VirtioGpu" where
  "gpu_dev f g = (case f (g_base g) (g_dev g) of (r, d) \<Rightarrow> (r, g\<lparr>g_dev := d\<rparr>))"

definition gpu_init_virtq :: "VirtioGpuQueue \<Rightarrow> unit gop" where
  "gpu_init_virtq queue =
     bind (on_heap make_virtqueue) (\<lambda>q.
     if vq_ptr q = 0 then panic ''unwrap on None''
     else upd_drv (\<lambda>g. g\<lparr>g_virtqueue := (g_virtqueue g)[gpu_queue_val queue := q]\<rparr>))"

definition gpu_init :: "unit gop" where
  "gpu_init =
     bind (gets (\<lambda>K. g_sid (k_drv K))) (\<lambda>sid.
     seq (expect ''process'' (on_pm (wait_semaphore sid)))
    (seq (on_drv (gpu_dev (\<lambda>base. handshake base 16 0)))
    (seq (gpu_init_virtq Controlq)
    (seq (gpu_init_virtq Cursorq)
    (seq (upd_drv (\<lambda>g. g\<lparr>g_dev := queue_addresses (g_base g) (g_virtqueue g ! 0)
            (write_reg32 (g_base g) (reg_val QueueNum) (of_nat VIRTIO_RING_SIZE) (g_dev g))\<rparr>))
    (seq (upd_drv (\<lambda>g. g\<lparr>g_dev := driver_ok (g_base g) (g_dev g)\<rparr>))
         (expect ''process'' (on_pm (signal_semaphore sid)))))))))"

definition gpu_init_framebuffer :: "u32 \<Rightarrow> u32 \<Rightarrow> u32 \<Rightarrow> unit gop" where
  "gpu_init_framebuffer width height pixel_size =
     bind (on_heap (alloc_zeroed (ucast (width * pixel_size * height), 0x1000))) (\<lambda>fb.
     upd_drv (\<lambda>g. g\<lparr>g_framebuffer := fb\<rparr>))"

section \<open>Requests\<close>

definition gpu_allocate_desc :: "nat \<Rightarrow> VirtioGpu \<Rightarrow> ('e, u16 list) result \<times> VirtioGpu" where
  "gpu_allocate_desc n g = (case allocate_desc n (g_free_desc g) of (r, free) \<Rightarrow> (r, g\<lparr>g_free_desc := free\<rparr>))"

definition gpu_deallocate_desc :: "u16 list \<Rightarrow> VirtioGpu \<Rightarrow> ('e, unit) result \<times> VirtioGpu" where
  "gpu_deallocate_desc is g = (case deallocate_desc is (g_free_desc g) of (r, free) \<Rightarrow> (r, g\<lparr>g_free_desc := free\<rparr>))"

definition gpu_write_desc :: "u16 \<Rightarrow> VirtioGpuQueue \<Rightarrow> VirtqDesc \<Rightarrow> VirtioGpu \<Rightarrow> ('e, unit) result \<times> VirtioGpu" where
  "gpu_write_desc i queue d g =
     (case write_desc i d (g_virtqueue g ! gpu_queue_val queue) of (r, q) \<Rightarrow>
        (r, g\<lparr>g_virtqueue := (g_virtqueue g)[gpu_queue_val queue := q]\<rparr>))"

definition gpu_send_desc :: "VirtioGpuQueue \<Rightarrow> u16 list \<Rightarrow> unit gop" where
  "gpu_send_desc queue is =
     seq (upd_drv (\<lambda>g. g\<lparr>g_dev := queue_addresses (g_base g) (g_virtqueue g ! gpu_queue_val queue) (g_dev g), g_curr_queue := queue\<rparr>))
    (seq (on_drv (\<lambda>g. case publish (is ! 0) (g_virtqueue g ! gpu_queue_val queue) of (r, q) \<Rightarrow>
                     (r, g\<lparr>g_virtqueue := (g_virtqueue g)[gpu_queue_val queue := q]\<rparr>)))
    (seq (upd_drv (\<lambda>g. g\<lparr>g_desc_indexes := Some is\<rparr>))
    (bind (gets (\<lambda>K. g_pid (k_drv K))) (\<lambda>pid.
     seq (expect ''process'' (on_pm (io_wait pid)))
    (seq (upd_drv (\<lambda>g. g\<lparr>g_dev := write_reg32 (g_base g) (reg_val QueueNotify) (of_nat (gpu_queue_val queue)) (g_dev g)\<rparr>))
         (expect ''process'' (on_pm schedule)))))))"

text \<open>\<open>Request::new\<close>, the two descriptors and \<open>send_desc\<close>, as in every command; the value is the address of the
  response, right after the request.\<close>

definition gpu_request :: "GpuMessage \<Rightarrow> u32 \<Rightarrow> u32 \<Rightarrow> usize gop" where
  "gpu_request msg rq_size rp_size =
     bind (on_heap (alloc (ucast rq_size + ucast rp_size, 8))) (\<lambda>req.
     seq (upd_drv (\<lambda>g. g\<lparr>g_messages := (g_messages g)(req \<mapsto> msg)\<rparr>))
    (bind (on_drv (gpu_allocate_desc 2)) (\<lambda>is.
     seq (on_drv (gpu_write_desc (is ! 0) Controlq (VirtqDesc req rq_size (flag_val VirtqDescFNext) (is ! 1))))
    (seq (on_drv (gpu_write_desc (is ! 1) Controlq (VirtqDesc (req + ucast rq_size) rp_size (flag_val VirtqDescFWrite) 0)))
    (seq (gpu_send_desc Controlq is)
         (ret (req + ucast rq_size)))))))"

definition hdr_of :: "VirtioGpuCtrlType \<Rightarrow> VirtioGpuCtrlHdr" where
  "hdr_of t = \<lparr>gh_type = ctrl_val t, gh_flags = 0, gh_fence_id = 0, gh_ctx_id = 0, gh_padding = 0\<rparr>"

definition response_type :: "usize \<Rightarrow> u32 gop" where
  "response_type resp = gets (\<lambda>K. gh_type (rd_hdr (g_response (k_drv K) resp)))"

definition get_display_info :: "VirtioGpuRespDisplayInfo gop" where
  "get_display_info =
     bind (gpu_request (CtrlHdr (hdr_of CmdGetDisplayInfo)) 24 408) (\<lambda>resp.
     bind (response_type resp) (\<lambda>t.
     if t \<noteq> ctrl_val RespOkDisplayInfo then panic ''virtio_gpu: get_display_info error''
     else gets (\<lambda>K. g_response (k_drv K) resp)))"

definition resource_create_2d :: "u32 \<Rightarrow> u32 \<Rightarrow> VirtioGpuFormats \<Rightarrow> u32 gop" where
  "resource_create_2d width height format =
     bind (gets (\<lambda>K. g_resource_id (k_drv K))) (\<lambda>res.
     bind (gpu_request (ResourceCreate2d (hdr_of CmdResourceCreate2d) res (format_val format) width height) 40 24) (\<lambda>resp.
     bind (response_type resp) (\<lambda>t.
     if t \<noteq> ctrl_val RespOkNodata then panic ''virtio_gpu: resource_create_2d error'' else ret res)))"

text \<open>\<open>Request3\<close>: the memory entry stands between the request and the response, with a descriptor of its own.\<close>

definition resource_attach_backing :: "u32 \<Rightarrow> u32 \<Rightarrow> u32 \<Rightarrow> u32 \<Rightarrow> unit gop" where
  "resource_attach_backing width height pixel_size resource_id =
     bind (gets (\<lambda>K. g_framebuffer (k_drv K))) (\<lambda>fb.
     bind (on_heap (alloc (32 + 16 + 24, 8))) (\<lambda>req.
     seq (upd_drv (\<lambda>g. g\<lparr>g_messages := (g_messages g)(req \<mapsto> ResourceAttachBacking (hdr_of CmdResourceAttachBacking)
            resource_id 1 \<lparr>me_addr = fb, me_length = width * pixel_size * height, me_padding = 0\<rparr>)\<rparr>))
    (bind (on_drv (gpu_allocate_desc 3)) (\<lambda>is.
     seq (on_drv (gpu_write_desc (is ! 0) Controlq (VirtqDesc req 32 (flag_val VirtqDescFNext) (is ! 1))))
    (seq (on_drv (gpu_write_desc (is ! 1) Controlq (VirtqDesc (req + 32) 16 (flag_val VirtqDescFNext) (is ! 2))))
    (seq (on_drv (gpu_write_desc (is ! 2) Controlq (VirtqDesc (req + 48) 24 (flag_val VirtqDescFWrite) 0)))
    (seq (gpu_send_desc Controlq is)
    (bind (response_type (req + 48)) (\<lambda>t.
     if t \<noteq> ctrl_val RespOkNodata then panic ''virtio_gpu: resource_attach_backing error'' else ret ())))))))))"

definition set_scanout :: "u32 \<Rightarrow> u32 \<Rightarrow> u32 \<Rightarrow> unit gop" where
  "set_scanout width height resource_id =
     bind (gpu_request (SetScanout (hdr_of CmdSetScanout)
             \<lparr>gr_x = 0, gr_y = 0, gr_width = width, gr_height = height\<rparr> 0 resource_id) 48 24) (\<lambda>resp.
     bind (response_type resp) (\<lambda>t.
     if t \<noteq> ctrl_val RespOkNodata then panic ''virtio_gpu: set_scanout error'' else ret ()))"

definition transfer_to_host_2d :: "u32 \<Rightarrow> u32 \<Rightarrow> u32 \<Rightarrow> u32 \<Rightarrow> u32 \<Rightarrow> unit gop" where
  "transfer_to_host_2d x y width height resource_id =
     bind (gpu_request (TransferToHost2d (hdr_of CmdTransferToHost2d)
             \<lparr>gr_x = x, gr_y = y, gr_width = width, gr_height = height\<rparr> 0 resource_id 0) 56 24) (\<lambda>resp.
     bind (response_type resp) (\<lambda>t. ret ()))"

definition resource_flush :: "u32 \<Rightarrow> u32 \<Rightarrow> u32 \<Rightarrow> u32 \<Rightarrow> u32 \<Rightarrow> unit gop" where
  "resource_flush x y width height resource_id =
     bind (gpu_request (ResourceFlush (hdr_of CmdResourceFlush)
             \<lparr>gr_x = x, gr_y = y, gr_width = width, gr_height = height\<rparr> resource_id 0) 48 24) (\<lambda>resp.
     bind (response_type resp) (\<lambda>t. ret ()))"

definition update_range :: "u32 \<Rightarrow> u32 \<Rightarrow> u32 \<Rightarrow> u32 \<Rightarrow> unit gop" where
  "update_range x y width height =
     bind (gets (\<lambda>K. g_resource_id (k_drv K))) (\<lambda>rid.
     seq (transfer_to_host_2d x y width height rid)
    (bind (gets (\<lambda>K. g_resource_id (k_drv K))) (\<lambda>rid. resource_flush x y width height rid)))"

definition update_display :: "unit gop" where
  "update_display =
     bind (gets k_drv) (\<lambda>g.
     seq (transfer_to_host_2d 0 0 (g_width g) (g_height g) (g_resource_id g))
    (bind (gets k_drv) (\<lambda>g. resource_flush 0 0 (g_width g) (g_height g) (g_resource_id g))))"

definition init_display :: "unit gop" where
  "init_display =
     bind (gets (\<lambda>K. g_sid (k_drv K))) (\<lambda>sid.
     seq (expect ''process'' (on_pm (wait_semaphore sid)))
    (bind (on_pm (gets running)) (\<lambda>pid.
     seq (upd_drv (\<lambda>g. g\<lparr>g_pid := pid\<rparr>))
    (bind get_display_info (\<lambda>info.
     seq (upd_drv (\<lambda>g. g\<lparr>g_width := gr_width (do_r (rd_pmodes info ! 0))\<rparr>))
    (seq (upd_drv (\<lambda>g. g\<lparr>g_height := gr_height (do_r (rd_pmodes info ! 0))\<rparr>))
    (bind (gets k_drv) (\<lambda>g.
     bind (resource_create_2d (g_width g) (g_height g) R8G8B8A8Unorm) (\<lambda>resource_id.
     bind (gets k_drv) (\<lambda>g.
     seq (gpu_init_framebuffer (g_width g) (g_height g) PIXEL_SIZE)
    (bind (gets k_drv) (\<lambda>g.
     seq (resource_attach_backing (g_width g) (g_height g) PIXEL_SIZE resource_id)
    (bind (gets k_drv) (\<lambda>g.
     seq (set_scanout (g_width g) (g_height g) resource_id)
         (expect ''process'' (on_pm (signal_semaphore sid)))))))))))))))))"

section \<open>The interrupt\<close>

function gpu_ack_loop :: "Virtqueue \<Rightarrow> u16 \<Rightarrow> u32 set \<Rightarrow> machine \<Rightarrow> ('e, unit) result \<times> u16 \<times> machine" where
  "gpu_ack_loop q ack seen m =
     (if ack = us_idx (vq_used q) then (Ok (), ack, m)
      else
        let i = ue_id (us_ring (vq_used q) ! (unat ack mod VIRTIO_RING_SIZE))
        in if i \<in> seen then gpu_ack_loop q (ack + 1) seen m
           else if \<not> unat i < length (vq_desc q) then (Panic ''read beyond the descriptor table'', ack + 1, m)
           else let d = vq_desc q ! unat i
                in gpu_ack_loop q (ack + 1) (insert i seen) (dealloc (vd_addr d) (ucast (vd_len d), 8) m))"
  by pat_completeness auto
termination
  by (relation "measure (\<lambda>(q, ack, seen, m). unat (us_idx (vq_used q) - ack))") (simp_all add: ack_distance)

declare gpu_ack_loop.simps [simp del]

definition gpu_pending :: "unit gop" where
  "gpu_pending =
     bind (on_pm irq_disable) (\<lambda>msk.
     seq (upd_drv (\<lambda>g. case read_reg32 (g_base g) (reg_val InterruptStatus) (g_dev g) of (st, d) \<Rightarrow>
            g\<lparr>g_dev := write_reg32 (g_base g) (reg_val InterruptACK) (st AND 3) d\<rparr>))
    (bind (gets k_drv) (\<lambda>g.
     let q = g_virtqueue g ! gpu_queue_val (g_curr_queue g)
     in if vq_used_ptr q = 0 then panic ''unwrap on None''
        else
          bind (on_heap (\<lambda>m. case gpu_ack_loop q (g_ack_used_index g) {} m of (r, ack, m') \<Rightarrow> ((r, ack), m'))) (\<lambda>(r, ack).
          seq (upd_drv (\<lambda>g. g\<lparr>g_ack_used_index := ack\<rparr>))
         (seq (\<lambda>K. Done r K)
         (seq (case g_desc_indexes g of None \<Rightarrow> ret () | Some is \<Rightarrow> on_drv (gpu_deallocate_desc is))
         (seq (expect ''process'' (on_pm (io_signal (g_pid g))))
         (seq (expect ''process'' (on_pm (signal_semaphore (g_sid g))))
              (on_pm (irq_restore msk))))))))))"

end
