(* ===== verification/Virtio_Bus.thy ===== *)
theory Virtio_Bus
  imports Virtio_Gpu Virtio_Input
begin

text \<open>
  The devices together (\<open>init\<close> and \<open>interrupt\<close> of \<open>src/src/arch/riscv64/virtio.rs\<close>). A driver is made in a local
  variable, where only its own process sees it, and then stored in its static variable.
\<close>

record Devices =
  BLOCK_DEVICE :: "VirtioBlk option"
  GPU_DEVICE :: "VirtioGpu option"
  MOUSE_DEVICE :: "VirtioInput option"
  KEYBOARD_DEVICE :: "VirtioInput option"
  slots :: "nat \<Rightarrow> device"

type_synonym 'a vop = "(Devices kernel, ProcessError, 'a) kop"

text \<open>A call on a part of the devices, which all processes share.\<close>

primrec zoom_prog :: "('y \<Rightarrow> 'x) \<Rightarrow> ('x \<Rightarrow> 'y \<Rightarrow> 'y) \<Rightarrow> 'y \<Rightarrow> ('x kernel, 'e, 'a) prog \<Rightarrow> ('y kernel, 'e, 'a) prog" where
  "zoom_prog get put y (Done r K) = Done r \<lparr>k_pm = k_pm K, k_drv = put (k_drv K) y\<rparr>"
| "zoom_prog get put y (Switch p K k) =
     Switch p \<lparr>k_pm = k_pm K, k_drv = put (k_drv K) y\<rparr>
       (\<lambda>K'. zoom_prog get put (k_drv K') (k \<lparr>k_pm = k_pm K', k_drv = get (k_drv K')\<rparr>))"

definition on_device :: "(Devices \<Rightarrow> 'x option) \<Rightarrow> ('x \<Rightarrow> Devices \<Rightarrow> Devices) \<Rightarrow> ('x kernel, ProcessError, 'a) kop \<Rightarrow> 'a vop" where
  "on_device get put f = (\<lambda>K. case get (k_drv K) of
       None \<Rightarrow> Done (Panic ''uninitialized device'') K
     | Some x \<Rightarrow> zoom_prog (\<lambda>y. case get y of Some x' \<Rightarrow> x' | None \<Rightarrow> x) put (k_drv K) (f \<lparr>k_pm = k_pm K, k_drv = x\<rparr>))"

text \<open>A call on a driver in a local variable; its state comes back with the result.\<close>

primrec local_prog :: "'y \<Rightarrow> ('x kernel, 'e, 'a) prog \<Rightarrow> ('y kernel, 'e, 'x) prog" where
  "local_prog y (Done r K) =
     Done (case r of Ok _ \<Rightarrow> Ok (k_drv K) | Err e \<Rightarrow> Err e | Panic m \<Rightarrow> Panic m) \<lparr>k_pm = k_pm K, k_drv = y\<rparr>"
| "local_prog y (Switch p K k) =
     Switch p \<lparr>k_pm = k_pm K, k_drv = y\<rparr> (\<lambda>K'. local_prog (k_drv K') (k \<lparr>k_pm = k_pm K', k_drv = k_drv K\<rparr>))"

definition locally :: "'x \<Rightarrow> ('x kernel, 'e, 'a) kop \<Rightarrow> ('y kernel, 'e, 'x) kop" where
  "locally x f = (\<lambda>K. local_prog (k_drv K) (f \<lparr>k_pm = k_pm K, k_drv = x\<rparr>))"

definition virtio_blk_init :: "usize \<Rightarrow> usize \<Rightarrow> device \<Rightarrow> (Devices kernel, ProcessError, VirtioBlk) kop" where
  "virtio_blk_init base status_ptr d = bind (on_pm (VirtioBlk_new base status_ptr d)) (\<lambda>blk. locally blk blk_init)"

definition virtio_gpu_init ::
  "usize \<Rightarrow> (usize \<Rightarrow> VirtioGpuRespDisplayInfo) \<Rightarrow> device \<Rightarrow> (Devices kernel, ProcessError, VirtioGpu) kop" where
  "virtio_gpu_init base resp d = bind (on_pm (VirtioGpu_new base resp d)) (\<lambda>gpu. locally gpu gpu_init)"

definition virtio_input_init ::
  "usize \<Rightarrow> DeviceType \<Rightarrow> (u8 \<times> u8 \<Rightarrow> u8 list) \<Rightarrow> device \<Rightarrow> (Devices kernel, ProcessError, VirtioInput) kop" where
  "virtio_input_init base device_type config d =
     bind (on_pm (VirtioInput_new base device_type config d)) (\<lambda>input. locally input input_init)"

text \<open>What the devices show that the model does not compute: the address of the status bytes, the responses of
  the display and the configuration data of the input devices.\<close>

record environment =
  env_status_ptr :: usize
  env_response :: "usize \<Rightarrow> VirtioGpuRespDisplayInfo"
  env_config :: "u8 \<times> u8 \<Rightarrow> u8 list"

definition slot_read32 :: "nat \<Rightarrow> usize \<Rightarrow> usize \<Rightarrow> u32 vop" where
  "slot_read32 i base off = on_drv (\<lambda>y. case read_reg32 base off (slots y i) of (v, d) \<Rightarrow> (Ok v, y\<lparr>slots := (slots y)(i := d)\<rparr>))"

definition init_slot :: "environment \<Rightarrow> usize \<Rightarrow> nat \<Rightarrow> unit vop" where
  "init_slot env virtio_base i =
     (let ptr = virtio_base + of_nat i * 0x1000
      in bind (slot_read32 i ptr (reg_val MagicValue)) (\<lambda>magic.
         if magic \<noteq> 0x74726976 then ret ()
         else
           bind (slot_read32 i ptr (reg_val DeviceId)) (\<lambda>dev_id.
           bind (gets (\<lambda>K. slots (k_drv K) i)) (\<lambda>d.
           if dev_id = 2 then
             bind (virtio_blk_init ptr (env_status_ptr env) d) (\<lambda>blk. upd_drv (\<lambda>y. y\<lparr>BLOCK_DEVICE := Some blk\<rparr>))
           else if dev_id = 16 then
             bind (virtio_gpu_init ptr (env_response env) d) (\<lambda>gpu. upd_drv (\<lambda>y. y\<lparr>GPU_DEVICE := Some gpu\<rparr>))
           else if dev_id = 18 then
             (if i = 2 then
                bind (virtio_input_init ptr MouseDevice (env_config env) d) (\<lambda>input. upd_drv (\<lambda>y. y\<lparr>MOUSE_DEVICE := Some input\<rparr>))
              else if i = 3 then
                bind (virtio_input_init ptr KeyboardDevice (env_config env) d) (\<lambda>input. upd_drv (\<lambda>y. y\<lparr>KEYBOARD_DEVICE := Some input\<rparr>))
              else panic ''not implemented'')
           else seq (slot_read32 i ptr (reg_val DeviceId)) (ret ())))))"

definition virtio_init :: "environment \<Rightarrow> usize \<Rightarrow> unit vop" where
  "virtio_init env virtio_base = for_each (init_slot env virtio_base) [0..<4]"

definition virtio_interrupt :: "u32 \<Rightarrow> unit vop" where
  "virtio_interrupt irq =
     (let index = (ucast irq :: usize) - 1
      in if index = 0 then on_device BLOCK_DEVICE (\<lambda>x y. y\<lparr>BLOCK_DEVICE := Some x\<rparr>) blk_pending
         else if index = 1 then on_device GPU_DEVICE (\<lambda>x y. y\<lparr>GPU_DEVICE := Some x\<rparr>) gpu_pending
         else if index = 2 then on_device MOUSE_DEVICE (\<lambda>x y. y\<lparr>MOUSE_DEVICE := Some x\<rparr>) input_pending
         else if index = 3 then on_device KEYBOARD_DEVICE (\<lambda>x y. y\<lparr>KEYBOARD_DEVICE := Some x\<rparr>) input_pending
         else panic ''unknown virtio device'')"

end
