(* ===== verification/Serial.thy ===== *)
theory Serial
  imports Virtio Fat
begin

text \<open>
  The console: the UART (\<open>src/src/arch/riscv64/uart.rs\<close>), the serial port on top of it (\<open>src/src/arch/serial.rs\<close>,
  \<open>src/src/arch/riscv64/serial.rs\<close>) and the end of an emulation (\<open>src/src/debug.rs\<close>, \<open>src/src/arch/riscv64/debug.rs\<close>). The
  address of the UART is a parameter, and the device a log of the accesses to its registers.
\<close>

section \<open>UART\<close>

definition uart_put :: "usize \<Rightarrow> u8 \<Rightarrow> device \<Rightarrow> device" where
  "uart_put uart0_start c d = reg_write (uart0_start + 0) (ucast c) d"

definition uart_get :: "usize \<Rightarrow> device \<Rightarrow> u8 option \<times> device" where
  "uart_get uart0_start d =
     (case reg_read (uart0_start + 5) d of (lsr, d1) \<Rightarrow>
        if (ucast lsr :: u8) AND 1 = 0 then (None, d1)
        else (case reg_read (uart0_start + 0) d1 of (v, d2) \<Rightarrow> (Some (ucast v), d2)))"

definition uart_init :: "usize \<Rightarrow> device \<Rightarrow> device" where
  "uart_init p d =
     (let divisor = 592 :: u16;
          divisor_least = ucast (divisor AND 0xff) :: u8;
          divisor_most = ucast (drop_bit 8 divisor) :: u8;
          d1 = reg_write (p + 3) (push_bit 0 1 OR push_bit 1 1) d;
          d2 = reg_write (p + 2) (push_bit 0 1) d1;
          d3 = reg_write (p + 1) (push_bit 0 1) d2
      in case reg_read (p + 3) d3 of (v, d4) \<Rightarrow>
           let lcr = ucast v :: u8;
               d5 = reg_write (p + 3) (ucast (lcr OR push_bit 7 1)) d4;
               d6 = reg_write (p + 0) (ucast divisor_least) d5;
               d7 = reg_write (p + 1) (ucast divisor_most) d6
           in reg_write (p + 3) (ucast lcr) d7)"

section \<open>The serial port\<close>

text \<open>\<open>write_str\<close> takes the bytes of a string. A Rust string is encoded in UTF-8; the characters of the model are those
  with numbers below 256.\<close>

definition utf8 :: "char \<Rightarrow> u8 list" where
  "utf8 c = (let n = of_char c :: u8 in if n < 0x80 then [n] else [0xc0 OR drop_bit 6 n, 0x80 OR (n AND 0x3f)])"

primrec put_all :: "usize \<Rightarrow> u8 list \<Rightarrow> device \<Rightarrow> device" where
  "put_all p [] d = d"
| "put_all p (c # cs) d = put_all p cs (uart_put p c d)"

definition write_str :: "usize \<Rightarrow> string \<Rightarrow> device \<Rightarrow> device" where
  "write_str p out d = put_all p (concat (map utf8 out)) d"

section \<open>The end of an emulation\<close>

datatype QemuExitStatus = QemuPass | QemuFail

fun qemu_status :: "QemuExitStatus \<Rightarrow> u32" where
  "qemu_status QemuPass = 0x5555"
| "qemu_status QemuFail = 0x3333"

definition exit_qemu :: "u32 \<Rightarrow> QemuExitStatus \<Rightarrow> device \<Rightarrow> device" where
  "exit_qemu code status d = reg_write QEMU_VIRT_TEST (ucast (qemu_status status OR push_bit 16 code)) d"

section \<open>What the device sees\<close>

lemma put_all_log: "dv_log (put_all p cs d) = dv_log d @ map (\<lambda>c. RegWrite p (ucast c)) cs"
  by (induction cs arbitrary: d) (simp_all add: uart_put_def reg_write_def)

text \<open>A terminal that decodes what it is sent sees the string.\<close>

fun decode :: "u8 list \<Rightarrow> string" where
  "decode [] = []"
| "decode [b] = [as_char b]"
| "decode (b # c # bs) =
     (if bit b 7 then as_char (push_bit 6 (b AND 3) OR (c AND 0x3f)) # decode bs else as_char b # decode (c # bs))"

lemma ascii_bit: "(n :: u8) < 0x80 \<longleftrightarrow> \<not> bit n 7"
proof -
  have "unat n < 256" using unsigned_less [where ?'b = 8 and ?'a = nat, of n] by simp
  then have "unat n < 128 \<and> unat n div 2 ^ 7 = 0 \<or> \<not> unat n < 128 \<and> unat n div 2 ^ 7 = 1" by auto
  then have "unat n < 128 \<longleftrightarrow> \<not> odd (unat n div 2 ^ 7)" by auto
  also have "odd (unat n div 2 ^ 7) \<longleftrightarrow> bit (unat n) 7" by (simp only: bit_iff_odd)
  also have "bit (unat n) 7 \<longleftrightarrow> bit n 7" by (simp add: bit_unsigned_iff)
  finally show ?thesis by (simp add: word_less_nat_alt)
qed

lemma as_char_of_char: "as_char (of_char c) = c"
proof -
  have "unat (of_char c :: u8) = of_char c"
    using nat_of_char_less_256 [of c] by (simp add: unsigned_of_nat take_bit_nat_eq_self flip: of_nat_of_char [where ?'a = u8])
  then show ?thesis by (simp add: as_char_def)
qed

lemma utf8_two:
  fixes n :: u8
  assumes "bit n 7"
  shows "bit (0xc0 OR drop_bit 6 n) 7" "push_bit 6 ((0xc0 OR drop_bit 6 n) AND 3) OR ((0x80 OR (n AND 0x3f)) AND 0x3f) = n"
proof -
  show "bit (0xc0 OR drop_bit 6 n) 7" by (simp add: bit_or_iff)
  show "push_bit 6 ((0xc0 OR drop_bit 6 n) AND 3) OR ((0x80 OR (n AND 0x3f)) AND 0x3f) = n"
  proof (rule bit_word_eqI)
    fix i
    assume "i < LENGTH(8)"
    then consider "i = 0" | "i = 1" | "i = 2" | "i = 3" | "i = 4" | "i = 5" | "i = 6" | "i = 7" by (simp, linarith)
    then show "bit (push_bit 6 ((0xc0 OR drop_bit 6 n) AND 3) OR ((0x80 OR (n AND 0x3f)) AND 0x3f)) i \<longleftrightarrow> bit n i"
      by cases (simp_all add: bit_simps)
  qed
qed

lemma decode_utf8: "decode (utf8 c @ bs) = c # decode bs"
proof (cases "bit (of_char c :: u8) 7")
  case True
  then show ?thesis using as_char_of_char [of c] by (simp add: utf8_def Let_def ascii_bit utf8_two del: push_bit_and push_bit_or)
next
  case False
  then show ?thesis using as_char_of_char [of c] by (cases bs) (simp_all add: utf8_def Let_def ascii_bit)
qed

lemma decode_string: "decode (concat (map utf8 s)) = s"
  by (induction s) (simp_all add: decode_utf8)

end
