(* ===== verification/Kernel_State.thy ===== *)
theory Kernel_State
  imports Virtio_Bus File_System Graphics Serial
begin

text \<open>
  The kernel's global variables in one state: the process manager with the machine, the devices, the file
  system, the graphics, the interrupt controller and the console; and how the components' calls run in it. The file system
  and the graphics use the same heap as everything else: the machine is handed to them and taken back.
\<close>

record System =
  sy_devs :: Devices
  sy_plic :: device
  sy_fs :: "(Fat32 \<times> machine) FileSystem"
  sy_gfx :: "Display Gfx"
  sy_uart :: device

type_synonym 'a sop = "(System kernel, ProcessError, 'a) kop"

definition on_devs :: "'a vop \<Rightarrow> 'a sop" where
  "on_devs f = (\<lambda>K. zoom_prog sy_devs (\<lambda>x y. y\<lparr>sy_devs := x\<rparr>) (k_drv K) (f \<lparr>k_pm = k_pm K, k_drv = sy_devs (k_drv K)\<rparr>))"

definition on_machine :: "(machine \<Rightarrow> 'a \<times> machine) \<Rightarrow> 'a sop" where
  "on_machine f = on_heap f"

definition on_csrs :: "(csr_file \<Rightarrow> csr_file) \<Rightarrow> unit sop" where
  "on_csrs f = on_machine (\<lambda>m. ((), m\<lparr>csrs := f (csrs m)\<rparr>))"

definition read_csr :: "Csr \<Rightarrow> usize sop" where
  "read_csr c = on_machine (\<lambda>m. (csr_read c (csrs m), m))"

definition on_fs ::
  "((Fat32 \<times> machine) FileSystem \<Rightarrow> ('f, 'a) result \<times> (Fat32 \<times> machine) FileSystem) \<Rightarrow> (System kernel, 'e, ('f, 'a) result) kop" where
  "on_fs f = (\<lambda>K.
     let s = sy_fs (k_drv K)
     in case f (s\<lparr>backing := (fst (backing s), hw (k_pm K))\<rparr>) of (r, s') \<Rightarrow>
          Done (case r of Panic m \<Rightarrow> Panic m | _ \<Rightarrow> Ok r)
            \<lparr>k_pm = (k_pm K)\<lparr>hw := snd (backing s')\<rparr>, k_drv = (k_drv K)\<lparr>sy_fs := s'\<rparr>\<rparr>)"

definition on_gfx :: "(Display Gfx \<Rightarrow> 'a gres \<times> Display Gfx) \<Rightarrow> 'a sop" where
  "on_gfx f = (\<lambda>K.
     case f ((sy_gfx (k_drv K))\<lparr>g_mach := hw (k_pm K)\<rparr>) of (r, g) \<Rightarrow>
       Done (case r of Ok a \<Rightarrow> Ok a | Err _ \<Rightarrow> Panic ''graphics'' | Panic m \<Rightarrow> Panic m)
         \<lparr>k_pm = (k_pm K)\<lparr>hw := g_mach g\<rparr>, k_drv = (k_drv K)\<lparr>sy_gfx := g\<rparr>\<rparr>)"

text \<open>Bytes in physical memory, whose cells hold eight of them, the lowest address first.\<close>

definition byte_at :: "usize \<Rightarrow> machine \<Rightarrow> u8" where
  "byte_at a m = ucast (drop_bit (8 * unat (a AND 7)) (mem m (a AND NOT 7)))"

definition put_byte :: "usize \<Rightarrow> u8 \<Rightarrow> machine \<Rightarrow> machine" where
  "put_byte a b m =
     (let c = a AND NOT 7; k = 8 * unat (a AND 7)
      in m\<lparr>mem := (mem m)(c := (mem m c AND NOT (push_bit k 0xff)) OR push_bit k (ucast b))\<rparr>)"

definition mem_bytes :: "usize \<Rightarrow> nat \<Rightarrow> machine \<Rightarrow> u8 list" where
  "mem_bytes a n m = map (\<lambda>i. byte_at (a + of_nat i) m) [0..<n]"

fun put_bytes :: "usize \<Rightarrow> u8 list \<Rightarrow> machine \<Rightarrow> machine" where
  "put_bytes a [] m = m"
| "put_bytes a (b # bs) m = put_bytes (a + 1) bs (put_byte a b m)"

text \<open>The characters of a C string, up to a number of them (\<open>None\<close>: no end within).\<close>

fun c_string :: "nat \<Rightarrow> usize \<Rightarrow> machine \<Rightarrow> string option" where
  "c_string 0 a m = None"
| "c_string (Suc n) a m =
     (if byte_at a m = 0 then Some [] else map_option (\<lambda>cs. as_char (byte_at a m) # cs) (c_string n (a + 1) m))"

end
