(* ===== verification/Trap.thy ===== *)
theory Trap
  imports Kernel_State
begin

text \<open>
  Traps: the interrupt controller (\<open>plic.rs\<close>), the timer (\<open>clint.rs\<close>), the start of the hart (\<open>start.rs\<close>), the handlers
  of \<open>process.rs\<close> under \<open>src/src/arch/riscv64\<close> and \<open>kernel_trap\<close> of \<open>trap.rs\<close>. Where the source goes into an endless
  loop the model ends in \<open>Panic\<close>. The register and memory addresses that the linker fixes are parameters.
\<close>

section \<open>The interrupt controller\<close>

datatype PlicReg = Senable | Spriority | Sclaim

fun plic_val :: "PlicReg \<Rightarrow> usize" where
  "plic_val Senable = 0x2080"
| "plic_val Spriority = 0x201000"
| "plic_val Sclaim = 0x201004"

datatype Irq = VirtioFirstIrq | VirtioEndIrq | UartIrq

fun irq_val :: "Irq \<Rightarrow> usize" where
  "irq_val VirtioFirstIrq = 1"
| "irq_val VirtioEndIrq = 8"
| "irq_val UartIrq = 10"

definition plic_read_reg32 :: "usize \<Rightarrow> usize \<Rightarrow> device \<Rightarrow> u32 \<times> device" where
  "plic_read_reg32 base off d = (case reg_read (base + off) d of (v, d') \<Rightarrow> (ucast v, d'))"

definition plic_write_reg32 :: "usize \<Rightarrow> usize \<Rightarrow> u32 \<Rightarrow> device \<Rightarrow> device" where
  "plic_write_reg32 base off v d = reg_write (base + off) (ucast v) d"

definition claim :: "usize \<Rightarrow> device \<Rightarrow> u32 \<times> device" where
  "claim base = plic_read_reg32 base (plic_val Sclaim)"

definition complete :: "usize \<Rightarrow> u32 \<Rightarrow> device \<Rightarrow> device" where
  "complete base irq = plic_write_reg32 base (plic_val Sclaim) irq"

definition plic_init :: "usize \<Rightarrow> device \<Rightarrow> device" where
  "plic_init base d0 =
     (let d1 = plic_write_reg32 base (irq_val UartIrq * 4) 1 d0;
          d2 = plic_write_reg32 base (irq_val VirtioFirstIrq * 4) 1 d1;
          d3 = plic_write_reg32 base ((irq_val VirtioFirstIrq + 1) * 4) 1 d2;
          d4 = plic_write_reg32 base ((irq_val VirtioFirstIrq + 2) * 4) 1 d3;
          d5 = plic_write_reg32 base ((irq_val VirtioFirstIrq + 3) * 4) 1 d4;
          senable = push_bit (unat (irq_val UartIrq)) 1 OR push_bit (unat (irq_val VirtioFirstIrq)) 1
            OR push_bit (unat (irq_val VirtioFirstIrq + 1)) 1 OR push_bit (unat (irq_val VirtioFirstIrq + 2)) 1
            OR push_bit (unat (irq_val VirtioFirstIrq + 3)) 1;
          d6 = plic_write_reg32 base (plic_val Senable) senable d5
      in plic_write_reg32 base (plic_val Spriority) 0 d6)"

section \<open>Start of the hart\<close>

definition INTERVAL :: usize where
  "INTERVAL = 100000"

definition MTIME :: usize where
  "MTIME = 0xbff8"

definition MTIMECMP :: usize where
  "MTIMECMP = 0x4000"

text \<open>\<open>clint::init\<close>: the first timer interrupt and the scratch area that \<open>timervec\<close> works with.\<close>

definition clint_init :: "usize \<Rightarrow> usize \<Rightarrow> usize \<Rightarrow> machine \<Rightarrow> machine" where
  "clint_init clint_start timer_scratch timervec_ptr m0 =
     (let m1 = m0\<lparr>mem := (mem m0)(clint_start + MTIMECMP := mem m0 (clint_start + MTIME) + INTERVAL)\<rparr>;
          m2 = m1\<lparr>mem := (mem m1)(timer_scratch + 24 := clint_start + MTIMECMP)\<rparr>;
          m3 = m2\<lparr>mem := (mem m2)(timer_scratch + 32 := INTERVAL)\<rparr>
      in m3\<lparr>csrs := csr_write Mtvec timervec_ptr (csr_write Mscratch timer_scratch (csrs m3))\<rparr>)"

text \<open>\<open>start\<close> up to its \<open>mret\<close>. The physical memory protection registers of \<open>pmp_init\<close> are written once and never
  read; their values are the result.\<close>

definition pmp_init :: "usize \<times> usize" where
  "pmp_init = (drop_bit 10 (NOT 0), ((push_bit 3 3 OR push_bit 2 1) OR push_bit 1 1) OR push_bit 0 1)"

definition start :: "usize \<Rightarrow> usize \<Rightarrow> usize \<Rightarrow> usize \<Rightarrow> usize \<Rightarrow> machine \<Rightarrow> machine" where
  "start clint_start timer_scratch timervec_ptr kernelvec_ptr main_func m0 =
     (let mstatus = csr_read Mstatus (csrs m0) AND NOT (push_bit 11 3);
          mstatus = mstatus OR push_bit 11 1;
          mstatus = mstatus OR push_bit 5 1;
          mstatus = mstatus OR push_bit 7 1;
          mstatus = mstatus OR push_bit 1 1;
          mstatus = mstatus OR push_bit 3 1;
          mstatus = mstatus OR push_bit 13 1;
          f1 = csr_write Mstatus mstatus (csrs m0);
          sstatus = csr_read Sstatus f1 OR push_bit 5 1;
          sstatus = sstatus OR push_bit 1 1;
          sstatus = sstatus OR push_bit 13 1;
          f2 = csr_write Sstatus sstatus f1;
          f3 = csr_write Mepc main_func f2;
          f4 = csr_write Satp 0 f3;
          f5 = csr_write Mideleg 0xffff f4;
          f6 = csr_write Medeleg 0xffff f5;
          m1 = clint_init clint_start timer_scratch timervec_ptr (m0\<lparr>regs := (regs m0)(T0 := 0xffff), csrs := f6\<rparr>);
          f7 = csr_write Mie (csr_read Mie (csrs m1) OR push_bit 7 1) (csrs m1);
          f8 = csr_write Sie (csr_read Sie f7 OR push_bit 9 1) f7
      in m1\<lparr>regs := (regs m1)(Tp := f8 Mhartid), csrs := csr_write Stvec kernelvec_ptr f8\<rparr>)"

section \<open>Interrupts\<close>

definition interrupt :: "usize \<Rightarrow> usize \<Rightarrow> unit sop" where
  "interrupt plic_start code =
     (if code = 1 then
        seq (on_csrs (\<lambda>f. csr_write Sip (csr_read Sip f AND NOT (push_bit 1 1)) f))
       (seq (expect ''process'' (on_pm wakeup))
            (expect ''process'' (on_pm schedule)))
      else if code = 9 then
        bind (on_drv (\<lambda>y. case claim plic_start (sy_plic y) of (irq, d) \<Rightarrow> (Ok irq, y\<lparr>sy_plic := d\<rparr>))) (\<lambda>irq.
        seq (if ucast irq \<ge> irq_val VirtioFirstIrq \<and> ucast irq \<le> irq_val VirtioEndIrq then on_devs (virtio_interrupt irq) else ret ())
            (if irq \<noteq> 0 then upd_drv (\<lambda>y. y\<lparr>sy_plic := complete plic_start irq (sy_plic y)\<rparr>) else ret ()))
      else ret ())"

text \<open>\<open>user_trap_return\<close> of the process \<open>pid\<close>. The value is the jump it ends with: the address of \<open>userret\<close> and its two
  arguments.\<close>

definition user_trap_return :: "entry_points \<Rightarrow> (usize \<Rightarrow> usize) \<Rightarrow> usize \<Rightarrow> (usize \<times> usize \<times> usize) sop" where
  "user_trap_return ep self_ptr pid =
     bind (expect ''process'' (on_pm (get_process pid))) (\<lambda>p.
     let ap = arch_proc p; tf = trap_frame ap
     in seq (on_csrs interrupt_off)
       (seq (on_csrs (csr_write Stvec (TRAMPOLINE + (ep_uservec ep - ep_trampoline ep))))
       (bind (read_csr Satp) (\<lambda>satp_val.
        seq (on_machine (\<lambda>m. ((), tf_set tf TF_kernel_satp satp_val m)))
       (seq (on_machine (\<lambda>m. ((), tf_set tf TF_kernel_sp (ap_kernel_stack ap + ap_kernel_stack_size ap) m)))
       (seq (on_machine (\<lambda>m. ((), tf_set tf TF_kernel_trap (ep_user_trap ep) m)))
       (seq (on_csrs (\<lambda>f. csr_write Sstatus ((csr_read Sstatus f AND NOT (push_bit 8 1)) OR push_bit 5 1) f))
       (seq (on_machine (\<lambda>m. ((), m\<lparr>csrs := csr_write Sepc (tf_get tf TF_epc m) (csrs m)\<rparr>)))
       (seq (on_machine (\<lambda>m. ((), tf_set tf TF_arch_proc (self_ptr pid) m)))
            (ret (TRAMPOLINE + (ep_userret ep - ep_trampoline ep), TRAPFRAME,
                  push_bit 60 8 OR drop_bit 12 (page_table ap))))))))))))"

text \<open>\<open>exception\<close>, with the system calls it runs; any other exception of a user program stops the kernel. A system
  call returns a value, or (\<open>execve\<close>) jumps to the user program itself and never comes back to its caller.\<close>

datatype syscall_end = Returned usize | Left "usize \<times> usize \<times> usize"

definition exception :: "syscall_end sop \<Rightarrow> usize \<Rightarrow> usize \<Rightarrow> (usize \<times> usize \<times> usize) option sop" where
  "exception execute_syscall pid code =
     (if code = 8 then
        seq (on_csrs interrupt_on)
       (bind execute_syscall (\<lambda>e.
        case e of
          Left jump \<Rightarrow> ret (Some jump)
        | Returned ret_val \<Rightarrow>
            bind (expect ''process'' (on_pm (get_process pid))) (\<lambda>p.
            seq (on_machine (\<lambda>m. ((), tf_set (trap_frame (arch_proc p)) (TF_reg A0) ret_val m)))
           (seq (on_machine (\<lambda>m. ((), tf_set (trap_frame (arch_proc p)) TF_epc (tf_get (trap_frame (arch_proc p)) TF_epc m + 4) m)))
                (ret None)))))
      else panic ''exception in user mode'')"

definition user_trap ::
  "entry_points \<Rightarrow> (usize \<Rightarrow> usize) \<Rightarrow> usize \<Rightarrow> syscall_end sop \<Rightarrow> usize \<Rightarrow> (usize \<times> usize \<times> usize) sop" where
  "user_trap ep self_ptr plic_start execute_syscall pid =
     bind (read_csr Sstatus) (\<lambda>sstatus.
     if sstatus AND push_bit 8 1 \<noteq> 0 then panic ''not from user mode''
     else
       bind (expect ''process'' (on_pm (get_process pid))) (\<lambda>p.
       bind (read_csr Sepc) (\<lambda>sepc.
       seq (on_machine (\<lambda>m. ((), tf_set (trap_frame (arch_proc p)) TF_epc sepc m)))
      (seq (on_csrs (csr_write Stvec (ep_kernelvec ep)))
      (bind (read_csr Scause) (\<lambda>scause.
       bind (if scause AND push_bit 63 1 \<noteq> 0 then seq (interrupt plic_start (scause AND NOT (push_bit 63 1))) (ret None)
             else exception execute_syscall pid scause) (\<lambda>left.
       case left of Some jump \<Rightarrow> ret jump | None \<Rightarrow> user_trap_return ep self_ptr pid)))))))"

definition kernel_trap :: "usize \<Rightarrow> unit sop" where
  "kernel_trap plic_start =
     bind (read_csr Sepc) (\<lambda>sepc_val.
     bind (read_csr Scause) (\<lambda>scause_val.
     bind (read_csr Sstatus) (\<lambda>sstatus_val.
     if sstatus_val AND push_bit 8 1 = 0 then panic ''not from supervisor mode''
     else
       bind (on_machine (\<lambda>m. (is_interrupt_enable (csrs m), m))) (\<lambda>enabled.
       if enabled then panic ''interrupts enabled''
       else
         seq (if scause_val AND push_bit 63 1 \<noteq> 0 then interrupt plic_start (scause_val AND NOT (push_bit 63 1))
              else panic ''exception in the kernel'')
        (seq (on_csrs (csr_write Sepc sepc_val))
             (on_csrs (csr_write Sstatus sstatus_val)))))))"

end
