(* ===== verification/Kernel_Memory.thy ===== *)
theory Kernel_Memory
  imports Kernel_State
begin

text \<open>
  Calls on the machine alone, in the state of the whole kernel, and the bytes of its memory: a byte written is the byte read, at its address and nowhere else, although a cell of the
  model's memory holds eight of them; so a block of bytes put somewhere is there, and what lies elsewhere is as it was.
\<close>

section \<open>The machine in the kernel\<close>

definition mach :: "System kernel \<Rightarrow> machine" where
  "mach K = hw (k_pm K)"

definition with_mach :: "machine \<Rightarrow> System kernel \<Rightarrow> System kernel" where
  "with_mach m K = K\<lparr>k_pm := (k_pm K)\<lparr>hw := m\<rparr>\<rparr>"

lemma mach_with [simp]:
  "mach (with_mach m K) = m" "with_mach m (with_mach n K) = with_mach m K" "with_mach (mach K) K = K"
  "ptable (k_pm (with_mach m K)) = ptable (k_pm K)" "running (k_pm (with_mach m K)) = running (k_pm K)"
  "k_drv (with_mach m K) = k_drv K"
  by (simp_all add: mach_def with_mach_def)

lemma on_heap_eq:
  "on_heap f K = (case f (mach K) of (a, m) \<Rightarrow> Done (Ok a) (with_mach m K))"
  by (simp add: on_heap_def on_pm_def on_hw_def lift_def mach_def with_mach_def split: prod.split)

lemma on_hw_eq:
  "on_pm (on_hw f) K = (case f (mach K) of (r, m) \<Rightarrow> Done r (with_mach m K))"
  by (simp add: on_pm_def on_hw_def lift_def mach_def with_mach_def split: prod.split)

lemma on_machine_eq: "on_machine f K = (case f (mach K) of (a, m) \<Rightarrow> Done (Ok a) (with_mach m K))"
  by (simp add: on_machine_def on_heap_eq)

lemma sat_on_machine [sat_simps]:
  "sat R G Q (on_machine f K) = (case f (mach K) of (a, m) \<Rightarrow> Q (Ok a) (with_mach m K))"
  by (simp add: on_machine_eq split: prod.split)

lemma sat_on_csrs [sat_simps]:
  "sat R G Q (on_csrs f K) = Q (Ok ()) (with_mach ((mach K)\<lparr>csrs := f (csrs (mach K))\<rparr>) K)"
  by (simp add: on_csrs_def sat_simps)

lemma sat_read_csr [sat_simps]: "sat R G Q (read_csr c K) = Q (Ok (csrs (mach K) c)) K"
  by (simp add: read_csr_def sat_simps csr_read_def)

lemma sat_lookup [sat_simps]:
  "sat R G Q (on_pm (get_process pid) K) =
     (case ptable (k_pm K) pid of None \<Rightarrow> Q (Err (ProcessNotFound pid)) K | Some p \<Rightarrow> Q (Ok p) K)"
  by (cases K) (simp add: on_pm_def get_process_def split: option.split)

section \<open>Bytes\<close>

lemma bit_ff: "bit (255 :: int) n \<longleftrightarrow> n < 8"
proof -
  have "bit (255 :: int) n = bit (mask 8 :: int) n" by (simp add: mask_eq_exp_minus_1)
  also have "\<dots> \<longleftrightarrow> n < 8" unfolding bit_mask_iff by auto
  finally show ?thesis .
qed

text \<open>An address is the address of its cell and the place in it.\<close>

lemma bit_7: "bit (7 :: int) n \<longleftrightarrow> n < 3"
proof -
  have "bit (7 :: int) n = bit (mask 3 :: int) n" by (simp add: mask_eq_exp_minus_1)
  also have "\<dots> \<longleftrightarrow> n < 3" unfolding bit_mask_iff by auto
  finally show ?thesis .
qed

lemma cell_eqI:
  assumes "a AND NOT 7 = b AND NOT 7" "a AND 7 = b AND 7"
  shows "a = (b :: usize)"
proof (rule bit_word_eqI)
  fix n assume "n < LENGTH(64)"
  then show "bit a n = bit b n"
    using arg_cong [OF assms(1), of "\<lambda>w. bit w n"] arg_cong [OF assms(2), of "\<lambda>w. bit w n"]
    by (cases "n < 3") (auto simp: bit_simps bit_7)
qed

lemma unat_and_7: "unat (a AND 7 :: usize) < 8"
proof -
  have "a AND 7 = take_bit 3 a" by (simp add: take_bit_eq_mask mask_eq_exp_minus_1)
  then show ?thesis by (simp add: unsigned_take_bit_eq take_bit_nat_eq_self_iff take_bit_nat_less_exp [of 3, simplified])
qed

lemma byte_at_put_byte: "byte_at a (put_byte b x m) = (if a = b then x else byte_at a m)"
proof (cases "a AND NOT 7 = b AND NOT 7")
  case False
  then show ?thesis by (auto simp: byte_at_def put_byte_def Let_def)
next
  case same: True
  let ?i = "unat (a AND 7)" and ?j = "unat (b AND 7)"
  have ij: "?i < 8" "?j < 8" by (simp_all only: unat_and_7)
  have eq: "a = b \<longleftrightarrow> ?i = ?j" using cell_eqI [OF same] unsigned_word_eqI [where ?'a = nat] by blast
  show ?thesis
  proof (rule bit_word_eqI)
    fix n assume n: "n < LENGTH(8)"
    have "8 * ?i + n < 64" using ij(1) n by simp
    moreover have "8 * ?j \<le> 8 * ?i + n \<and> 8 * ?i + n - 8 * ?j < 8 \<longleftrightarrow> ?i = ?j" using n by auto
    ultimately show "bit (byte_at a (put_byte b x m)) n = bit (if a = b then x else byte_at a m) n"
      using n same eq by (auto simp: byte_at_def put_byte_def Let_def bit_simps bit_ff dest: bit_imp_le_length)
  qed
qed

lemma byte_at_put_bytes:
  "length bs \<le> 2 ^ 64 \<Longrightarrow>
   byte_at a (put_bytes p bs m) = (if unat (a - p) < length bs then bs ! unat (a - p) else byte_at a m)"
proof (induction bs arbitrary: p m)
  case (Cons b bs)
  have p1: "a - (p + 1) = (a - p) - 1" by simp
  show ?case
  proof (cases "a = p")
    case True
    have "unat (- 1 :: usize) = 2 ^ 64 - 1" by (simp add: unsigned_minus_1_eq_mask mask_eq_exp_minus_1)
    then have "\<not> unat (a - (p + 1)) < length bs" using True Cons.prems by simp
    then show ?thesis using True Cons by (simp add: byte_at_put_byte)
  next
    case False
    then have "unat (a - p) = Suc (unat (a - (p + 1)))"
      unfolding p1 by (metis Suc_pred' gr0I measure_unat right_minus_eq unat_eq_zero unat_minus_one)
    then show ?thesis using False Cons by (simp add: byte_at_put_byte)
  qed
qed simp

lemma length_mem_bytes [simp]: "length (mem_bytes p n m) = n"
  by (simp add: mem_bytes_def)

lemma nth_mem_bytes: "i < n \<Longrightarrow> mem_bytes p n m ! i = byte_at (p + of_nat i) m"
  by (simp add: mem_bytes_def)

lemma mem_bytes_put_bytes:
  assumes "n \<le> length bs" "length bs \<le> 2 ^ 64"
  shows "mem_bytes p n (put_bytes p bs m) = take n bs"
  using assms by (intro nth_equalityI) (auto simp: nth_mem_bytes byte_at_put_bytes unat_of_nat)

lemma mem_bytes_elsewhere:
  assumes "\<forall>i < n. length bs \<le> unat (q + of_nat i - p)" "length bs \<le> 2 ^ 64"
  shows "mem_bytes q n (put_bytes p bs m) = mem_bytes q n m"
  using assms by (intro nth_equalityI) (auto simp: nth_mem_bytes byte_at_put_bytes not_less [symmetric])

lemma put_bytes_fields [simp]:
  "csrs (put_bytes p bs m) = csrs m" "regs (put_bytes p bs m) = regs m" "heap_script (put_bytes p bs m) = heap_script m"
  "n_alloc (put_bytes p bs m) = n_alloc m" "heap_log (put_bytes p bs m) = heap_log m"
  by (induction bs arbitrary: p m) (simp_all add: put_byte_def Let_def)

end
