(* ===== verification/Trap_Props.thy ===== *)
theory Trap_Props
  imports Trap Assembly Kernel_Memory
begin

text \<open>
  Properties of the trap handlers: a system call, from the program's \<open>ecall\<close> through \<open>uservec\<close>, \<open>user_trap\<close> and
  \<open>userret\<close> back to the instruction after it, whatever happens while the call waits; and an interrupt in the
  kernel, which \<open>kernel_trap\<close> leaves with the registers of the trap as it found them.
\<close>

section \<open>The handlers' steps\<close>

lemma tf_fields [simp]: "csrs (tf_set tf fld x m) = csrs m" "regs (tf_set tf fld x m) = regs m"
  by (simp_all add: tf_set_def)

lemma reg_offset_other: "reg_offset r \<noteq> 0" "reg_offset r \<noteq> 8" "reg_offset r \<noteq> 16" "reg_offset r \<noteq> 24" "reg_offset r \<noteq> 288"
  by (cases r; simp)+

lemma tf_get_set:
  "tf_get tf (TF_reg r) (tf_set tf (TF_reg A0) x m) = (if r = A0 then x else tf_get tf (TF_reg r) m)"
  "tf_get tf TF_epc (tf_set tf TF_epc x m) = x" "tf_get tf TF_epc (tf_set tf (TF_reg A0) x m) = tf_get tf TF_epc m"
  "fld \<in> {TF_kernel_satp, TF_kernel_sp, TF_kernel_trap, TF_epc, TF_arch_proc} \<Longrightarrow>
     tf_get tf (TF_reg r) (tf_set tf fld x m) = tf_get tf (TF_reg r) m"
  "fld \<in> {TF_kernel_satp, TF_kernel_sp, TF_kernel_trap, TF_arch_proc} \<Longrightarrow>
     tf_get tf TF_epc (tf_set tf fld x m) = tf_get tf TF_epc m"
  using reg_offset_other [of r] reg_offset_A0 [of r] by (auto simp: tf_get_def tf_set_def)

lemma tf_get_csrs [simp]: "tf_get tf fld (m\<lparr>csrs := f\<rparr>) = tf_get tf fld m" "tf_get tf fld (m\<lparr>regs := g\<rparr>) = tf_get tf fld m"
  by (simp_all add: tf_get_def)

section \<open>Return to the user program\<close>

definition user_satp :: "ArchProcess \<Rightarrow> usize" where
  "user_satp ap = push_bit 60 8 OR drop_bit 12 (page_table ap)"

definition userret_addr :: "entry_points \<Rightarrow> usize" where
  "userret_addr ep = TRAMPOLINE + (ep_userret ep - ep_trampoline ep)"

definition user_sstatus :: "usize \<Rightarrow> usize" where
  "user_sstatus x = ((x AND NOT (push_bit 1 1)) AND NOT (push_bit 8 1)) OR push_bit 5 1"

lemma bit_user_sstatus: "bit (user_sstatus x) 5" "\<not> bit (user_sstatus x) 8" "\<not> bit (user_sstatus x) 1"
  by (simp_all add: user_sstatus_def bit_simps)

lemma user_trap_return_sat:
  assumes p: "ptable (k_pm K) pid = Some p" and tf: "tf = trap_frame (arch_proc p)"
    and Q: "\<And>m. csrs m = (csrs (mach K))(Stvec := TRAMPOLINE + (ep_uservec ep - ep_trampoline ep),
                Sstatus := user_sstatus (csrs (mach K) Sstatus), Sepc := tf_get tf TF_epc (mach K)) \<Longrightarrow>
              (\<forall>r. tf_get tf (TF_reg r) m = tf_get tf (TF_reg r) (mach K)) \<Longrightarrow>
              Q (Ok (userret_addr ep, TRAPFRAME, user_satp (arch_proc p))) (with_mach m K)"
  shows "sat R G Q (user_trap_return ep self_ptr pid K)"
  unfolding user_trap_return_def userret_addr_def [symmetric] user_satp_def [symmetric]
  apply (simp add: sat_simps p Let_def flip: tf)
  apply (rule Q)
   apply (simp_all add: tf_get_set csr_write_def csr_read_def interrupt_off_def user_sstatus_def)
  done

text \<open>\<open>userret\<close> after it: on at \<open>sepc\<close>, with the registers of the trap frame and interrupts enabled.\<close>

lemma userret_enters:
  assumes "mapped tr satp (mem m) TRAPFRAME tf 0x1000" "csrs m Sstatus = user_sstatus y"
  shows "\<exists>u. exec tr userret (m\<lparr>regs := (regs m)(A0 := TRAPFRAME, A1 := satp)\<rparr>) = Jump (csrs m Sepc) u \<and>
    (\<forall>r. regs u r = tf_get tf (TF_reg r) m) \<and> csrs u Satp = satp \<and> bit (csrs u Sstatus) 1 \<and> \<not> bit (csrs u Sstatus) 8"
  using userret_restores [of tr satp "m\<lparr>regs := (regs m)(A0 := TRAPFRAME, A1 := satp)\<rparr>" TRAPFRAME tf] assms
    bit_user_sstatus(1) [of y] by (auto simp: sret_status_def put_bit_def bit_simps)

section \<open>System calls\<close>

text \<open>The state in which \<open>execute_syscall\<close> starts.\<close>

definition in_call :: "entry_points \<Rightarrow> usize \<Rightarrow> System kernel \<Rightarrow> System kernel" where
  "in_call ep tf K =
     (let m = tf_set tf TF_epc (csrs (mach K) Sepc) (mach K)
      in with_mach (m\<lparr>csrs := interrupt_on (csr_write Stvec (ep_kernelvec ep) (csrs m))\<rparr>) K)"

lemma SPP_clear: "\<not> bit x 8 \<Longrightarrow> x AND push_bit 8 1 = 0" for x :: usize
  by (metis bit_iff_and_push_bit_not_eq_0)

text \<open>\<open>user_trap\<close> for an \<open>ecall\<close>, when the call ends with a value and the process still has its trap frame.\<close>

lemma user_trap_call_sat:
  assumes p: "ptable (k_pm K) pid = Some p" and tf: "tf = trap_frame (arch_proc p)"
    and user: "\<not> bit (csrs (mach K) Sstatus) 8" and cause: "csrs (mach K) Scause = 8"
    and call: "sat R G (\<lambda>r K'. \<exists>v p'. r = Ok (Returned v) \<and> C v p' K' \<and> ptable (k_pm K') pid = Some p' \<and> trap_frame (arch_proc p') = tf)
                 (execute_syscall (in_call ep tf K))"
    and Q: "\<And>v p' K' m. C v p' K' \<Longrightarrow>
              csrs m = (csrs (mach K'))(Stvec := TRAMPOLINE + (ep_uservec ep - ep_trampoline ep),
                Sstatus := user_sstatus (csrs (mach K') Sstatus), Sepc := tf_get tf TF_epc (mach K') + 4) \<Longrightarrow>
              (\<forall>r. tf_get tf (TF_reg r) m = (if r = A0 then v else tf_get tf (TF_reg r) (mach K'))) \<Longrightarrow>
              Q (Ok (userret_addr ep, TRAPFRAME, user_satp (arch_proc p'))) (with_mach m K')"
  shows "sat R G Q (user_trap ep self_ptr plic_start execute_syscall pid K)"
proof -
  have end_call: "sat R G (post_bind R G Q (\<lambda>left. case left of Some jump \<Rightarrow> ret jump | None \<Rightarrow> user_trap_return ep self_ptr pid))
      (bind (expect ''process'' (on_pm (get_process pid))) (\<lambda>p.
        seq (on_machine (\<lambda>m. ((), tf_set (trap_frame (arch_proc p)) (TF_reg A0) v m)))
       (seq (on_machine (\<lambda>m. ((), tf_set (trap_frame (arch_proc p)) TF_epc (tf_get (trap_frame (arch_proc p)) TF_epc m + 4) m)))
            (ret None))) K')"
    if h: "C v p' K'" "ptable (k_pm K') pid = Some p'" "trap_frame (arch_proc p') = tf" for v p' K'
  proof -
    let ?K = "with_mach (tf_set tf TF_epc (tf_get tf TF_epc (tf_set tf (TF_reg A0) v (mach K')) + 4) (tf_set tf (TF_reg A0) v (mach K'))) K'"
    have "sat R G Q (user_trap_return ep self_ptr pid ?K)"
      by (rule user_trap_return_sat [where p = p' and tf = tf]) (use h Q [OF h(1)] in \<open>simp_all add: tf_get_set\<close>)
    then show ?thesis using h(2,3) by (simp add: sat_simps)
  qed
  have Scause: "csr_write Stvec x (csrs (mach K)) Scause = 8" for x using cause by (simp add: csr_write_def)
  show ?thesis
    unfolding user_trap_def exception_def using SPP_clear [OF user]
    by (simp add: sat_simps p Scause Let_def)
      (rule sat_post [OF call [unfolded in_call_def Let_def tf, simplified]],
       use end_call [unfolded sat_bind tf] in \<open>fastforce simp: sat_bind tf\<close>)
qed

text \<open>C2: a system call comes back to its program. A user program with machine state \<open>u0\<close> traps: \<open>uservec\<close> saves it
  and enters \<open>user_trap\<close> of its process with the kernel in state \<open>K\<close>. If the call that \<open>execute_syscall\<close> runs ends with
  a value \<open>v\<close>, with whatever other processes and interrupts do (\<open>R\<close>) while it waits, and leaves the process its trap
  frame and page table, then \<open>user_trap\<close> ends in a jump to \<open>userret\<close> with the arguments under which \<open>userret\<close> goes on in
  user mode at the instruction after the \<open>ecall\<close>, with the program's registers, \<open>v\<close> in \<open>a0\<close>, and interrupts enabled.\<close>

theorem system_call_roundtrip:
  assumes "mapped tr (csrs u0 Satp) (mem u0) TRAPFRAME tf 0x1000" "csrs u0 Sscratch = TRAPFRAME"
    and "exec tr uservec u0 = Jump h (mach K)"
    and "\<not> bit (csrs u0 Sstatus) 8" "csrs u0 Scause = 8"
    and "ptable (k_pm K) pid = Some p" "tf = trap_frame (arch_proc p)"
    and "sat R G (\<lambda>r K'. \<exists>v p'. r = Ok (Returned v) \<and> V v \<and> ptable (k_pm K') pid = Some p' \<and> trap_frame (arch_proc p') = tf \<and>
           page_table (arch_proc p') = page_table (arch_proc p) \<and>
           (\<forall>fld. tf_get tf fld (mach K') = tf_get tf fld (mach (in_call ep tf K))))
         (execute_syscall (in_call ep tf K))"
  shows "sat R G (\<lambda>r K'. r = Ok (userret_addr ep, TRAPFRAME, user_satp (arch_proc p)) \<and>
      (mapped tr (user_satp (arch_proc p)) (mem (mach K')) TRAPFRAME tf 0x1000 \<longrightarrow>
       (\<exists>u v. exec tr userret ((mach K')\<lparr>regs := (regs (mach K'))(A0 := TRAPFRAME, A1 := user_satp (arch_proc p))\<rparr>) =
            Jump (csrs u0 Sepc + 4) u \<and>
          V v \<and> regs u = (regs u0)(A0 := v) \<and> csrs u Satp = user_satp (arch_proc p) \<and>
          bit (csrs u Sstatus) 1 \<and> \<not> bit (csrs u Sstatus) 8)))
    (user_trap ep self_ptr plic_start execute_syscall pid K)"
proof -
  obtain saved: "\<forall>r. tf_get tf (TF_reg r) (mach K) = regs u0 r"
    and c: "csrs (mach K) = (csrs u0)(Sscratch := regs u0 A0, Satp := tf_get tf TF_kernel_satp u0)"
    using uservec_saves [OF assms(1,2)] assms(3) by auto
  have in_call: "tf_get tf (TF_reg r) (mach (in_call ep tf K)) = regs u0 r" "tf_get tf TF_epc (mach (in_call ep tf K)) = csrs u0 Sepc" for r
    using saved c by (simp_all add: in_call_def Let_def tf_get_set)
  have resume: "\<exists>u v. exec tr userret (m\<lparr>regs := (regs m)(A0 := TRAPFRAME, A1 := satp)\<rparr>) = Jump (csrs u0 Sepc + 4) u \<and>
      V v \<and> regs u = (regs u0)(A0 := v) \<and> csrs u Satp = satp \<and> bit (csrs u Sstatus) 1 \<and> \<not> bit (csrs u Sstatus) 8"
    if m: "mapped tr satp (mem m) TRAPFRAME tf 0x1000" "csrs m Sepc = csrs u0 Sepc + 4" "csrs m Sstatus = user_sstatus y"
      "\<forall>r. tf_get tf (TF_reg r) m = (if r = A0 then v else regs u0 r)" "V v" for m satp v y
  proof -
    obtain u where u: "exec tr userret (m\<lparr>regs := (regs m)(A0 := TRAPFRAME, A1 := satp)\<rparr>) = Jump (csrs m Sepc) u"
      "\<forall>r. regs u r = tf_get tf (TF_reg r) m" "csrs u Satp = satp" "bit (csrs u Sstatus) 1" "\<not> bit (csrs u Sstatus) 8"
      using userret_enters [OF m(1,3)] by blast
    have "regs u = (regs u0)(A0 := v)" using u(2) m(4) by (auto simp: fun_eq_iff)
    then show ?thesis using u m(2,5) by auto
  qed
  show ?thesis
    apply (rule user_trap_call_sat [where p = p and tf = tf and C = "\<lambda>v p' K'. V v \<and> page_table (arch_proc p') = page_table (arch_proc p) \<and>
           (\<forall>fld. tf_get tf fld (mach K') = tf_get tf fld (mach (in_call ep tf K)))"])
    subgoal using assms(6) .
    subgoal using assms(7) .
    subgoal using assms(4) c by simp
    subgoal using assms(5) c by simp
    subgoal using assms(8) by (auto elim: sat_post)
    subgoal for v p' K' m using resume [of "user_satp (arch_proc p)" m "csrs (mach K') Sstatus" v] in_call
      by (auto simp: user_satp_def)
    done
qed

section \<open>Interrupts in the kernel\<close>

text \<open>C18: an interrupt in the kernel does not lose the trap's own registers. Whatever the handler does, and whatever
  other processes and nested traps do to the registers while the interrupted process is switched out (\<open>R\<close> is
  arbitrary), \<open>kernel_trap\<close> returns only with \<open>sepc\<close> and \<open>sstatus\<close> as they were at the interrupt.\<close>

theorem kernel_trap_restores:
  "sat R (\<lambda>_ _. True) (\<lambda>r K'. case r of
       Ok _ \<Rightarrow> csrs (mach K') Sepc = csrs (mach K) Sepc \<and> csrs (mach K') Sstatus = csrs (mach K) Sstatus
     | _ \<Rightarrow> True) (kernel_trap plic_start K)"
proof -
  have any: "sat R (\<lambda>_ _. True) Q p" if "\<And>r K'. Q r K'" for Q and p :: "(System kernel, ProcessError, unit) prog"
    using that by (induction p) auto
  show ?thesis
    unfolding kernel_trap_def
    by (simp add: sat_simps, intro impI any) (simp add: post_bind_def sat_simps csr_write_def split: result.split)
qed

section \<open>The start of the hart\<close>

text \<open>The scratch area as \<open>timervec\<close> needs it.\<close>

definition timer_armed :: "usize \<Rightarrow> usize \<Rightarrow> machine \<Rightarrow> bool" where
  "timer_armed clint_start timer_scratch m \<longleftrightarrow> csrs m Mscratch = timer_scratch \<and>
     mem m (timer_scratch + 24) = clint_start + MTIMECMP \<and> mem m (timer_scratch + 32) = INTERVAL"

lemma timervec_keeps_armed:
  assumes "timer_armed clint_start ts m" "40 \<le> clint_start + MTIMECMP - ts" "\<forall>M a. tr (csrs m Satp) M a = Some a"
  shows "\<exists>m'. exec tr timervec m = Jump (csrs m Mepc) m' \<and> regs m' = regs m \<and> csrs m' Sip = 2 \<and>
    mem m' (clint_start + MTIMECMP) = mem m (clint_start + MTIMECMP) + INTERVAL \<and> timer_armed clint_start ts m'"
proof -
  let ?c = "clint_start + MTIMECMP"
  have ne: "?c \<noteq> ts + k" if "k < 40" for k
    using that assms(2) by (metis add_diff_cancel_left' linorder_not_less)
  obtain m' where m': "exec tr timervec m = Jump (csrs m Mepc) m'" "regs m' = regs m" "mem m' ?c = mem m ?c + mem m (ts + 32)"
      "csrs m' Sip = 2" "csrs m' Mscratch = csrs m Mscratch" "\<forall>a. a \<notin> {?c, ts, ts + 8, ts + 16} \<longrightarrow> mem m' a = mem m a"
    using timervec_ticks [of tr m ts ?c] assms by (auto simp: timer_armed_def)
  have "mem m' (ts + 24) = mem m (ts + 24)" "mem m' (ts + 32) = mem m (ts + 32)"
    using m'(6) ne [of 24] ne [of 32] by (simp_all add: eq_commute)
  then show ?thesis using m' assms(1) by (simp add: timer_armed_def)
qed


section \<open>Examples\<close>

definition call_frame :: usize where
  "call_frame = 0x80020000"

definition call_proc :: Process where
  "call_proc = (fst (Process_new 1 machine0))\<lparr>arch_proc := (arch_proc (fst (Process_new 1 machine0)))\<lparr>trap_frame := call_frame\<rparr>\<rparr>"

definition call_user :: machine where
  "call_user = cpu0\<lparr>csrs := (csrs cpu0)(Scause := 8)\<rparr>"

definition call_ep :: entry_points where
  "call_ep = \<lparr>ep_trampoline = 0x80001000, ep_uservec = 0x80001000, ep_userret = 0x80001100, ep_killme = 0x80002000,
     ep_kernelvec = 0x80003000, ep_user_trap = 0x80004000, ep_user_trap_return = 0x80005000\<rparr>"

definition call_sys :: "System \<Rightarrow> machine \<Rightarrow> System kernel" where
  "call_sys y m = \<lparr>k_pm = (ProcessManager_new m)\<lparr>ptable := [1 \<mapsto> call_proc], running := 1\<rparr>, k_drv = y\<rparr>"

lemma call_sys_simps [simp]: "mach (call_sys y m) = m" "ptable (k_pm (call_sys y m)) = [1 \<mapsto> call_proc]" "trap_frame (arch_proc call_proc) = call_frame"
  by (simp_all add: call_sys_def mach_def ProcessManager_new_def call_proc_def)

lemma call_user_fields [simp]: "csrs call_user Sscratch = TRAPFRAME" "\<not> bit (csrs call_user Sstatus) 8" "csrs call_user Scause = 8" "csrs call_user Sepc = 0x4000"
proof -
  have "csrs call_user Sstatus = 7" by (simp add: call_user_def cpu0_def)
  then show "\<not> bit (csrs call_user Sstatus) 8" by simp
qed (simp_all add: call_user_def)

theorem system_call_roundtrip_witness:
  "\<forall>y. \<exists>h k. exec (tr_move TRAPFRAME call_frame) uservec call_user = Jump h k \<and>
     (case user_trap call_ep (\<lambda>_. 0) 0 (ret (Returned 42)) 1 (call_sys y k) of
        Done (Ok (_, frame, satp)) K' \<Rightarrow>
          (\<exists>u. exec (tr_move TRAPFRAME call_frame) userret ((mach K')\<lparr>regs := (regs (mach K'))(A0 := frame, A1 := satp)\<rparr>) =
             Jump 0x4004 u \<and> regs u = (regs call_user)(A0 := 42))
      | _ \<Rightarrow> False)"
proof
  fix y
  let ?tr = "tr_move TRAPFRAME call_frame" and ?call = "ret (Returned 42) :: syscall_end sop"
  have map: "mapped ?tr satp M TRAPFRAME call_frame 0x1000" for satp M by (rule mapped_move)
  obtain h k where k: "exec ?tr uservec call_user = Jump h k"
    using uservec_saves [OF map, of call_user] by auto
  let ?Q = "\<lambda>r K'. r = Ok (userret_addr call_ep, TRAPFRAME, user_satp (arch_proc call_proc)) \<and>
      (\<exists>u v. exec ?tr userret ((mach K')\<lparr>regs := (regs (mach K'))(A0 := TRAPFRAME, A1 := user_satp (arch_proc call_proc))\<rparr>) =
            Jump (csrs call_user Sepc + 4) u \<and> v = 42 \<and> regs u = (regs call_user)(A0 := v))"
  have "sat (\<lambda>_ _ _. False) (\<lambda>_ _. False) ?Q (user_trap call_ep (\<lambda>_. 0) 0 ?call 1 (call_sys y k))"
    using system_call_roundtrip [OF map call_user_fields(1), where h = h and K = "call_sys y k" and pid = 1 and p = call_proc
        and R = "\<lambda>_ _ _. False" and G = "\<lambda>_ _. False" and V = "\<lambda>v. v = 42" and execute_syscall = ?call and ep = call_ep
        and self_ptr = "\<lambda>_. 0" and plic_start = 0] k map
    by (auto simp: sat_ret in_call_def Let_def elim!: sat_post)
  then show "\<exists>h k. exec ?tr uservec call_user = Jump h k \<and>
     (case user_trap call_ep (\<lambda>_. 0) 0 ?call 1 (call_sys y k) of
        Done (Ok (_, frame, satp)) K' \<Rightarrow>
          (\<exists>u. exec ?tr userret ((mach K')\<lparr>regs := (regs (mach K'))(A0 := frame, A1 := satp)\<rparr>) = Jump 0x4004 u \<and>
             regs u = (regs call_user)(A0 := 42))
      | _ \<Rightarrow> False)"
    using k by (cases "user_trap call_ep (\<lambda>_. 0) 0 ?call 1 (call_sys y k)") auto
qed


end
