(* ===== verification/Loader.thy ===== *)
theory Loader
  imports Kernel_State
begin

text \<open>
  The program loader (\<open>src/src/arch/riscv64/loader.rs\<close>, \<open>init_program\<close> and \<open>load_program\<close> of the two \<open>process.rs\<close>). The
  parser of executables is a third-party crate (\<open>goblin\<close>) and a parameter: from the bytes of a file, the entry point
  and the program headers of an ELF file, or something else, or a parse error.
\<close>

section \<open>The executable file\<close>

record ProgramHeader =
  ph_vm_range :: "usize \<times> usize"
  ph_file_range :: "usize \<times> usize"

record Elf =
  e_entry :: usize
  program_headers :: "ProgramHeader list"

datatype parsed = ElfObject Elf | OtherObject

type_synonym goblin = "u8 list \<Rightarrow> parsed option"

text \<open>\<open>Range::len\<close> and a slice by a range, which panics unless it lies within.\<close>

definition range_len :: "usize \<times> usize \<Rightarrow> usize" where
  "range_len r = (if fst r < snd r then snd r - fst r else 0)"

definition slice :: "usize \<times> usize \<Rightarrow> u8 list \<Rightarrow> u8 list option" where
  "slice r bs =
     (if fst r \<le> snd r \<and> unat (snd r) \<le> length bs then Some (take (unat (snd r - fst r)) (drop (unat (fst r)) bs)) else None)"

text \<open>\<open>Layout::from_size_align\<close>: the size, rounded up, has to fit into an \<open>isize\<close>.\<close>

definition from_size_align :: "usize \<Rightarrow> usize \<Rightarrow> layout option" where
  "from_size_align sz align = (if sz \<le> 2 ^ 63 - align then Some (sz, align) else None)"

section \<open>Loading\<close>

text \<open>The value of a call of the file system, its error with \<open>?\<close>.\<close>

definition try_fs ::
  "((Fat32 \<times> machine) FileSystem \<Rightarrow> (Error, 'a) result \<times> (Fat32 \<times> machine) FileSystem) \<Rightarrow> (System kernel, Error, 'a) kop" where
  "try_fs f = bind (on_fs f) (\<lambda>r. case r of Ok a \<Rightarrow> ret a | Err e \<Rightarrow> throw e | Panic m \<Rightarrow> panic m)"

definition SEGMENT_FLAGS :: usize where
  "SEGMENT_FLAGS = eb_val EB_R OR eb_val EB_W OR eb_val EB_X OR eb_val EB_U"

text \<open>The loop over the program headers: a buffer for the segment, mapped at its addresses, with the bytes of the file.\<close>

fun load_segments :: "usize \<Rightarrow> u8 list \<Rightarrow> ProgramHeader list \<Rightarrow> (System kernel, Error, Segment list) kop" where
  "load_segments root bin_slice [] = ret []"
| "load_segments root bin_slice (ph # phs) =
     (let vm_range = ph_vm_range ph
      in case from_size_align (range_len vm_range) 0x1000 of
           None \<Rightarrow> panic ''unwrap on Err''
         | Some lay \<Rightarrow>
             bind (on_heap (alloc_zeroed lay)) (\<lambda>buffer.
             seq (on_pm (on_hw (map_range root (fst vm_range) buffer (range_len vm_range) SEGMENT_FLAGS)))
            (case slice (ph_file_range ph) bin_slice of
               None \<Rightarrow> panic ''slice index out of range''
             | Some bytes \<Rightarrow>
                 seq (on_heap (\<lambda>m. ((), put_bytes buffer bytes m)))
                (bind (load_segments root bin_slice phs) (\<lambda>segs.
                 ret (\<lparr>seg_ptr = buffer, seg_layout = lay, seg_vm_range = vm_range, seg_flags = SEGMENT_FLAGS\<rparr> # segs))))))"

text \<open>The file is read into a buffer of its size, which is never given back.\<close>

definition load_exe :: "nat \<Rightarrow> disk \<Rightarrow> goblin \<Rightarrow> string \<Rightarrow> usize \<Rightarrow> (System kernel, Error, ExecutableInfo) kop" where
  "load_exe n d parse path root =
     bind (try_fs (open_file (fat_file_size n d) path)) (\<lambda>fd.
     bind (try_fs (\<lambda>s. (get_file_size fd s, s))) (\<lambda>sz.
     case from_size_align sz 0x1000 of
       None \<Rightarrow> panic ''unwrap on Err''
     | Some lay \<Rightarrow>
         bind (on_heap (alloc_zeroed lay)) (\<lambda>bin_data.
         bind (try_fs (fs_read (fat_read_at n d) fd (replicate (unat sz) 0))) (\<lambda>(_, bin_slice).
         seq (on_heap (\<lambda>m. ((), put_bytes bin_data bin_slice m)))
        (case parse bin_slice of
           None \<Rightarrow> panic ''unwrap on Err''
         | Some OtherObject \<Rightarrow> throw (Msg (path @ '' is not an elf file''))
         | Some (ElfObject elf) \<Rightarrow>
             bind (load_segments root bin_slice (program_headers elf)) (\<lambda>segs.
             ret \<lparr>ei_entry = e_entry elf, segment_buffers = segs\<rparr>))))))"

text \<open>\<open>ArchProcess::init_program\<close> of the process \<open>pid\<close>, and \<open>ProcessManager::load_program\<close>.\<close>

definition init_program :: "nat \<Rightarrow> disk \<Rightarrow> goblin \<Rightarrow> usize \<Rightarrow> string \<Rightarrow> Process \<Rightarrow> unit sop" where
  "init_program n d parse pid path p =
     bind (expect ''unwrap on Err'' (load_exe n d parse path (page_table (arch_proc p)))) (\<lambda>info.
     seq (on_pm (upd_process pid (\<lambda>p. p\<lparr>arch_proc := (arch_proc p)\<lparr>exec_info := info\<rparr>\<rparr>)))
         (on_machine (\<lambda>m. ((), tf_set (trap_frame (arch_proc p)) TF_epc (ei_entry info) m))))"

definition load_program :: "nat \<Rightarrow> disk \<Rightarrow> goblin \<Rightarrow> usize \<Rightarrow> string \<Rightarrow> unit sop" where
  "load_program n d parse pid path = bind (on_pm (get_process pid)) (init_program n d parse pid path)"

end
