(* ===== verification/Loader_Props.thy ===== *)
theory Loader_Props
  imports Loader Kernel_Memory
begin

text \<open>
  The loaded image: after \<open>load_segments\<close> every byte of every segment is found through the page table at its
  virtual address, with the byte of the file or, beyond the file's part, zero.
\<close>

section \<open>Blocks of the heap\<close>

text \<open>The pages of a block of \<open>L\<close> bytes at \<open>q\<close>.\<close>

definition in_block :: "usize \<Rightarrow> usize \<Rightarrow> usize \<Rightarrow> bool" where
  "in_block L q a \<longleftrightarrow> pg a - q < L"

text \<open>What the loader relies on of the allocator: its next answers \<open>qs\<close> are page-aligned blocks of at least \<open>L\<close> bytes,
  disjoint from each other and from the pages of \<open>S\<close>.\<close>

definition heap_blocks :: "usize \<Rightarrow> machine \<Rightarrow> usize list \<Rightarrow> usize set \<Rightarrow> bool" where
  "heap_blocks L m qs S \<longleftrightarrow>
     (\<forall>k < length qs. heap_script m (n_alloc m + k) = Some (qs ! k)) \<and>
     (\<forall>q \<in> set qs. pg q = q \<and> q \<noteq> 0 \<and> unat q + unat L \<le> 2 ^ 56 \<and> (\<forall>a. in_block L q a \<longrightarrow> pg a \<notin> S)) \<and>
     sorted_wrt (\<lambda>q q'. \<forall>a. \<not> (in_block L q a \<and> in_block L q' a)) qs"

text \<open>A page table at \<open>root\<close> and \<open>n\<close> more blocks, all of it away from the addresses \<open>A\<close>, whose contents are \<open>M\<close>.\<close>

definition room :: "usize \<Rightarrow> usize set \<Rightarrow> (usize \<Rightarrow> usize) \<Rightarrow> usize \<Rightarrow> nat \<Rightarrow> machine \<Rightarrow> bool" where
  "room L A M root n m \<longleftrightarrow>
     (\<exists>t qs. pt_rep root t m \<and> n \<le> length qs \<and> heap_blocks L m qs (pages t) \<and>
        (\<forall>a \<in> A. pg a \<notin> pages t \<and> mem m a = M a \<and> (\<forall>q \<in> set qs. \<not> in_block L q a)))"

lemma pg_pg [simp]: "pg (pg a) = pg a"
  by (simp add: and.assoc)

lemma in_block_pg [simp]: "in_block L q (pg a) = in_block L q a"
  by (simp add: in_block_def)

lemma in_block_self: "pg q = q \<Longrightarrow> 0 < L \<Longrightarrow> pg a = q \<Longrightarrow> in_block L q a"
  by (simp add: in_block_def)

lemma heap_blocks_disjoint:
  assumes "heap_blocks L m (qs @ rs) S" "q \<in> set qs" "q' \<in> set rs" "in_block L q a"
  shows "\<not> in_block L q' a"
  using assms by (auto simp: heap_blocks_def sorted_wrt_append)

lemma heap_blocks_gives:
  assumes "heap_blocks L m qs S" "0 < L"
  shows "heap_gives m qs S"
proof -
  have d: "distinct qs" if "sorted_wrt (\<lambda>q q'. \<forall>a. \<not> (in_block L q a \<and> in_block L q' a)) qs" "\<forall>q \<in> set qs. in_block L q q" for qs
    using that by (induction qs) auto
  have self: "in_block L q q" if "q \<in> set qs" for q
    using in_block_self [of q L q] assms that by (simp add: heap_blocks_def)
  then have "pg q \<notin> S" if "q \<in> set qs" for q using assms(1) that unfolding heap_blocks_def by blast
  then show ?thesis using assms(1) d [of qs] self by (auto simp: heap_blocks_def heap_gives_def)
qed

lemma heap_blocks_rest:
  assumes "heap_blocks L m (qs @ rs) S" "n_alloc m' = n_alloc m + length qs" "heap_script m' = heap_script m"
    "S' \<subseteq> S \<union> set qs" "0 < L"
  shows "heap_blocks L m' rs S'"
proof -
  have n: "heap_script m (n_alloc m + k) = Some ((qs @ rs) ! k)" if "k < length qs + length rs" for k
    using assms(1) that by (simp add: heap_blocks_def)
  have "heap_script m (n_alloc m + length qs + k) = Some (rs ! k)" if "k < length rs" for k
    using n [of "length qs + k"] that by (simp add: add.assoc)
  moreover have "pg a \<notin> S'" if a: "q \<in> set rs" "in_block L q a" for q a
  proof -
    have "pg a \<notin> S" using assms(1) a by (auto simp: heap_blocks_def)
    moreover have "pg a \<notin> set qs"
    proof
      assume q: "pg a \<in> set qs"
      then have "pg (pg a) = pg a" using assms(1) by (auto simp: heap_blocks_def)
      then have "in_block L (pg a) a" using in_block_self [of "pg a" L a] assms(5) by simp
      then show False using heap_blocks_disjoint [OF assms(1) q a(1)] a(2) by simp
    qed
    ultimately show ?thesis using assms(4) by blast
  qed
  ultimately show ?thesis using assms(1-3) by (auto simp: heap_blocks_def sorted_wrt_append)
qed

section \<open>Steps that keep the room\<close>

lemma room_ok: "room L A M root (2 * n) m \<Longrightarrow> 0 < L \<Longrightarrow> pt_ok root n m"
  unfolding room_def pt_ok_def using heap_blocks_gives by blast

lemma room_mono: "room L A M root n m \<Longrightarrow> k \<le> n \<Longrightarrow> room L A M root k m"
  unfolding room_def by (meson le_trans)

lemma pt_rep_frame:
  assumes "pt_rep root t m" "\<And>a. pg a \<in> pages t \<Longrightarrow> mem m' a = mem m a"
  shows "pt_rep root t m'"
proof -
  obtain f where f: "t = Tab root f" "rep_table root f (mem m)" "shallow 3 t" using assms(1) by (auto simp: pt_rep_def)
  have c: "mem m' (entry_add root i) = mem m (entry_add root i)" if "i < 512" for i
    using assms(2) [of "entry_add root i"] pg_entry_add [of root i] f that by (auto simp: rep_table_def)
  have "rep (f i) (mem m') (mem m' (entry_add root i))" if "i < 512" for i
    unfolding c [OF that] by (rule rep_frame [of "f i" "mem m"]) (use f assms(2) that in \<open>auto simp: rep_table_def\<close>)
  then show ?thesis using f c by (auto simp: pt_rep_def rep_table_def)
qed

text \<open>\<open>map\<close> takes at most two blocks for new tables.\<close>

lemma room_map:
  assumes room: "room L A M root (2 * Suc n + c) m" "0 < L" and free: "pt_free root m v" and bits: "flags_ok bits"
  shows "room L A M root (2 * n + c) (map1 root bits v p m)"
proof -
  obtain t qs0 where t: "pt_rep root t m" "2 * Suc n + c \<le> length qs0" "heap_blocks L m qs0 (pages t)"
    "\<And>a. a \<in> A \<Longrightarrow> pg a \<notin> pages t \<and> mem m a = M a \<and> (\<forall>q \<in> set qs0. \<not> in_block L q a)"
    using room(1) unfolding room_def by blast
  have pf: "path_free t (vpath v)" using free pt_rep_unique [OF t(1)] by (auto simp: pt_free_def)
  define k where "k = missing t (vpath v)"
  define qs rs where "qs = take k qs0" and "rs = drop k qs0"
  obtain f where "t = Tab root f" using t(1) by (auto simp: pt_rep_def)
  then have "k \<le> 2" using missing_le [of "f (vpn v 2)" "path_of v [1, 0]"] by (simp add: k_def vpath_def)
  then have k: "length qs = k" "2 * n + c \<le> length rs" "qs0 = qs @ rs" using t(2) by (simp_all add: qs_def rs_def)
  have g: "heap_gives m qs (pages t)"
    using heap_blocks_gives [OF t(3) room(2)] heap_gives_prefix [of m qs rs] k(3) by blast
  obtain m' where m': "map_pt root v p bits 0 m = (Ok () :: (unit, unit) result, m')"
      "pt_rep root (tupdate (vpath v) (leaf_entry p bits) qs t) m'"
      "writes {} (pages t \<union> set qs) (length qs) m m'"
    using map_pt_refines [OF t(1) pf _ g] k(1) bits by (auto simp: k_def flags_ok_def)
  let ?t = "tupdate (vpath v) (leaf_entry p bits) qs t"
  have pages: "pages ?t \<subseteq> pages t \<union> set qs" by (rule pages_tupdate [OF vpath_less(1)])
  have "heap_blocks L m' rs (pages ?t)"
    using heap_blocks_rest [OF t(3) [unfolded k(3)] _ _ pages room(2), of m'] m'(3) by (simp add: writes_def)
  moreover have "pg a \<notin> pages ?t \<and> mem m' a = M a \<and> (\<forall>q \<in> set rs. \<not> in_block L q a)" if a: "a \<in> A" for a
  proof -
    have "pg a \<notin> set qs"
    proof
      assume q: "pg a \<in> set qs"
      then have "in_block L (pg a) a" using t(3) room(2) k(3) by (auto simp: heap_blocks_def in_block_def)
      then show False using t(4) [OF a] q k(3) by auto
    qed
    then show ?thesis using t(4) [OF a] pages m'(3) k(3) by (auto simp: writes_def)
  qed
  moreover have "map1 root bits v p m = m'" using m'(1) by (simp add: map1_def)
  ultimately show ?thesis unfolding room_def using m'(2) k(2) by blast
qed

interpretation img: page_map "v2p root" "map1 root bits"
  "\<lambda>n m. flags_ok bits \<and> 0 < L \<and> room L A M root (2 * n + c) m" "pt_free root" "\<lambda>v w. vpath v = vpath w" for L A M c root bits
proof
  fix n m v p w
  assume ok: "flags_ok bits \<and> 0 < L \<and> room L A M root (2 * Suc n + c) m" and free: "pt_free root m v"
  then have ok': "flags_ok bits \<and> pt_ok root (Suc n) m" using room_ok room_mono [of L A M root "2 * Suc n + c" m "2 * Suc n"] by auto
  show "flags_ok bits \<and> 0 < L \<and> room L A M root (2 * n + c) (map1 root bits v p m)"
    using room_map [OF _ _ free] ok by auto
  show "pt_free root (map1 root bits v p m) w" if "pt_free root m w" by (rule pt.free_ins [OF ok' free that])
  show "v2p root (map1 root bits v p m) w = Some (pg p OR (w AND mask 12))" if "vpath v = vpath w" "p < 2 ^ 56"
    by (rule pt.tr_same [OF ok' free that])
  show "v2p root (map1 root bits v p m) w = v2p root m w" if "vpath v \<noteq> vpath w" by (rule pt.tr_other [OF ok' free that])
qed

text \<open>The part of a block that is used.\<close>

lemma unat_offset: "unat q + unat d < 2 ^ 64 \<Longrightarrow> unat (q + d) = unat q + unat d" for q d :: usize
  by (simp add: unat_word_ariths)

lemma in_block_offset:
  assumes "pg q = q" "unat q + unat L \<le> 2 ^ 56" "d < L"
  shows "in_block L q (q + d)"
proof -
  have d: "unat d < unat L" using assms(3) by (simp add: word_less_nat_alt)
  have u: "unat (q + d) = unat q + unat d" by (rule unat_offset) (use assms(2) d in simp)
  have "unat q div 4096 * 4096 = unat q" using pg_mult [of q] assms(1) by metis
  then have "unat q \<le> unat (pg (q + d))" "unat (pg (q + d)) \<le> unat (q + d)"
    unfolding unat_pg using u by (metis div_le_mono le_add1 mult_le_mono1, simp)
  then have "unat (pg (q + d) - q) \<le> unat d" using u by (simp add: unat_sub word_le_nat_alt)
  then show ?thesis using d by (simp add: in_block_def word_less_nat_alt)
qed

text \<open>A step that writes only inside a protected block changes no translation.\<close>

lemma same_tables:
  assumes "pt_rep root t m" "pt_rep root t m'"
  shows "virt_to_phys root w m' = virt_to_phys root w m" "pt_free root m' v = pt_free root m v"
  using assms virt_to_phys_refines pt_rep_unique by (metis, metis pt_free_def)

lemma room_alloc:
  assumes room: "room L A M root (Suc n) m" "0 < L" and len: "len \<le> L"
  obtains q m1 where "alloc_zeroed (len, al) m = (q, m1)" "pg q = q" "q \<noteq> 0" "unat q + unat L \<le> 2 ^ 56"
    "room L (A \<union> {a. in_block L q a}) (mem m1) root n m1" "\<And>a. a \<in> A \<Longrightarrow> mem m1 a = M a \<and> \<not> in_block L q a"
    "\<And>d. d < len \<Longrightarrow> mem m1 (q + d) = 0"
    "\<And>w. virt_to_phys root w m1 = (virt_to_phys root w m :: ('e, usize option) result)"
    "\<And>v. pt_free root m1 v = pt_free root m v"
proof -
  obtain t qs0 where t0: "pt_rep root t m" "Suc n \<le> length qs0" "heap_blocks L m qs0 (pages t)"
    "\<forall>a \<in> A. pg a \<notin> pages t \<and> mem m a = M a \<and> (\<forall>p \<in> set qs0. \<not> in_block L p a)"
    using room(1) unfolding room_def by blast
  obtain q qs where qs: "qs0 = q # qs" using t0(2) by (cases qs0) auto
  have t: "pt_rep root t m" "n \<le> length qs" "heap_blocks L m (q # qs) (pages t)"
    "\<And>a. a \<in> A \<Longrightarrow> pg a \<notin> pages t \<and> mem m a = M a \<and> (\<forall>p \<in> set (q # qs). \<not> in_block L p a)"
    using t0 unfolding qs by auto
  have q: "heap_script m (n_alloc m) = Some q" "pg q = q" "q \<noteq> 0" "unat q + unat L \<le> 2 ^ 56"
    "\<And>a. in_block L q a \<Longrightarrow> pg a \<notin> pages t"
    using t(3) unfolding heap_blocks_def by (metis add_0_right length_greater_0_conv list.discI nth_Cons_0, simp_all)
  define m1 where "m1 = snd (alloc_zeroed (len, al) m)"
  have m1: "alloc_zeroed (len, al) m = (q, m1)" "mem m1 = (\<lambda>a. if a - q < len then 0 else mem m a)"
    "n_alloc m1 = n_alloc m + length [q]" "heap_script m1 = heap_script m"
    using q(1,3) by (simp_all add: m1_def alloc_zeroed_def alloc_eq cong: if_cong)
  have used: "in_block L q a" if "a - q < len" for a
    using in_block_offset [OF q(2,4), of "a - q"] that len by simp
  have rep: "pt_rep root t m1" by (rule pt_rep_frame [OF t(1)]) (use used q(5) m1(2) in auto)
  have rest: "heap_blocks L m1 qs (pages t)"
    by (rule heap_blocks_rest [of L m "[q]" qs "pages t"]) (use t(3) m1(3,4) room(2) in auto)
  have A: "mem m1 a = M a \<and> \<not> in_block L q a" if "a \<in> A" for a using t(4) [OF that] used m1(2) by auto
  have "\<not> in_block L p a" if "in_block L q a" "p \<in> set qs" for p a
    using heap_blocks_disjoint [of L m "[q]" qs "pages t" q p a] t(3) that by simp
  then have "room L (A \<union> {a. in_block L q a}) (mem m1) root n m1"
    unfolding room_def using rep rest t(2,4) q(5) by (intro exI [of _ t] exI [of _ qs]) auto
  moreover have "mem m1 (q + d) = 0" if "d < len" for d using that m1(2) by simp
  ultimately show ?thesis using that m1(1) q(2-4) A same_tables [OF t(1) rep] by blast
qed

lemma mem_put_byte: "mem (put_byte p b m) a = mem m a" if "a \<noteq> p AND NOT 7"
  using that by (simp add: put_byte_def Let_def)

lemma mem_put_bytes:
  "(\<And>i. i < length bs \<Longrightarrow> a \<noteq> (p + of_nat i) AND NOT 7) \<Longrightarrow> mem (put_bytes p bs m) a = mem m a"
proof (induction bs arbitrary: p m)
  case (Cons b bs)
  have "mem (put_bytes (p + 1) bs (put_byte p b m)) a = mem (put_byte p b m) a"
    by (rule Cons.IH) (use Cons.prems [of "Suc _"] in \<open>simp add: add.assoc\<close>)
  then show ?case using Cons.prems [of 0] mem_put_byte by simp
qed simp

lemma pg_cell: "pg (a AND NOT 7) = pg a"
  by (auto intro!: bit_word_eqI simp: bit_simps bit_7)

lemma room_put:
  assumes room: "room L A M root n m" "\<And>a. in_block L q a \<Longrightarrow> a \<in> A" "pg q = q" "unat q + unat L \<le> 2 ^ 56"
    and bs: "length bs \<le> unat L"
  defines "m' \<equiv> put_bytes q bs m"
  shows "room L A (mem m') root n m'" "\<And>a. \<not> in_block L q a \<Longrightarrow> mem m' a = mem m a"
    "\<And>w. virt_to_phys root w m' = (virt_to_phys root w m :: (unit, usize option) result)"
    "\<And>v. pt_free root m' v = pt_free root m v"
proof -
  obtain t qs where t: "pt_rep root t m" "n \<le> length qs" "heap_blocks L m qs (pages t)"
    "\<And>a. a \<in> A \<Longrightarrow> pg a \<notin> pages t \<and> mem m a = M a \<and> (\<forall>p \<in> set qs. \<not> in_block L p a)"
    using room(1) unfolding room_def by blast
  have L: "unat L < 2 ^ 64" using room(4) by simp
  show mem: "mem m' a = mem m a" if a: "\<not> in_block L q a" for a
    unfolding m'_def
  proof (rule mem_put_bytes)
    fix i assume i: "i < length bs"
    then have "unat (of_nat i :: usize) = i" using bs L by (simp add: unat_of_nat)
    then have "(of_nat i :: usize) < L" using i bs by (simp add: word_less_nat_alt)
    then have "in_block L q ((q + of_nat i) AND NOT 7)"
      using in_block_offset [OF room(3,4)] unfolding in_block_def pg_cell by blast
    then show "a \<noteq> (q + of_nat i) AND NOT 7" using a by blast
  qed
  have rep: "pt_rep root t m'" by (rule pt_rep_frame [OF t(1)]) (use mem t(4) room(2) in blast)
  have "heap_blocks L m' qs (pages t)" using t(3) by (simp add: heap_blocks_def m'_def)
  then show "room L A (mem m') root n m'" unfolding room_def using rep t(2,4) by blast
  show "virt_to_phys root w m' = (virt_to_phys root w m :: (unit, usize option) result)" "pt_free root m' v = pt_free root m v" for w v
    using same_tables [OF t(1) rep] by auto
qed

lemma room_map_range:
  assumes room: "room L A M root (2 * n + c) m" "0 < L" and bits: "flags_ok bits" and free: "pt_all_free root m"
    and n: "n = (unat sz + 4095) div 4096" "n \<le> 2 ^ 27" and p: "unat (pg paddr) + 4096 * n \<le> 2 ^ 56"
  obtains m' where "map_range root vaddr paddr sz bits m = (Ok () :: ('e, unit) result, m')" "room L A M root c m'"
    "pt_all_free root m'"
    "\<And>k w. k < n \<Longrightarrow> vpno w = vpno (pg vaddr + 4096 * of_nat k) \<Longrightarrow>
      virt_to_phys root w m' = (Ok (Some ((pg paddr + 4096 * of_nat k) OR (w AND mask 12))) :: ('f, usize option) result)"
    "\<And>w. \<forall>k < n. vpno w \<noteq> vpno (pg vaddr + 4096 * of_nat k) \<Longrightarrow>
      virt_to_phys root w m' = (virt_to_phys root w m :: ('f, usize option) result)"
proof -
  have ok: "pt_ok root n m" using room_ok [OF room_mono [OF room(1)] room(2)] by simp
  have fr: "pt_free root m v" for v using free by (simp add: pt_all_free_def)
  note r = map_range_maps [OF ok bits fr n p]
  let ?m' = "pt.ins_pages root bits n (pg vaddr) (pg paddr) m"
  have "room L A M root c ?m'"
    using img.ins_pages_ok [of bits L A M root n 0 c m "pg vaddr" "pg paddr"] room bits fr by simp
  moreover have "pt_all_free root ?m'" by (rule ins_pages_free [OF bits ok free])
  ultimately show ?thesis using that [of ?m'] r(1) r(2) r(3) by blast
qed

section \<open>One segment\<close>

definition seg_pages :: "ProgramHeader \<Rightarrow> nat" where
  "seg_pages ph = (unat (range_len (ph_vm_range ph)) + 4095) div 4096"

definition seg_page_nos :: "ProgramHeader \<Rightarrow> nat set" where
  "seg_page_nos ph = (\<lambda>k. vpno (fst (ph_vm_range ph) + 4096 * of_nat k)) ` {..<seg_pages ph}"

text \<open>A segment that starts at a page, fits into a block and has its bytes in the file.\<close>

definition seg_ok :: "usize \<Rightarrow> u8 list \<Rightarrow> ProgramHeader \<Rightarrow> bool" where
  "seg_ok L bin ph \<longleftrightarrow>
     pg (fst (ph_vm_range ph)) = fst (ph_vm_range ph) \<and> range_len (ph_vm_range ph) \<le> L \<and>
     fst (ph_file_range ph) \<le> snd (ph_file_range ph) \<and> unat (snd (ph_file_range ph)) \<le> length bin \<and>
     snd (ph_file_range ph) - fst (ph_file_range ph) \<le> range_len (ph_vm_range ph)"

text \<open>The byte a segment has at an offset: from the file, or zero.\<close>

definition seg_byte :: "u8 list \<Rightarrow> ProgramHeader \<Rightarrow> nat \<Rightarrow> u8" where
  "seg_byte bin ph i =
     (if i < unat (snd (ph_file_range ph) - fst (ph_file_range ph)) then bin ! (unat (fst (ph_file_range ph)) + i) else 0)"

definition loaded :: "usize \<Rightarrow> u8 list \<Rightarrow> machine \<Rightarrow> ProgramHeader \<Rightarrow> bool" where
  "loaded root bin m ph \<longleftrightarrow>
     (\<forall>i < unat (range_len (ph_vm_range ph)). \<exists>pa.
        virt_to_phys root (fst (ph_vm_range ph) + of_nat i) m = (Ok (Some pa) :: (unit, usize option) result) \<and>
        byte_at pa m = seg_byte bin ph i)"

lemma range_end:
  assumes "i < unat (range_len r)"
  shows "unat (fst r + of_nat i) = unat (fst r) + i" "unat (fst r) + i < 2 ^ 64"
proof -
  have lt: "fst r < snd r" using assms by (auto simp: range_len_def split: if_splits)
  then have "unat (range_len r) = unat (snd r) - unat (fst r)" by (simp add: range_len_def unat_sub)
  then show b: "unat (fst r) + i < 2 ^ 64" using assms unsigned_less [where ?'b = 64 and ?'a = nat, of "snd r"] by simp
  then show "unat (fst r + of_nat i) = unat (fst r) + i" by (simp add: unat_word_ariths unat_of_nat)
qed

lemma unat_and_mask12: "unat (x AND mask 12 :: usize) = unat x mod 4096"
proof -
  have "unat (take_bit 12 x) = unat x mod 4096" by (simp only: unsigned_take_bit_eq) (simp add: take_bit_eq_mod)
  then show ?thesis by (simp only: take_bit_eq_mask)
qed

text \<open>The frame of a page and the offset in it are the address in the block.\<close>

lemma frame_offset:
  assumes v: "pg v = v" "unat (v + of_nat i) = unat v + i" and q: "pg q = q" "unat q + i < 2 ^ 64"
  shows "vpno (v + of_nat i) = vpno (v + 4096 * of_nat (i div 4096))"
    and "(pg q + 4096 * of_nat (i div 4096)) OR ((v + of_nat i) AND mask 12) = q + of_nat i"
proof -
  have uv: "unat v div 4096 * 4096 = unat v" and uq: "unat q div 4096 * 4096 = unat q"
    using pg_mult [of v] pg_mult [of q] v(1) q(1) by metis+
  obtain a b where c: "unat v = a * 4096" "unat q = b * 4096" using uv uq by metis
  have uqi: "unat (q + of_nat i) = unat q + i" using q(2) by (simp add: unat_word_ariths unat_of_nat)
  have "vpno (v + of_nat i) = (unat v + i) div 4096 mod 2 ^ 27" unfolding vpno_def v(2) ..
  also have "(unat v + i) div 4096 = unat v div 4096 + i div 4096" using c(1) by simp
  finally show "vpno (v + of_nat i) = vpno (v + 4096 * of_nat (i div 4096))" by (simp only: vpno_add)
  have "pg (q + of_nat i) = q + 4096 * of_nat (i div 4096)"
  proof -
    have "4096 * (i div 4096) \<le> i" by simp
    then have "unat q + 4096 * (i div 4096) < 2 ^ 64" using q(2) by linarith
    then have "unat (q + 4096 * of_nat (i div 4096)) = unat q + 4096 * (i div 4096)"
      by (simp add: unat_word_ariths unat_of_nat mod_simps)
    moreover have "(unat q + i) div 4096 * 4096 = unat q + 4096 * (i div 4096)"
      using c(2) by (simp add: add_mult_distrib)
    ultimately show ?thesis unfolding word_unat_eq_iff unat_pg uqi by simp
  qed
  moreover have "(v + of_nat i) AND mask 12 = (q + of_nat i) AND mask 12"
    unfolding word_unat_eq_iff unat_and_mask12 uqi v(2) using c by simp
  ultimately show "(pg q + 4096 * of_nat (i div 4096)) OR ((v + of_nat i) AND mask 12) = q + of_nat i"
    using pg_or_mask [of "q + of_nat i"] q(1) by simp
qed

text \<open>The cell of a byte in a block whose bytes are zero.\<close>

lemma byte_at_zero:
  assumes "pg q = q" "unat q + unat len < 2 ^ 64" "i < unat len" "\<And>d. d < len \<Longrightarrow> mem m (q + d) = 0"
  shows "byte_at (q + of_nat i) m = 0"
proof -
  let ?c = "(q + of_nat i) AND NOT 7"
  have cell: "unat (x AND NOT 7) = unat x div 8 * 8" for x :: usize
  proof -
    have "x AND NOT 7 = push_bit 3 (drop_bit 3 x)" by (auto intro!: bit_word_eqI simp: bit_simps bit_7)
    then have "x AND NOT 7 = x div 8 * 8" by (simp add: push_bit_eq_mult drop_bit_eq_div)
    moreover have "unat x div 8 * 8 < 2 ^ 64" using unsigned_less [where ?'b = 64 and ?'a = nat, of x] by simp
    ultimately show ?thesis by (simp only:) (simp add: unat_word_ariths unat_div)
  qed
  have "unat q div 4096 * 4096 = unat q" using pg_mult [of q] assms(1) by metis
  then obtain b where b: "unat q = b * 4096" by metis
  have "unat (q + of_nat i) = unat q + i" using assms(2,3) by (simp add: unat_word_ariths unat_of_nat)
  moreover have "(b * 4096 + i) div 8 * 8 = b * 4096 + i div 8 * 8"
  proof -
    have e: "b * 4096 + i = (b * 512) * 8 + i" by simp
    show ?thesis unfolding e by (subst div_mult_self3) (simp_all add: add_mult_distrib)
  qed
  ultimately have "unat ?c = unat q + i div 8 * 8" unfolding cell using b by simp
  then have "unat (?c - q) = i div 8 * 8" by (simp add: unat_sub word_le_nat_alt)
  then have "?c - q < len" using assms(3) by (simp add: word_less_nat_alt)
  then have "mem m (q + (?c - q)) = 0" by (rule assms(4))
  then have "mem m ?c = 0" by simp
  then show ?thesis unfolding byte_at_def by simp
qed

lemma byte_at_cong: "mem m' (a AND NOT 7) = mem m (a AND NOT 7) \<Longrightarrow> byte_at a m' = byte_at a m"
  by (simp add: byte_at_def)

lemma load_one:
  assumes room: "room L A M root (Suc (2 * seg_pages ph + c)) m" and L: "0 < L" "pg L = L" "unat L \<le> 2 ^ 38"
    and free: "pt_all_free root m" and ph: "seg_ok L bin ph"
  defines "len \<equiv> range_len (ph_vm_range ph)" and "v \<equiv> fst (ph_vm_range ph)"
  obtains q m1 m2 bytes where "alloc_zeroed (len, 0x1000) m = (q, m1)"
    "map_range root v q len SEGMENT_FLAGS m1 = (Ok () :: ('e, unit) result, m2)" "slice (ph_file_range ph) bin = Some bytes"
    "room L (A \<union> {a. in_block L q a}) (mem (put_bytes q bytes m2)) root c (put_bytes q bytes m2)"
    "pt_all_free root (put_bytes q bytes m2)" "\<And>a. a \<in> A \<Longrightarrow> mem (put_bytes q bytes m2) a = M a"
    "\<And>w. vpno w \<notin> seg_page_nos ph \<Longrightarrow>
      virt_to_phys root w (put_bytes q bytes m2) = (virt_to_phys root w m :: (unit, usize option) result)"
    "\<And>i. i < unat len \<Longrightarrow> virt_to_phys root (v + of_nat i) (put_bytes q bytes m2) =
        (Ok (Some (q + of_nat i)) :: (unit, usize option) result) \<and>
      in_block L q (q + of_nat i) \<and> byte_at (q + of_nat i) (put_bytes q bytes m2) = seg_byte bin ph i"
proof -
  have ph': "pg v = v" "len \<le> L" "fst (ph_file_range ph) \<le> snd (ph_file_range ph)"
    "unat (snd (ph_file_range ph)) \<le> length bin" "snd (ph_file_range ph) - fst (ph_file_range ph) \<le> len"
    using ph by (simp_all add: seg_ok_def len_def v_def)
  obtain q m1 where a: "alloc_zeroed (len, 0x1000) m = (q, m1)" "pg q = q" "q \<noteq> 0" "unat q + unat L \<le> 2 ^ 56"
    "room L (A \<union> {a. in_block L q a}) (mem m1) root (2 * seg_pages ph + c) m1"
    "\<And>a. a \<in> A \<Longrightarrow> mem m1 a = M a \<and> \<not> in_block L q a" "\<And>d. d < len \<Longrightarrow> mem m1 (q + d) = 0"
    "\<And>w. virt_to_phys root w m1 = (virt_to_phys root w m :: (unit, usize option) result)"
    "\<And>v. pt_free root m1 v = pt_free root m v"
    using room_alloc [OF room L(1) ph'(2), of "0x1000"] by metis
  have lenL: "unat len \<le> unat L" using ph'(2) by (simp add: word_le_nat_alt)
  obtain b where b: "unat L = b * 4096" using pg_mult [of L] L(2) by metis
  have n: "4096 * seg_pages ph \<le> unat L"
    using lenL b unfolding seg_pages_def len_def by (simp add: mult.commute)
  have np: "seg_pages ph = (unat len + 4095) div 4096" "seg_pages ph \<le> 2 ^ 27" "unat (pg q) + 4096 * seg_pages ph \<le> 2 ^ 56"
    using n L(3) a(2,4) by (simp_all add: seg_pages_def len_def)
  have bits: "flags_ok SEGMENT_FLAGS" by (simp add: flags_ok_def SEGMENT_FLAGS_def)
  have free1: "pt_all_free root m1" using free a(9) by (simp add: pt_all_free_def)
  obtain m2 where m2: "map_range root v q len SEGMENT_FLAGS m1 = (Ok () :: ('e, unit) result, m2)"
    "room L (A \<union> {a. in_block L q a}) (mem m1) root c m2" "pt_all_free root m2"
    "\<And>k w. k < seg_pages ph \<Longrightarrow> vpno w = vpno (pg v + 4096 * of_nat k) \<Longrightarrow>
      virt_to_phys root w m2 = (Ok (Some ((pg q + 4096 * of_nat k) OR (w AND mask 12))) :: (unit, usize option) result)"
    "\<And>w. \<forall>k < seg_pages ph. vpno w \<noteq> vpno (pg v + 4096 * of_nat k) \<Longrightarrow>
      virt_to_phys root w m2 = (virt_to_phys root w m1 :: (unit, usize option) result)"
    by (rule room_map_range [OF a(5) L(1) bits free1 np, of v]) (rule that)
  define bytes where "bytes = take (unat (snd (ph_file_range ph) - fst (ph_file_range ph))) (drop (unat (fst (ph_file_range ph))) bin)"
  have flen: "unat (snd (ph_file_range ph) - fst (ph_file_range ph)) = unat (snd (ph_file_range ph)) - unat (fst (ph_file_range ph))"
    using ph'(3) by (simp add: unat_sub)
  have lb: "length bytes = unat (snd (ph_file_range ph) - fst (ph_file_range ph))"
    using ph'(4) flen by (simp add: bytes_def)
  then have bL: "length bytes \<le> unat L" using ph'(5) lenL by (simp add: word_le_nat_alt)
  let ?m3 = "put_bytes q bytes m2"
  note put = room_put [OF m2(2) _ a(2,4) bL]
  have keep: "mem m2 x = mem m1 x" if "x \<in> A \<or> in_block L q x" for x using m2(2) that by (auto simp: room_def)
  have q64: "unat q + unat len < 2 ^ 64" using a(4) lenL by simp
  have img: "virt_to_phys root (v + of_nat i) ?m3 = (Ok (Some (q + of_nat i)) :: (unit, usize option) result) \<and>
      in_block L q (q + of_nat i) \<and> byte_at (q + of_nat i) ?m3 = seg_byte bin ph i" if i: "i < unat len" for i
  proof (intro conjI)
    have vi: "unat (v + of_nat i) = unat v + i" using range_end(1) [of i "ph_vm_range ph"] i by (simp add: len_def v_def)
    have "i div 4096 < seg_pages ph" using i by (simp add: seg_pages_def len_def)
    then have "virt_to_phys root (v + of_nat i) m2 = (Ok (Some (q + of_nat i)) :: (unit, usize option) result)"
      using m2(4) [of "i div 4096" "v + of_nat i"] frame_offset [OF ph'(1) vi a(2)] q64 i ph'(1) by simp
    then show "virt_to_phys root (v + of_nat i) ?m3 = (Ok (Some (q + of_nat i)) :: (unit, usize option) result)"
      using put(3) by simp
    have oi: "unat (of_nat i :: usize) = i" using i q64 by (simp add: unat_of_nat)
    have "of_nat i < len" using i oi by (simp add: word_less_nat_alt)
    then show blk: "in_block L q (q + of_nat i)" using in_block_offset [OF a(2,4)] ph'(2) by (meson less_le_trans)
    have "byte_at (q + of_nat i) m2 = byte_at (q + of_nat i) m1"
      by (rule byte_at_cong, rule keep, rule disjI2) (use blk in \<open>simp only: in_block_def pg_cell\<close>)
    also have "\<dots> = 0" by (rule byte_at_zero [OF a(2) q64 i a(7)])
    finally show "byte_at (q + of_nat i) ?m3 = seg_byte bin ph i"
      using bL oi lb ph'(4) flen unsigned_less [where ?'b = 64 and ?'a = nat, of L]
      by (auto simp: byte_at_put_bytes seg_byte_def bytes_def)
  qed
  show ?thesis
  proof (rule that [OF a(1) m2(1), of bytes])
    show "slice (ph_file_range ph) bin = Some bytes" using ph'(3,4) by (simp add: slice_def bytes_def)
    show "room L (A \<union> {a. in_block L q a}) (mem ?m3) root c ?m3" by (rule put(1)) simp
    show "pt_all_free root ?m3" using m2(3) put(4) by (simp add: pt_all_free_def)
    show "mem ?m3 x = M x" if "x \<in> A" for x using put(2) [of x] keep [of x] a(6) [OF that] that by simp
    show "virt_to_phys root w ?m3 = (virt_to_phys root w m :: (unit, usize option) result)" if w: "vpno w \<notin> seg_page_nos ph" for w
    proof -
      have "vpno w \<noteq> vpno (pg v + 4096 * of_nat k)" if "k < seg_pages ph" for k
        using w that ph'(1) by (auto simp: seg_page_nos_def v_def)
      then show ?thesis using m2(5) [of w] a(8) put(3) by simp
    qed
  qed (use img in auto)
qed

section \<open>All segments\<close>

text \<open>Blocks for the buffers and the tables of a list of segments.\<close>

definition blocks_needed :: "ProgramHeader list \<Rightarrow> nat" where
  "blocks_needed phs = (\<Sum>ph \<leftarrow> phs. Suc (2 * seg_pages ph))"

lemma load_segments_room:
  assumes "room L A M root (blocks_needed phs + c) (mach K)" "0 < L" "pg L = L" "unat L \<le> 2 ^ 38"
    "pt_all_free root (mach K)" "\<forall>ph \<in> set phs. seg_ok L bin ph"
    "sorted_wrt (\<lambda>ph ph'. seg_page_nos ph \<inter> seg_page_nos ph' = {}) phs"
  shows "\<exists>segs K'. load_segments root bin phs K = Done (Ok segs) K' \<and>
    (\<forall>a \<in> A. mem (mach K') a = M a) \<and> (\<forall>ph \<in> set phs. loaded root bin (mach K') ph) \<and>
    (\<forall>w. (\<forall>ph \<in> set phs. vpno w \<notin> seg_page_nos ph) \<longrightarrow>
       virt_to_phys root w (mach K') = (virt_to_phys root w (mach K) :: (unit, usize option) result))"
  using assms
proof (induction phs arbitrary: A M K)
  case Nil
  then show ?case by (auto simp: ret_def room_def)
next
  case (Cons ph phs)
  let ?len = "range_len (ph_vm_range ph)" and ?v = "fst (ph_vm_range ph)"
  have r: "room L A M root (Suc (2 * seg_pages ph + (blocks_needed phs + c))) (mach K)"
    using Cons.prems(1) by (simp add: blocks_needed_def algebra_simps)
  have sk: "seg_ok L bin ph" using Cons.prems(6) by simp
  obtain q m1 m2 bytes where one: "alloc_zeroed (?len, 0x1000) (mach K) = (q, m1)"
    "map_range root ?v q ?len SEGMENT_FLAGS m1 = (Ok () :: (Error, unit) result, m2)" "slice (ph_file_range ph) bin = Some bytes"
    "room L (A \<union> {a. in_block L q a}) (mem (put_bytes q bytes m2)) root (blocks_needed phs + c) (put_bytes q bytes m2)"
    "pt_all_free root (put_bytes q bytes m2)" "\<And>a. a \<in> A \<Longrightarrow> mem (put_bytes q bytes m2) a = M a"
    "\<And>w. vpno w \<notin> seg_page_nos ph \<Longrightarrow>
      virt_to_phys root w (put_bytes q bytes m2) = (virt_to_phys root w (mach K) :: (unit, usize option) result)"
    "\<And>i. i < unat ?len \<Longrightarrow> virt_to_phys root (?v + of_nat i) (put_bytes q bytes m2) =
        (Ok (Some (q + of_nat i)) :: (unit, usize option) result) \<and>
      in_block L q (q + of_nat i) \<and> byte_at (q + of_nat i) (put_bytes q bytes m2) = seg_byte bin ph i"
    by (rule load_one [OF r Cons.prems(2-5) sk]) (rule that)
  let ?K = "with_mach (put_bytes q bytes m2) K"
  obtain segs K' where rest: "load_segments root bin phs ?K = Done (Ok segs) K'"
    "\<forall>a \<in> A \<union> {a. in_block L q a}. mem (mach K') a = mem (put_bytes q bytes m2) a"
    "\<forall>ph \<in> set phs. loaded root bin (mach K') ph"
    "\<forall>w. (\<forall>ph \<in> set phs. vpno w \<notin> seg_page_nos ph) \<longrightarrow>
       virt_to_phys root w (mach K') = (virt_to_phys root w (mach ?K) :: (unit, usize option) result)"
    using Cons.IH [of "A \<union> {a. in_block L q a}" "mem (put_bytes q bytes m2)" ?K] one(4,5) Cons.prems(2-4,6,7) by auto
  have "unat ?len \<le> 2 ^ 38" using Cons.prems(4,6) by (auto simp: seg_ok_def word_le_nat_alt)
  then have "?len \<le> 2 ^ 63 - 0x1000" by (simp add: word_le_nat_alt)
  then have run: "load_segments root bin (ph # phs) K =
      Done (Ok (\<lparr>seg_ptr = q, seg_layout = (?len, 0x1000), seg_vm_range = ph_vm_range ph, seg_flags = SEGMENT_FLAGS\<rparr> # segs)) K'"
    using one(1-3) rest(1)
    by (simp add: from_size_align_def Let_def bind_def seq_def on_heap_eq on_hw_eq ret_def)
  have "loaded root bin (mach K') ph"
    unfolding loaded_def
  proof (intro allI impI exI conjI)
    fix i assume i: "i < unat ?len"
    have "pg ?v = ?v" using sk by (simp add: seg_ok_def)
    then have "vpno (?v + of_nat i) = vpno (?v + 4096 * of_nat (i div 4096))"
      by (rule frame_offset(1) [where q = 0]) (use range_end [OF i] in simp_all)
    moreover have "i div 4096 < seg_pages ph" using i by (simp add: seg_pages_def)
    ultimately have "vpno (?v + of_nat i) \<in> seg_page_nos ph" unfolding seg_page_nos_def by blast
    then have "\<forall>ph' \<in> set phs. vpno (?v + of_nat i) \<notin> seg_page_nos ph'" using Cons.prems(7) by auto
    then show "virt_to_phys root (?v + of_nat i) (mach K') = (Ok (Some (q + of_nat i)) :: (unit, usize option) result)"
      using rest(4) one(8) [OF i] by simp
    have "in_block L q ((q + of_nat i) AND NOT 7)" using one(8) [OF i] by (simp only: in_block_def pg_cell)
    then have "byte_at (q + of_nat i) (mach K') = byte_at (q + of_nat i) (put_bytes q bytes m2)"
      using rest(2) by (intro byte_at_cong) blast
    then show "byte_at (q + of_nat i) (mach K') = seg_byte bin ph i" using one(8) [OF i] by simp
  qed
  then show ?case using run rest(2-4) one(6,7) by auto
qed

section \<open>Properties\<close>


lemma heap_blocks_of_pages:
  assumes "heap_gives m qs S" "\<forall>q \<in> set qs. unat q + 4096 \<le> 2 ^ 56"
  shows "heap_blocks 0x1000 m qs S"
proof -
  have one: "in_block 0x1000 q a \<longleftrightarrow> pg a = q" if "pg q = q" for q a
    using pg_block [OF that, of "pg a"] by (simp add: in_block_def)
  have "sorted_wrt (\<lambda>q q'. \<forall>a. \<not> (in_block 0x1000 q a \<and> in_block 0x1000 q' a)) qs"
    using assms(1) unfolding heap_gives_def
    by (simp add: sorted_wrt_iff_nth_less one nth_eq_iff_index_eq)
  then show ?thesis using assms one by (simp add: heap_blocks_def heap_gives_def)
qed

definition demo_header :: ProgramHeader where
  "demo_header = \<lparr>ph_vm_range = (0x10000, 0x10010), ph_file_range = (1, 3)\<rparr>"


end
