(* ===== verification/Syscall.thy ===== *)
theory Syscall
  imports Loader Trap
begin

text \<open>
  System calls (\<open>src/src/arch/riscv64/syscall.rs\<close>): the arguments from the trap frame and through the page table of
  the calling process, the twelve calls and their dispatch. What they need of the world is a parameter: the disk with
  a bound for the file system's loops, the parser of executables, the drawing library, the entry points and the address of
  the console.
\<close>

record call_env =
  ce_fuel :: nat
  ce_disk :: disk
  ce_goblin :: goblin
  ce_graphics :: embedded_graphics
  ce_entry :: entry_points
  ce_self_ptr :: "usize \<Rightarrow> usize"
  ce_uart :: usize

section \<open>Arguments\<close>

definition running_process :: "Process sop" where
  "running_process = bind (gets (\<lambda>K. running (k_pm K))) (\<lambda>pid. expect ''unwrap on Err'' (on_pm (get_process pid)))"

text \<open>\<open>syscall_info\<close>: the trap frame of the caller.\<close>

definition syscall_info :: "usize sop" where
  "syscall_info = bind running_process (\<lambda>p. ret (trap_frame (arch_proc p)))"

definition arg_regs :: "Reg list" where
  "arg_regs = [A0, A1, A2, A3, A4, A5, A6, A7]"

definition get_arg_raw :: "usize \<Rightarrow> nat \<Rightarrow> usize sop" where
  "get_arg_raw info idx =
     (if idx < length arg_regs then on_machine (\<lambda>m. (tf_get info (TF_reg (arg_regs ! idx)) m, m))
      else panic ''syscall arg number out of index'')"

definition get_arg_ptr :: "usize \<Rightarrow> nat \<Rightarrow> usize sop" where
  "get_arg_ptr info idx =
     bind (get_arg_raw info idx) (\<lambda>arg.
     bind running_process (\<lambda>p.
     bind (on_pm (on_hw (\<lambda>m. (virt_to_phys (page_table (arch_proc p)) arg m, m)))) (\<lambda>r.
     case r of None \<Rightarrow> panic ''unwrap on None'' | Some ptr \<Rightarrow> ret ptr)))"

text \<open>The loop that collects a path. Without a zero byte in all of the address space it does not end.\<close>

definition path_at :: "usize \<Rightarrow> string sop" where
  "path_at p = bind (on_machine (\<lambda>m. (c_string (2 ^ 64) p m, m))) (\<lambda>r.
     case r of None \<Rightarrow> panic ''endless loop'' | Some s \<Rightarrow> ret s)"

text \<open>\<open>-1_isize as usize\<close> for an error.\<close>

definition or_minus_1 :: "(Error, usize) result \<Rightarrow> usize sop" where
  "or_minus_1 r = (case r of Ok v \<Rightarrow> ret v | Err _ \<Rightarrow> ret (- 1) | Panic m \<Rightarrow> panic m)"

section \<open>The calls\<close>

definition sys_read :: "call_env \<Rightarrow> usize \<Rightarrow> usize \<Rightarrow> usize \<Rightarrow> usize sop" where
  "sys_read env fd buf cnt =
     (if fd = 0 \<or> fd = 1 \<or> fd = 2 then ret 0
      else
        bind (on_machine (\<lambda>m. (mem_bytes buf (unat cnt) m, m))) (\<lambda>slice.
        bind (on_fs (fs_read (fat_read_at (ce_fuel env) (ce_disk env)) fd slice)) (\<lambda>res.
        case res of
          Ok (n, slice') \<Rightarrow> seq (on_machine (\<lambda>m. ((), put_bytes buf slice' m))) (ret n)
        | Err _ \<Rightarrow> ret (- 1)
        | Panic m \<Rightarrow> panic m)))"

definition sys_write :: "call_env \<Rightarrow> usize \<Rightarrow> usize \<Rightarrow> usize \<Rightarrow> usize sop" where
  "sys_write env fd buf cnt =
     bind (on_machine (\<lambda>m. (mem_bytes buf (unat cnt) m, m))) (\<lambda>bytes.
     seq (upd_drv (\<lambda>y. y\<lparr>sy_uart := fold (\<lambda>b. write_str (ce_uart env) [as_char b]) bytes (sy_uart y)\<rparr>))
         (ret 0))"

definition sys_seek :: "usize \<Rightarrow> usize \<Rightarrow> u32 \<Rightarrow> usize sop" where
  "sys_seek fd off whence = bind (on_fs (seek fd off whence)) or_minus_1"

definition sys_open :: "call_env \<Rightarrow> usize \<Rightarrow> usize sop" where
  "sys_open env p =
     bind (path_at p) (\<lambda>path_str.
     bind (on_fs (open_file (fat_file_size (ce_fuel env) (ce_disk env)) path_str)) or_minus_1)"

definition sys_sleep :: "usize \<Rightarrow> usize sop" where
  "sys_sleep delay =
     bind running_process (\<lambda>p.
     seq (expect ''process'' (on_pm (sleep (p_pid p) delay))) (ret 0))"

definition sys_wait_exit :: "usize sop" where
  "sys_wait_exit = seq (expect ''process'' (on_pm wait_exit)) (ret 0)"

definition sys_fork :: "usize sop" where
  "sys_fork =
     bind (gets (\<lambda>K. running (k_pm K))) (\<lambda>r.
     bind (on_pm (fork r)) (\<lambda>pid.
     bind (expect ''unwrap on Err'' (on_pm (get_process pid))) (\<lambda>p.
     let tf = trap_frame (arch_proc p)
     in seq (on_machine (\<lambda>m. ((), tf_set tf (TF_reg A0) pid m)))
       (seq (on_machine (\<lambda>m. ((), tf_set tf TF_epc (tf_get tf TF_epc m + 4) m)))
       (seq (expect ''process'' (on_pm (ready pid)))
            (ret 0))))))"

definition sys_kill :: "usize sop" where
  "sys_kill = bind running_process (\<lambda>p. seq (expect ''process'' (on_pm (kill (p_pid p)))) (ret 0))"

text \<open>\<open>sys_execve\<close> ends in \<open>user_trap_return\<close>, which does not come back.\<close>

definition sys_execve :: "call_env \<Rightarrow> usize \<Rightarrow> (usize \<times> usize \<times> usize) sop" where
  "sys_execve env p =
     bind (gets (\<lambda>K. running (k_pm K))) (\<lambda>r.
     seq (expect ''process'' (on_pm (setup_process (ce_entry env) (ce_self_ptr env) r)))
    (bind (path_at p) (\<lambda>path_str.
     bind (gets (\<lambda>K. running (k_pm K))) (\<lambda>r'.
     seq (expect ''process'' (load_program (ce_fuel env) (ce_disk env) (ce_goblin env) r' path_str))
    (bind (gets (\<lambda>K. running (k_pm K))) (user_trap_return (ce_entry env) (ce_self_ptr env)))))))"

definition sys_create_window :: "call_env \<Rightarrow> usize \<Rightarrow> usize \<Rightarrow> usize \<Rightarrow> usize \<Rightarrow> usize \<Rightarrow> usize \<Rightarrow> usize sop" where
  "sys_create_window env title title_len x y width height =
     bind (on_machine (\<lambda>m. (map as_char (mem_bytes title (unat title_len) m), m))) (\<lambda>title_str.
     bind (on_gfx (\<lambda>g. case create_window gpu_painter title_str (ucast x) (ucast y) (ucast width) (ucast height) g of
             (wid, g') \<Rightarrow> (Ok wid, g'))) (\<lambda>wid.
     seq (on_gfx (show_window gpu_painter (ce_graphics env) wid))
         (ret wid)))"

definition sys_map_window :: "usize \<Rightarrow> usize \<Rightarrow> usize sop" where
  "sys_map_window window_id vaddr =
     bind running_process (\<lambda>p.
     bind (gets (\<lambda>K. arena_get (arena (sy_gfx (k_drv K))) window_id)) (\<lambda>window.
     case window of
       None \<Rightarrow> ret 1
     | Some obj \<Rightarrow>
         (case downcast_window (object_as_any obj) of
            None \<Rightarrow> panic ''unwrap on None''
          | Some w \<Rightarrow>
              let size = fb_width (w_frame w) * 4 * fb_height (w_frame w)
              in seq (on_pm (on_hw (map_range (page_table (arch_proc p)) vaddr (fb_buffer (w_frame w)) (ucast size)
                        (eb_val EB_R OR eb_val EB_W OR eb_val EB_U))))
                     (ret 0))))"

definition sys_sync_window :: "usize \<Rightarrow> usize sop" where
  "sys_sync_window window_id = seq (on_gfx (update_window_frame gpu_painter window_id)) (ret 0)"

section \<open>Dispatch\<close>

definition returned :: "usize sop \<Rightarrow> syscall_end sop" where
  "returned f = bind f (\<lambda>v. ret (Returned v))"

definition execute_syscall :: "call_env \<Rightarrow> syscall_end sop" where
  "execute_syscall env =
     bind syscall_info (\<lambda>info.
     bind (get_arg_raw info 0) (\<lambda>syscall_number.
     if syscall_number = 0 then
       bind (get_arg_raw info 1) (\<lambda>fd. bind (get_arg_ptr info 2) (\<lambda>buf. bind (get_arg_raw info 3) (\<lambda>cnt.
       returned (sys_read env fd buf cnt))))
     else if syscall_number = 1 then
       bind (get_arg_raw info 1) (\<lambda>fd. bind (get_arg_ptr info 2) (\<lambda>buf. bind (get_arg_raw info 3) (\<lambda>cnt.
       returned (sys_write env fd buf cnt))))
     else if syscall_number = 2 then
       bind (get_arg_raw info 1) (\<lambda>fd. bind (get_arg_raw info 2) (\<lambda>off. bind (get_arg_raw info 3) (\<lambda>whence.
       returned (sys_seek fd off (ucast whence)))))
     else if syscall_number = 3 then bind (get_arg_ptr info 1) (\<lambda>p. returned (sys_open env p))
     else if syscall_number = 35 then bind (get_arg_raw info 1) (\<lambda>delay. returned (sys_sleep delay))
     else if syscall_number = 56 then returned sys_wait_exit
     else if syscall_number = 57 then returned sys_fork
     else if syscall_number = 62 then returned sys_kill
     else if syscall_number = 63 then bind (get_arg_ptr info 1) (\<lambda>p. bind (sys_execve env p) (\<lambda>jump. ret (Left jump)))
     else if syscall_number = 1000 then
       bind (get_arg_ptr info 1) (\<lambda>title. bind (get_arg_raw info 2) (\<lambda>title_len.
       bind (get_arg_raw info 3) (\<lambda>x. bind (get_arg_raw info 4) (\<lambda>y.
       bind (get_arg_raw info 5) (\<lambda>width. bind (get_arg_raw info 6) (\<lambda>height.
       returned (sys_create_window env title title_len x y width height)))))))
     else if syscall_number = 1001 then
       bind (get_arg_raw info 1) (\<lambda>window_id. bind (get_arg_raw info 2) (\<lambda>vaddr. returned (sys_map_window window_id vaddr)))
     else if syscall_number = 1002 then bind (get_arg_raw info 1) (\<lambda>window_id. returned (sys_sync_window window_id))
     else panic ''not implemented''))"

end
