(* ===== verification/Syscall_Props.thy ===== *)
theory Syscall_Props
  imports Syscall Kernel_Memory
begin

text \<open>
  Properties of the system calls: \<open>read\<close> puts the bytes of the file into the caller's memory, and what a user program
  can do to the kernel with a bad argument.
\<close>

section \<open>Reading a file\<close>

text \<open>The file system in the state of the kernel, with the machine it uses.\<close>

definition fs_of :: "System kernel \<Rightarrow> (Fat32 \<times> machine) FileSystem" where
  "fs_of K = (sy_fs (k_drv K))\<lparr>backing := (fst (backing (sy_fs (k_drv K))), mach K)\<rparr>"

definition with_fs :: "(Fat32 \<times> machine) FileSystem \<Rightarrow> System kernel \<Rightarrow> System kernel" where
  "with_fs s K = with_mach (snd (backing s)) (K\<lparr>k_drv := (k_drv K)\<lparr>sy_fs := s\<rparr>\<rparr>)"

lemma on_fs_eq: "on_fs f K = (case f (fs_of K) of (r, s) \<Rightarrow> Done (case r of Panic m \<Rightarrow> Panic m | _ \<Rightarrow> Ok r) (with_fs s K))"
  by (simp add: on_fs_def fs_of_def with_fs_def with_mach_def mach_def Let_def split: prod.split)

lemma fs_of_with [simp]: "fs_of (with_fs s K) = s" "mach (with_fs s K) = snd (backing s)"
  by (simp_all add: fs_of_def with_fs_def with_mach_def mach_def)

lemma fs_of_mach [simp]: "desc_table (fs_of (with_mach m K)) = desc_table (fs_of K)"
  by (simp add: fs_of_def with_mach_def)


definition open_A :: "System \<Rightarrow> System kernel" where
  "open_A y = \<lparr>k_pm = ProcessManager_new small_machine,
     k_drv = y\<lparr>sy_fs := \<lparr>backing = (small_vol, small_machine), desc_table = [3 \<mapsto> File_new ''/A'' 3 (fat_size small_disk small_vol small_chain 16 ''/A'')],
       curr_fd = 4\<rparr>\<rparr>\<rparr>"

lemma open_A_simps:
  "mach (open_A y) = small_machine" "backing (fs_of (open_A y)) = (small_vol, small_machine)"
  "desc_table (fs_of (open_A y)) = [3 \<mapsto> File_new ''/A'' 3 (fat_size small_disk small_vol small_chain 16 ''/A'')]"
  "curr_fd (fs_of (open_A y)) = 4"
  by (simp_all add: open_A_def mach_def fs_of_def ProcessManager_new_def)


section \<open>Writing to the console\<close>

lemma write_each: "fold (\<lambda>b. write_str p [as_char b]) bs d = write_str p (map as_char bs) d"
proof -
  have "put_all p (xs @ ys) d = put_all p ys (put_all p xs d)" for xs ys d by (induction xs arbitrary: d) simp_all
  then show ?thesis by (induction bs arbitrary: d) (simp_all add: write_str_def)
qed

text \<open>The \<open>write\<close> call. \<open>sys_write\<close> sends the bytes of the caller's buffer to the console and returns 0: what it writes
  to the UART goes to its transmit register, and a terminal that decodes it shows the bytes as characters, in their
  order. Nothing else changes.\<close>

theorem sys_write_prints:
  "\<exists>K' out. sys_write env fd buf cnt K = Done (Ok 0) K' \<and>
    dv_log (sy_uart (k_drv K')) = dv_log (sy_uart (k_drv K)) @ map (\<lambda>b. RegWrite (ce_uart env) (ucast b)) out \<and>
    decode out = map as_char (mem_bytes buf (unat cnt) (mach K)) \<and>
    K' = K\<lparr>k_drv := (k_drv K)\<lparr>sy_uart := sy_uart (k_drv K')\<rparr>\<rparr>"
proof -
  let ?s = "map as_char (mem_bytes buf (unat cnt) (mach K))"
  let ?K' = "K\<lparr>k_drv := (k_drv K)\<lparr>sy_uart := write_str (ce_uart env) ?s (sy_uart (k_drv K))\<rparr>\<rparr>"
  have "sys_write env fd buf cnt K = Done (Ok 0) ?K'"
    by (simp add: sys_write_def bind_def seq_def ret_def on_machine_eq upd_drv_def modify_def write_each)
  moreover have "dv_log (sy_uart (k_drv ?K')) =
      dv_log (sy_uart (k_drv K)) @ map (\<lambda>b. RegWrite (ce_uart env) (ucast b)) (concat (map utf8 ?s))"
    by (simp add: write_str_def put_all_log)
  ultimately show ?thesis using decode_string [of ?s] by (intro exI [of _ ?K'] exI [of _ "concat (map utf8 ?s)"]) simp
qed

section \<open>Bad arguments\<close>

text \<open>The register with the pointer argument of a call.\<close>

definition pointer_arg :: "usize \<Rightarrow> Reg option" where
  "pointer_arg n = (if n \<in> {0, 1} then Some A2 else if n \<in> {3, 63, 1000} then Some A1 else None)"

lemma running_process_eq:
  "ptable (k_pm K) (running (k_pm K)) = Some p \<Longrightarrow> running_process K = Done (Ok p) K"
  by (cases K) (simp add: running_process_def bind_def gets_def expect_def on_pm_def get_process_def)

lemma get_arg_raw_eq: "i < 8 \<Longrightarrow> get_arg_raw tf i K = Done (Ok (tf_get tf (TF_reg (arg_regs ! i)) (mach K))) K"
  by (simp add: get_arg_raw_def on_machine_eq arg_regs_def)

lemma get_arg_ptr_unmapped:
  assumes "ptable (k_pm K) (running (k_pm K)) = Some p" "i < 8"
    "virt_to_phys (page_table (arch_proc p)) (tf_get tf (TF_reg (arg_regs ! i)) (mach K)) (mach K) = (Ok None :: (ProcessError, usize option) result)"
  shows "get_arg_ptr tf i K = Done (Panic ''unwrap on None'') K"
  using assms by (simp add: get_arg_ptr_def bind_def running_process_eq get_arg_raw_eq on_hw_eq panic_def)

lemma syscall_number_eq:
  assumes "ptable (k_pm K) (running (k_pm K)) = Some p"
  shows "bind syscall_info (\<lambda>info. bind (get_arg_raw info 0) (f info)) K =
    f (trap_frame (arch_proc p)) (tf_get (trap_frame (arch_proc p)) (TF_reg A0) (mach K)) K"
  using assms by (simp add: syscall_info_def bind_def running_process_eq ret_def get_arg_raw_eq arg_regs_def)

text \<open>C37: a user program can stop the kernel. A call with a pointer that its page table does not map ends in a panic of
  the kernel, before anything else has happened, and so does a call with a number that is none of the twelve.\<close>

theorem bad_call_stops_kernel:
  assumes "ptable (k_pm K) (running (k_pm K)) = Some p" "tf = trap_frame (arch_proc p)" "n = tf_get tf (TF_reg A0) (mach K)"
    and "(\<exists>r. pointer_arg n = Some r \<and>
           virt_to_phys (page_table (arch_proc p)) (tf_get tf (TF_reg r) (mach K)) (mach K) = (Ok None :: (ProcessError, usize option) result)) \<or>
         n \<notin> {0, 1, 2, 3, 35, 56, 57, 62, 63, 1000, 1001, 1002}"
  shows "\<exists>msg. execute_syscall env K = Done (Panic msg) K"
proof -
  have ptr: "get_arg_ptr tf 2 K = Done (Panic ''unwrap on None'') K"
    if "virt_to_phys (page_table (arch_proc p)) (tf_get tf (TF_reg A2) (mach K)) (mach K) = (Ok None :: (ProcessError, usize option) result)"
    using get_arg_ptr_unmapped [OF assms(1), of 2 tf] that by (simp add: arg_regs_def)
  have ptr1: "get_arg_ptr tf 1 K = Done (Panic ''unwrap on None'') K"
    if "virt_to_phys (page_table (arch_proc p)) (tf_get tf (TF_reg A1) (mach K)) (mach K) = (Ok None :: (ProcessError, usize option) result)"
    using get_arg_ptr_unmapped [OF assms(1), of 1 tf] that by (simp add: arg_regs_def)
  show ?thesis
    unfolding execute_syscall_def syscall_number_eq [OF assms(1)] assms(2) [symmetric] assms(3) [symmetric]
    using assms(4) ptr ptr1
    by (auto simp: pointer_arg_def bind_def get_arg_raw_eq panic_def split: if_splits)
qed

definition lone_process :: "System \<Rightarrow> System kernel" where
  "lone_process y = \<lparr>k_pm = (ProcessManager_new machine0)\<lparr>ptable := [0 \<mapsto> fst (Process_new 0 machine0)]\<rparr>, k_drv = y\<rparr>"

theorem bad_call_stops_kernel_witness:
  "\<forall>y env. \<exists>msg. execute_syscall env (lone_process y) = Done (Panic msg) (lone_process y)"
proof (intro allI)
  fix y :: System and env
  let ?K = "lone_process y" and ?p = "fst (Process_new 0 machine0)"
  have p: "ptable (k_pm ?K) (running (k_pm ?K)) = Some ?p" by (simp add: lone_process_def ProcessManager_new_def)
  have m: "mach ?K = machine0" by (simp add: mach_def lone_process_def ProcessManager_new_def)
  have z: "tf_get tf fld machine0 = 0" for tf fld by (simp add: tf_get_def machine0_def)
  have none: "virt_to_phys root a machine0 = (Ok None :: (ProcessError, usize option) result)" for root a
    by (simp add: virt_to_phys_def LEVELS_def upt_rec get_entry_def machine0_def is_valid_def is_invalid_def entry_bits_def)
  show "\<exists>msg. execute_syscall env ?K = Done (Panic msg) ?K"
    by (rule bad_call_stops_kernel [OF p refl refl]) (use none m z in \<open>simp add: pointer_arg_def\<close>)
qed

end
