(* ===== verification/Console.thy ===== *)
theory Console
  imports Serial
begin

text \<open>
  Printing, the panic handlers and the test harness (\<open>src/src/lib.rs\<close>, \<open>src/src/main.rs\<close>) on the console of \<open>Serial\<close>. The
  device is the log of the accesses to all memory-mapped registers, so that the order of the UART's and the test
  device's accesses shows. A test is a parameter: its name and its body, which returns or panics.
\<close>

section \<open>Printing\<close>

text \<open>\<open>{}\<close> of an unsigned integer.\<close>

fun dec :: "nat \<Rightarrow> string" where
  "dec n = (if n < 10 then [char_of (48 + n)] else dec (n div 10) @ [char_of (48 + n mod 10)])"

declare dec.simps [simp del]

text \<open>\<open>print!\<close> hands the pieces of the formatted text to \<open>write_str\<close> one after the other; \<open>println!\<close> ends the text with
  carriage return and line feed.\<close>

definition CRLF :: string where
  "CRLF = [char_of (13 :: nat), char_of (10 :: nat)]"

definition print :: "usize \<Rightarrow> string \<Rightarrow> device \<Rightarrow> device" where
  "print uart text d = write_str uart text d"

definition println :: "usize \<Rightarrow> string \<Rightarrow> device \<Rightarrow> device" where
  "println uart text d = print uart (text @ CRLF) d"

section \<open>Panics\<close>

text \<open>What a panic handler is told: the line and the file where they are known, and the message.\<close>

type_synonym PanicInfo = "(u32 \<times> string) option \<times> string"

definition panic_text :: "PanicInfo \<Rightarrow> string" where
  "panic_text info = (case fst info of
       Some (line, file) \<Rightarrow> ''line '' @ dec (unat line) @ '', file '' @ file @ '': '' @ snd info
     | None \<Rightarrow> ''no information available.'')"

text \<open>The handler of the kernel, and the one of the test harness.\<close>

definition kernel_panic :: "usize \<Rightarrow> PanicInfo \<Rightarrow> device \<Rightarrow> device" where
  "kernel_panic uart info d =
     (let d1 = print uart ''Aborting: '' d;
          d2 = println uart (panic_text info) d1
      in exit_qemu 1 QemuFail d2)"

definition harness_panic :: "usize \<Rightarrow> PanicInfo \<Rightarrow> device \<Rightarrow> device" where
  "harness_panic uart info d =
     (let d1 = print uart ''Aborting: '' d;
          d2 = println uart (panic_text info) d1;
          d3 = println uart ''[FAIL]'' d2
      in exit_qemu 1 QemuFail d3)"

section \<open>Tests\<close>

record Test =
  t_name :: string
  t_body :: "device \<Rightarrow> (PanicInfo + unit) \<times> device"

definition run_test :: "usize \<Rightarrow> Test \<Rightarrow> device \<Rightarrow> (PanicInfo + unit) \<times> device" where
  "run_test uart t d =
     (case t_body t (println uart (t_name t @ ''...'' @ [char_of (9 :: nat)]) d) of
        (Inl info, d') \<Rightarrow> (Inl info, d')
      | (Inr _, d') \<Rightarrow> (Inr (), println uart ''[OK]'' d'))"

primrec run_tests :: "usize \<Rightarrow> Test list \<Rightarrow> device \<Rightarrow> (PanicInfo + unit) \<times> device" where
  "run_tests uart [] d = (Inr (), d)"
| "run_tests uart (t # ts) d =
     (case run_test uart t d of (Inl info, d') \<Rightarrow> (Inl info, d') | (Inr _, d') \<Rightarrow> run_tests uart ts d')"

text \<open>\<open>test_runner\<close>, with the panic handler of the harness around it: a panic never comes back.\<close>

definition test_runner :: "usize \<Rightarrow> Test list \<Rightarrow> device \<Rightarrow> device" where
  "test_runner uart tests d =
     (case run_tests uart tests (println uart (''Running '' @ dec (length tests) @ '' tests'') d) of
        (Inl info, d') \<Rightarrow> harness_panic uart info d'
      | (Inr _, d') \<Rightarrow> exit_qemu 0 QemuPass d')"

section \<open>What the console shows\<close>

lemma char_digit: "n < 10 \<Longrightarrow> of_char (char_of (48 + n) :: char) = (48 + n :: nat)"
  by simp

text \<open>The number that a decimal text stands for.\<close>

definition undec :: "string \<Rightarrow> nat" where
  "undec s = foldl (\<lambda>n c. 10 * n + (of_char c - 48)) 0 s"

lemma undec_dec: "undec (dec n) = n"
proof (induction n rule: dec.induct)
  case (1 n)
  show ?case
  proof (cases "n < 10")
    case True
    then show ?thesis by (subst dec.simps) (simp add: undec_def)
  next
    case False
    then have "undec (dec n) = 10 * undec (dec (n div 10)) + n mod 10"
      by (subst dec.simps) (simp add: undec_def)
    then show ?thesis using 1 False by simp
  qed
qed

text \<open>The text that a terminal shows of a log: what was sent to the UART's transmit register.\<close>

definition sent :: "usize \<Rightarrow> reg_access list \<Rightarrow> u8 list" where
  "sent uart log = concat (map (\<lambda>e. case e of RegWrite a v \<Rightarrow> if a = uart then [ucast v] else [] | RegRead _ _ \<Rightarrow> []) log)"

definition shown :: "usize \<Rightarrow> reg_access list \<Rightarrow> string" where
  "shown uart log = decode (sent uart log)"

text \<open>The accesses after those of \<open>d\<close> send a text and do nothing else.\<close>

definition adds :: "usize \<Rightarrow> string \<Rightarrow> device \<Rightarrow> device \<Rightarrow> bool" where
  "adds uart text d d' \<longleftrightarrow> d' = d\<lparr>dv_log := dv_log d @ map (\<lambda>c. RegWrite uart (ucast c)) (concat (map utf8 text))\<rparr>"

lemma put_all_eq: "put_all p cs d = d\<lparr>dv_log := dv_log d @ map (\<lambda>c. RegWrite p (ucast c)) cs\<rparr>"
  by (induction cs arbitrary: d) (simp_all add: uart_put_def reg_write_def)

lemma print_adds: "adds uart text d (print uart text d)"
  by (simp add: adds_def print_def write_str_def put_all_eq)

lemma adds_trans: "adds uart s d d1 \<Longrightarrow> adds uart t d1 d2 \<Longrightarrow> adds uart (s @ t) d d2"
  by (simp add: adds_def)

lemma println_adds: "adds uart (text @ CRLF) d (println uart text d)"
  by (simp add: println_def print_adds)

lemma ucast_byte [simp]: "ucast (ucast c :: u64) = c" for c :: u8
  by (rule bit_word_eqI) (simp add: bit_ucast_iff)

lemma adds_shown:
  assumes "adds uart text d d'" "dv_log d = []"
  shows "shown uart (dv_log d') = text"
proof -
  have "sent uart (map (\<lambda>c. RegWrite uart (ucast c)) cs) = cs" for cs :: "u8 list"
    by (induction cs) (simp_all add: sent_def)
  then show ?thesis using assms by (simp add: adds_def shown_def decode_string)
qed

text \<open>A panic of the kernel is reported on the console before the emulation ends with a failure.\<close>

lemma kernel_panic_reports:
  "\<exists>d1. kernel_panic uart info d = reg_write QEMU_VIRT_TEST 0x13333 d1 \<and> adds uart (''Aborting: '' @ panic_text info @ CRLF) d d1"
  using adds_trans [OF print_adds [of uart "''Aborting: ''" d] println_adds [of uart "panic_text info"]]
  by (intro exI [of _ "println uart (panic_text info) (print uart ''Aborting: '' d)"]) (simp add: kernel_panic_def exit_qemu_def)

section \<open>The verdict of a test run\<close>

text \<open>Tests that print a text and then return or panic.\<close>

definition printing_test :: "usize \<Rightarrow> string \<times> string \<times> (PanicInfo + unit) \<Rightarrow> Test" where
  "printing_test uart = (\<lambda>(name, out, e). \<lparr>t_name = name, t_body = (\<lambda>d. (e, print uart out d))\<rparr>)"

fun transcript :: "(string \<times> string \<times> (PanicInfo + unit)) list \<Rightarrow> string" where
  "transcript [] = []"
| "transcript ((name, out, e) # ts) = name @ ''...'' @ [char_of (9 :: nat)] @ CRLF @ out @
     (case e of
        Inl info \<Rightarrow> ''Aborting: '' @ panic_text info @ CRLF @ ''[FAIL]'' @ CRLF
      | Inr _ \<Rightarrow> ''[OK]'' @ CRLF @ transcript ts)"

definition after_tests :: "usize \<Rightarrow> (PanicInfo + unit) \<times> device \<Rightarrow> device" where
  "after_tests uart r = (case r of (Inl info, d') \<Rightarrow> harness_panic uart info d' | (Inr _, d') \<Rightarrow> exit_qemu 0 QemuPass d')"

definition verdict :: "bool \<Rightarrow> u64" where
  "verdict passed = (if passed then 0x5555 else 0x13333)"

lemma run_tests_transcript:
  "\<exists>d1. adds uart (transcript ts) d d1 \<and>
     after_tests uart (run_tests uart (map (printing_test uart) ts) d) =
       reg_write QEMU_VIRT_TEST (verdict (list_all (\<lambda>(_, _, e). e = Inr ()) ts)) d1"
proof (induction ts arbitrary: d)
  case Nil
  show ?case by (intro exI [of _ d]) (simp add: adds_def after_tests_def exit_qemu_def verdict_def)
next
  case (Cons t ts)
  obtain name out e where t: "t = (name, out, e)" by (cases t)
  let ?d = "print uart out (println uart (name @ ''...'' @ [char_of (9 :: nat)]) d)"
  have a: "adds uart (name @ ''...'' @ [char_of (9 :: nat)] @ CRLF @ out) d ?d"
    using adds_trans [OF println_adds [of uart "name @ ''...'' @ [char_of (9 :: nat)]" d] print_adds [of uart out]] by simp
  show ?case
  proof (cases e)
    case (Inl info)
    let ?d1 = "println uart ''[FAIL]'' (println uart (panic_text info) (print uart ''Aborting: '' ?d))"
    have "adds uart (''Aborting: '' @ panic_text info @ CRLF @ ''[FAIL]'' @ CRLF) ?d ?d1"
      using adds_trans [OF print_adds [of uart "''Aborting: ''" ?d] adds_trans [OF println_adds [of uart "panic_text info"] println_adds [of uart "''[FAIL]''"]]]
      by simp
    from adds_trans [OF a this] show ?thesis
      by (intro exI [of _ ?d1]) (simp add: t Inl run_test_def printing_test_def after_tests_def harness_panic_def exit_qemu_def verdict_def)
  next
    case (Inr u)
    let ?d2 = "println uart ''[OK]'' ?d"
    obtain d1 where d1: "adds uart (transcript ts) ?d2 d1"
      "after_tests uart (run_tests uart (map (printing_test uart) ts) ?d2) =
        reg_write QEMU_VIRT_TEST (verdict (list_all (\<lambda>(_, _, e). e = Inr ()) ts)) d1" using Cons.IH by blast
    show ?thesis
      using adds_trans [OF a adds_trans [OF println_adds d1(1)]] d1(2)
      by (intro exI [of _ d1]) (simp add: t Inr run_test_def printing_test_def)
  qed
qed

text \<open>The verdict of a test run. The console shows the number of tests, then for each test its name, what it
  prints and \<open>[OK]\<close>, up to the first that panics, which is reported with \<open>[FAIL]\<close> and ends the run; and the last
  access of all tells the emulator that the tests have passed exactly when none has panicked.\<close>

theorem test_runner_verdict:
  "\<exists>d1. test_runner uart (map (printing_test uart) ts) \<lparr>dv_read = f, dv_log = []\<rparr> =
      reg_write QEMU_VIRT_TEST (if list_all (\<lambda>(_, _, e). e = Inr ()) ts then 0x5555 else 0x13333) d1 \<and>
    shown uart (dv_log d1) = ''Running '' @ dec (length ts) @ '' tests'' @ CRLF @ transcript ts"
proof -
  let ?d = "\<lparr>dv_read = f, dv_log = []\<rparr>"
  let ?d0 = "println uart (''Running '' @ dec (length ts) @ '' tests'') ?d"
  obtain d1 where d1: "adds uart (transcript ts) ?d0 d1"
      "after_tests uart (run_tests uart (map (printing_test uart) ts) ?d0) =
        reg_write QEMU_VIRT_TEST (verdict (list_all (\<lambda>(_, _, e). e = Inr ()) ts)) d1" using run_tests_transcript by blast
  have "shown uart (dv_log d1) = ''Running '' @ dec (length ts) @ '' tests'' @ CRLF @ transcript ts"
    using adds_shown [OF adds_trans [OF println_adds d1(1)]] by simp
  then show ?thesis using d1(2) by (intro exI [of _ d1]) (simp add: test_runner_def after_tests_def verdict_def)
qed

end
