(* ===== verification/Boot.thy ===== *)
theory Boot
  imports Syscall Console
begin

text \<open>
  Start-up and the kernel's own processes (\<open>src/src/kmain.rs\<close>, \<open>src/src/init.rs\<close>, \<open>src/src/arch/riscv64/init.rs\<close>): the order
  of the initialisers, the process that draws the desktop and follows the mouse, and the process that mounts the disk
  and starts the first programs. The endless loops of the processes are modelled by one round of them.
\<close>

section \<open>Initialisation\<close>

record boot_env =
  be_start :: "Region \<Rightarrow> usize"
  be_stop :: "Region \<Rightarrow> usize"
  be_plic :: usize
  be_virtio :: usize
  be_devices :: environment
  be_call :: call_env
  be_fs_proc :: usize
  be_kproc :: usize

text \<open>\<open>allocator::init\<close>: the start and the size of the region that is handed to the third-party heap.\<close>

definition allocator_init :: "(Region \<Rightarrow> usize) \<Rightarrow> (Region \<Rightarrow> usize) \<Rightarrow> usize \<times> usize" where
  "allocator_init lower upper =
     (let heap_start = lower R_heap; heap_end = upper R_heap; heap_size = heap_end - heap_start
      in (heap_start, heap_size))"

text \<open>\<open>init_all\<close> of the architecture, and \<open>init_all\<close>. The hand-over of \<open>allocator_init\<close> comes first and has no other
  effect: what the heap makes of its region is the script of its answers.\<close>

definition arch_init_all :: "boot_env \<Rightarrow> unit sop" where
  "arch_init_all be =
     seq (upd_drv (\<lambda>y. y\<lparr>sy_uart := uart_init (ce_uart (be_call be)) (sy_uart y)\<rparr>))
    (seq (upd_drv (\<lambda>y. y\<lparr>sy_plic := plic_init (be_plic be) (sy_plic y)\<rparr>))
    (seq (on_pm (on_hw (paging_init (be_start be) (be_stop be) (ep_trampoline (ce_entry (be_call be))))))
         (on_devs (virtio_init (be_devices be) (be_virtio be)))))"

definition init_all :: "boot_env \<Rightarrow> unit sop" where
  "init_all be =
     seq (on_pm (\<lambda>s. process_init (ce_entry (be_call be)) (ce_self_ptr (be_call be)) (hw s)))
         (arch_init_all be)"

section \<open>The process of the desktop\<close>

definition on_mouse :: "'a iop \<Rightarrow> 'a sop" where
  "on_mouse f = on_devs (on_device MOUSE_DEVICE (\<lambda>x y. y\<lparr>MOUSE_DEVICE := Some x\<rparr>) f)"

definition on_keyboard :: "'a iop \<Rightarrow> 'a sop" where
  "on_keyboard f = on_devs (on_device KEYBOARD_DEVICE (\<lambda>x y. y\<lparr>KEYBOARD_DEVICE := Some x\<rparr>) f)"

definition on_gpu :: "'a gop \<Rightarrow> 'a sop" where
  "on_gpu f = on_devs (on_device GPU_DEVICE (\<lambda>x y. y\<lparr>GPU_DEVICE := Some x\<rparr>) f)"

text \<open>The display that the graphics draw to is the device's frame buffer, which \<open>init_display\<close> has cleared and the device
  has not fetched yet.\<close>

definition display_of :: "VirtioGpu \<Rightarrow> Display" where
  "display_of g = \<lparr>framebuffer = replicate (unat (g_width g * g_height g)) 0, scanout = [], gpu_width = g_width g, gpu_height = g_height g\<rparr>"

definition kproc_start :: "boot_env \<Rightarrow> unit sop" where
  "kproc_start be =
     seq (on_mouse init_input_event)
    (seq (on_keyboard init_input_event)
    (seq (on_gpu init_display)
    (bind (on_gpu (gets k_drv)) (\<lambda>gpu.
     bind (gets (\<lambda>K. hw (k_pm K))) (\<lambda>m.
     case graphics_init gpu_painter (ce_graphics (be_call be)) (display_of gpu) m of (r, g) \<Rightarrow>
       on_gfx (\<lambda>_. (r, g)))))))"

text \<open>The events of the mouse.\<close>

definition BTN_LEFT :: u16 where
  "BTN_LEFT = 272"

definition mouse_gfx :: "VirtioInputEvent \<Rightarrow> Display Gfx \<Rightarrow> unit gres \<times> Display Gfx" where
  "mouse_gfx ev g =
     (case (EventType_from (ev_type ev) :: (unit, EventType) result) of
        Ok EV_REL \<Rightarrow>
          if ev_code ev = rel_val REL_X then on_lm (move_rel (MOUSE_LAYER_ID g) (ev_value ev) 0) g
          else if ev_code ev = rel_val REL_Y then on_lm (move_rel (MOUSE_LAYER_ID g) 0 (ev_value ev)) g
          else (Ok (), g)
      | Ok EV_KEY \<Rightarrow>
          if ev_code ev = BTN_LEFT \<and> (ev_value ev = 1 \<or> ev_value ev = 0) then
            and_then (get_layer_x (MOUSE_LAYER_ID g) (lman g), g) (\<lambda>x g.
            and_then (get_layer_y (MOUSE_LAYER_ID g) (lman g), g) (\<lambda>y g.
            lm_on_event gpu_painter (if ev_value ev = 1 then MouseLeftPress x y else MouseLeftRelease x y) (MOUSE_LAYER_ID g) g))
          else (Ok (), g)
      | Ok EV_SYN \<Rightarrow> update_layer gpu_painter (MOUSE_LAYER_ID g) g
      | Ok _ \<Rightarrow> (Ok (), g)
      | Err e \<Rightarrow> (Err e, g)
      | Panic m \<Rightarrow> (Panic m, g))"

definition mouse_event :: "VirtioInputEvent \<Rightarrow> unit sop" where
  "mouse_event ev = on_gfx (mouse_gfx ev)"

definition pop_event :: "VirtioInputEvent option sop" where
  "pop_event = on_mouse (on_drv (\<lambda>v. case i_event_queue v of
       [] \<Rightarrow> (Ok None, v) | ev # evs \<Rightarrow> (Ok (Some ev), v\<lparr>i_event_queue := evs\<rparr>)))"

text \<open>The inner loop, at most as many times as there are events: none arrives while the process runs.\<close>

primrec drain_events :: "nat \<Rightarrow> unit sop" where
  "drain_events 0 = ret ()"
| "drain_events (Suc n) = bind pop_event (\<lambda>event. case event of None \<Rightarrow> ret () | Some ev \<Rightarrow> seq (mouse_event ev) (drain_events n))"

definition kproc_round :: "unit sop" where
  "kproc_round =
     bind (on_mouse (gets (\<lambda>K. length (i_event_queue (k_drv K))))) (\<lambda>n.
     if n = 0 then bind (gets (\<lambda>K. running (k_pm K))) (\<lambda>r. expect ''process'' (on_pm (event_wait r MouseEvent)))
     else drain_events n)"

section \<open>The process of the file system\<close>

definition start_program :: "call_env \<Rightarrow> string \<Rightarrow> string \<Rightarrow> unit sop" where
  "start_program env name path =
     bind (expect ''unwrap on Err'' (on_pm (create_process (ce_entry env) (ce_self_ptr env) name 1 True))) (\<lambda>pid.
     seq (expect ''unwrap on Err'' (load_program (ce_fuel env) (ce_disk env) (ce_goblin env) pid path))
         (expect ''unwrap on Err'' (on_pm (ready pid))))"

definition fs_proc_start :: "call_env \<Rightarrow> unit sop" where
  "fs_proc_start env =
     bind (on_pm (fat_init (ce_disk env))) (\<lambda>fat.
     seq (\<lambda>K. Done (Ok ()) (K\<lparr>k_drv := (k_drv K)\<lparr>sy_fs := FileSystem_new (fat, hw (k_pm K))\<rparr>\<rparr>))
    (seq (start_program env ''mandelbrot'' ''/bin/mandelbrot'')
         (start_program env ''main'' ''/bin/main'')))"

section \<open>The start of the kernel\<close>

definition console_line :: "boot_env \<Rightarrow> string \<Rightarrow> unit sop" where
  "console_line be text = upd_drv (\<lambda>y. y\<lparr>sy_uart := println (ce_uart (be_call be)) text (sy_uart y)\<rparr>)"

text \<open>The part of \<open>kmain\<close> after the initialisation, up to its own loop, which calls \<open>schedule\<close> for ever.\<close>

definition kmain_processes :: "boot_env \<Rightarrow> unit sop" where
  "kmain_processes be =
     seq (on_csrs timer_interrupt_off)
    (seq (on_csrs interrupt_on)
    (seq (expect ''process'' (on_pm (defer_schedule Start)))
    (bind (expect ''process'' (on_pm (create_kernel_process (ce_entry (be_call be)) (ce_self_ptr (be_call be)) ''fs'' 1 (be_fs_proc be)))) (\<lambda>pid.
     seq (expect ''process'' (on_pm (ready pid)))
    (bind (expect ''process'' (on_pm (create_kernel_process (ce_entry (be_call be)) (ce_self_ptr (be_call be)) ''kproc'' 2 (be_kproc be)))) (\<lambda>pid.
     seq (expect ''process'' (on_pm (ready pid)))
    (seq (expect ''process'' (on_pm (defer_schedule Stop)))
         (on_csrs timer_interrupt_on))))))))"

text \<open>\<open>kmain\<close>. A hart other than the first does nothing.\<close>

definition kmain :: "boot_env \<Rightarrow> unit sop" where
  "kmain be =
     bind (on_machine (\<lambda>m. (regs m Tp, m))) (\<lambda>hart_id.
     if hart_id \<noteq> 0 then panic ''endless loop''
     else
       seq (init_all be)
      (seq (console_line be ''Initialization done'')
      (seq (console_line be ''Hello, citron!'')
           (kmain_processes be))))"

text \<open>The addresses of the allocator's region are those that \<open>paging::init\<close> maps as the heap.\<close>

lemma allocator_init_region:
  assumes "lower R_heap \<le> upper R_heap" "allocator_init lower upper = (h, n)"
  shows "w - h < n \<and> h \<le> w \<longleftrightarrow> lower R_heap \<le> w \<and> w < upper R_heap"
proof -
  have "h = lower R_heap" "n = upper R_heap - lower R_heap" using assms(2) by (auto simp: allocator_init_def Let_def)
  moreover have "w - h < upper R_heap - h \<longleftrightarrow> w < upper R_heap" if "h \<le> w" "h \<le> upper R_heap"
    using that less_diff_iff [of "unat h" "unat w" "unat (upper R_heap)"]
    by (simp add: word_less_nat_alt word_le_nat_alt unat_sub_if_size)
  ultimately show ?thesis using assms(1) by auto
qed

end
