(* ===== verification/Boot_Props.thy ===== *)
theory Boot_Props
  imports Boot Kernel_Memory Layer_Props Input_Ring
begin

text \<open>
  The process of the desktop between the input driver and the graphics: a round of it takes every event that the
  driver has queued, in order, and leaves the screen as the events say.
\<close>

section \<open>The mouse and the graphics in the kernel's state\<close>

definition mouse_of :: "System kernel \<Rightarrow> VirtioInput option" where
  "mouse_of K = MOUSE_DEVICE (sy_devs (k_drv K))"

definition with_mouse :: "VirtioInput \<Rightarrow> System kernel \<Rightarrow> System kernel" where
  "with_mouse v K = K\<lparr>k_drv := (k_drv K)\<lparr>sy_devs := (sy_devs (k_drv K))\<lparr>MOUSE_DEVICE := Some v\<rparr>\<rparr>\<rparr>"

definition gfx_of :: "System kernel \<Rightarrow> Display Gfx" where
  "gfx_of K = (sy_gfx (k_drv K))\<lparr>g_mach := mach K\<rparr>"

definition with_gfx :: "Display Gfx \<Rightarrow> System kernel \<Rightarrow> System kernel" where
  "with_gfx g K = with_mach (g_mach g) (K\<lparr>k_drv := (k_drv K)\<lparr>sy_gfx := g\<rparr>\<rparr>)"

lemma state_parts [simp]:
  "mouse_of (with_mouse v K) = Some v" "mouse_of (with_gfx g K) = mouse_of K"
  "gfx_of (with_gfx g K) = g" "gfx_of (with_mouse v K) = gfx_of K"
  by (simp_all add: mouse_of_def with_mouse_def gfx_of_def with_gfx_def mach_def with_mach_def)

lemma on_mouse_drv:
  "mouse_of K = Some v \<Longrightarrow> on_mouse (on_drv f) K = (case f v of (r, v') \<Rightarrow> Done r (with_mouse v' K))"
  by (cases K) (simp add: mouse_of_def on_mouse_def on_devs_def on_device_def on_drv_def lift_def with_mouse_def split: prod.split)

lemma on_mouse_gets:
  "mouse_of K = Some v \<Longrightarrow> on_mouse (gets (\<lambda>K. f (k_drv K))) K = Done (Ok (f v)) K"
  by (cases K) (simp add: mouse_of_def on_mouse_def on_devs_def on_device_def gets_def)

lemma on_gfx_ok: "f (gfx_of K) = (Ok a, g) \<Longrightarrow> on_gfx f K = Done (Ok a) (with_gfx g K)"
  by (simp add: on_gfx_def gfx_of_def with_gfx_def mach_def with_mach_def)

section \<open>A round of the desktop's process\<close>

lemma drain_events_each:
  assumes "mouse_of K = Some v" "i_event_queue v = evs" "each mouse_gfx evs (gfx_of K) = (Ok (), g)" "evs \<noteq> []"
  shows "drain_events (length evs) K = Done (Ok ()) (with_gfx g (with_mouse (v\<lparr>i_event_queue := []\<rparr>) K))"
  using assms
proof (induction evs arbitrary: K v)
  case (Cons ev evs)
  obtain g1 where g1: "mouse_gfx ev (gfx_of K) = (Ok (), g1)" "each mouse_gfx evs g1 = (Ok (), g)"
    using Cons.prems(3) by (cases "mouse_gfx ev (gfx_of K)" rule: prod.exhaust) (auto split: result.splits simp: and_then_def)
  let ?v = "v\<lparr>i_event_queue := evs\<rparr>" and ?K = "with_gfx g1 (with_mouse (v\<lparr>i_event_queue := evs\<rparr>) K)"
  have pop: "pop_event K = Done (Ok (Some ev)) (with_mouse ?v K)"
    unfolding pop_event_def by (subst on_mouse_drv [OF Cons.prems(1)]) (simp add: Cons.prems(2))
  have ev: "mouse_event ev (with_mouse ?v K) = Done (Ok ()) ?K"
    using on_gfx_ok [of "mouse_gfx ev" "with_mouse ?v K" "()" g1] g1(1) by (simp add: mouse_event_def)
  show ?case
  proof (cases "evs = []")
    case True
    then show ?thesis using pop ev g1(2) by (simp add: bind_def seq_def ret_def)
  next
    case False
    have "drain_events (length evs) ?K = Done (Ok ()) (with_gfx g (with_mouse (?v\<lparr>i_event_queue := []\<rparr>) ?K))"
      by (rule Cons.IH) (use g1(2) False in simp_all)
    moreover have "with_gfx g (with_mouse (?v\<lparr>i_event_queue := []\<rparr>) ?K) = with_gfx g (with_mouse (v\<lparr>i_event_queue := []\<rparr>) K)"
      by (simp add: with_gfx_def with_mouse_def with_mach_def)
    ultimately show ?thesis using pop ev by (simp add: bind_def seq_def)
  qed
qed simp


text \<open>A mouse at (1, 1) that reports one step to the left and one step up.\<close>

definition demo_kernel :: "System \<Rightarrow> System kernel" where
  "demo_kernel y = \<lparr>k_pm = ProcessManager_new machine0, k_drv = y\<lparr>
     sy_devs := (sy_devs y)\<lparr>MOUSE_DEVICE := Some (demo_input\<lparr>i_event_queue :=
       [\<lparr>ev_type = 2, ev_code = 0, ev_value = - 1\<rparr>, \<lparr>ev_type = 2, ev_code = 1, ev_value = - 1\<rparr>]\<rparr>)\<rparr>,
     sy_gfx := \<lparr>g_mach = machine0, blocks = demo_blocks, arena = ObjectArena_new, lman = demo_lm, wman = Map.empty,
       MOUSE_LAYER_ID = 0, DESKTOP_LAYER_ID = 1\<rparr>\<rparr>\<rparr>"


end
