(* ===== verification/Spin_Lock.thy ===== *)
theory Spin_Lock
  imports Prelude
begin

text \<open>
  The kernel's lock (\<open>src/src/spinlock.rs\<close>): a reader-writer lock of the third-party crate \<open>spin\<close> together with the number
  of the process that took it last. That process gets the data without taking the lock again. The third-party lock is
  a parameter, with what it promises as a hypothesis; a call that has to spin does not return.
\<close>

section \<open>The lock that is wrapped\<close>

record 'l RwLock =
  rw_write :: "'l \<Rightarrow> 'l option"
  rw_read :: "'l \<Rightarrow> 'l option"
  rw_drop_write :: "'l \<Rightarrow> 'l"
  rw_drop_read :: "'l \<Rightarrow> 'l"

text \<open>What the lock promises: it is held by readers or by one writer; \<open>write\<close> waits for all of them and \<open>read\<close> for the
  writer; and a guard that is dropped is given back.\<close>

definition rw_lock :: "'l RwLock \<Rightarrow> ('l \<Rightarrow> nat \<times> bool) \<Rightarrow> bool" where
  "rw_lock ops held \<longleftrightarrow>
     (\<forall>l. case rw_write ops l of None \<Rightarrow> held l \<noteq> (0, False) | Some l' \<Rightarrow> held l = (0, False) \<and> held l' = (0, True)) \<and>
     (\<forall>l. case rw_read ops l of None \<Rightarrow> snd (held l) | Some l' \<Rightarrow> \<not> snd (held l) \<and> held l' = (Suc (fst (held l)), False)) \<and>
     (\<forall>l. held l = (0, True) \<longrightarrow> held (rw_drop_write ops l) = (0, False)) \<and>
     (\<forall>l n. held l = (Suc n, False) \<longrightarrow> held (rw_drop_read ops l) = (n, False))"

section \<open>The wrapper\<close>

record ('l, 'a) SpinLock =
  spin_lock :: 'l
  sl_data :: 'a
  recent_pid :: usize

datatype LockData = Locking | SameProcess

datatype guard = LockMut LockData | Lock LockData

definition SpinLock_new :: "'l \<Rightarrow> 'a \<Rightarrow> ('l, 'a) SpinLock" where
  "SpinLock_new unlocked v = \<lparr>spin_lock = unlocked, sl_data = v, recent_pid = 0\<rparr>"

definition lock_mut :: "'l RwLock \<Rightarrow> usize \<Rightarrow> ('l, 'a) SpinLock \<Rightarrow> (guard \<times> ('l, 'a) SpinLock) option" where
  "lock_mut ops pid s =
     map_option (\<lambda>(g, s'). (g, s'\<lparr>recent_pid := pid\<rparr>))
       (if pid = recent_pid s then Some (LockMut SameProcess, s)
        else map_option (\<lambda>l. (LockMut Locking, s\<lparr>spin_lock := l\<rparr>)) (rw_write ops (spin_lock s)))"

definition lock_shared :: "'l RwLock \<Rightarrow> usize \<Rightarrow> ('l, 'a) SpinLock \<Rightarrow> (guard \<times> ('l, 'a) SpinLock) option" where
  "lock_shared ops pid s =
     map_option (\<lambda>(g, s'). (g, s'\<lparr>recent_pid := pid\<rparr>))
       (if pid = recent_pid s then Some (Lock SameProcess, s)
        else map_option (\<lambda>l. (Lock Locking, s\<lparr>spin_lock := l\<rparr>)) (rw_read ops (spin_lock s)))"

text \<open>Both kinds of guard lead to the data, and a mutable one can change it.\<close>

definition deref :: "guard \<Rightarrow> ('l, 'a) SpinLock \<Rightarrow> 'a" where
  "deref g s = (case g of LockMut Locking \<Rightarrow> sl_data s | LockMut SameProcess \<Rightarrow> sl_data s
     | Lock Locking \<Rightarrow> sl_data s | Lock SameProcess \<Rightarrow> sl_data s)"

definition deref_mut :: "guard \<Rightarrow> ('a \<Rightarrow> 'a) \<Rightarrow> ('l, 'a) SpinLock \<Rightarrow> ('l, 'a) SpinLock option" where
  "deref_mut g f s =
     (case g of LockMut Locking \<Rightarrow> Some (s\<lparr>sl_data := f (sl_data s)\<rparr>)
      | LockMut SameProcess \<Rightarrow> Some (s\<lparr>sl_data := f (sl_data s)\<rparr>)
      | Lock _ \<Rightarrow> None)"

text \<open>\<open>drop\<close> of the wrapper does nothing; dropping its field gives a guard of the wrapped lock back.\<close>

definition drop_guard :: "'l RwLock \<Rightarrow> guard \<Rightarrow> ('l, 'a) SpinLock \<Rightarrow> ('l, 'a) SpinLock" where
  "drop_guard ops g s =
     (case g of LockMut Locking \<Rightarrow> s\<lparr>spin_lock := rw_drop_write ops (spin_lock s)\<rparr>
      | Lock Locking \<Rightarrow> s\<lparr>spin_lock := rw_drop_read ops (spin_lock s)\<rparr>
      | _ \<Rightarrow> s)"

section \<open>Processes that share a lock\<close>

text \<open>The guards that are alive, each with the process that took it, and the steps of any interleaving of processes.\<close>

type_synonym guards = "(usize \<times> guard) list"

inductive lock_step ::
  "'l RwLock \<Rightarrow> ('l, 'a) SpinLock \<times> guards \<Rightarrow> ('l, 'a) SpinLock \<times> guards \<Rightarrow> bool" for ops where
  take_mut: "lock_mut ops pid s = Some (g, s') \<Longrightarrow> lock_step ops (s, gs) (s', (pid, g) # gs)"
| take_shared: "lock_shared ops pid s = Some (g, s') \<Longrightarrow> lock_step ops (s, gs) (s', (pid, g) # gs)"
| write_data: "(pid, g) \<in> set gs \<Longrightarrow> deref_mut g f s = Some s' \<Longrightarrow> lock_step ops (s, gs) (s', gs)"
| drop: "(pid, g) \<in> set gs \<Longrightarrow> lock_step ops (s, gs) (drop_guard ops g s, remove1 (pid, g) gs)"

inductive_cases lock_stepE: "lock_step ops (s, gs) (s', gs')"

definition locking :: "(LockData \<Rightarrow> guard) \<Rightarrow> guards \<Rightarrow> nat" where
  "locking k gs = length (filter (\<lambda>(_, g). g = k Locking) gs)"

text \<open>The wrapped lock is held by exactly the locking guards, and a locking writer is the process that used the lock
  last.\<close>

definition lock_inv :: "('l \<Rightarrow> nat \<times> bool) \<Rightarrow> ('l, 'a) SpinLock \<times> guards \<Rightarrow> bool" where
  "lock_inv held = (\<lambda>(s, gs).
     held (spin_lock s) = (locking Lock gs, locking LockMut gs = 1) \<and>
     (locking LockMut gs = 0 \<or> locking LockMut gs = 1 \<and> locking Lock gs = 0) \<and>
     (\<forall>pid. (pid, LockMut Locking) \<in> set gs \<longrightarrow> pid = recent_pid s))"

lemma locking_simps [simp]:
  "locking k [] = 0" "locking k ((pid, g) # gs) = (if g = k Locking then Suc (locking k gs) else locking k gs)"
  by (simp_all add: locking_def)

lemma locking_remove1:
  "(pid, g) \<in> set gs \<Longrightarrow> locking k gs = (if g = k Locking then Suc (locking k (remove1 (pid, g) gs)) else locking k (remove1 (pid, g) gs))"
  by (induction gs) (auto split: if_splits)

lemma locking_pos: "(pid, k Locking) \<in> set gs \<Longrightarrow> 0 < locking k gs"
  by (induction gs) (auto simp: locking_def)

lemma locking_0: "locking k gs = 0 \<Longrightarrow> (pid, k Locking) \<notin> set gs"
  using locking_pos [of pid k gs] by auto

text \<open>What a call that returns has done.\<close>

lemma lock_mut_cases:
  assumes "rw_lock ops held" "lock_mut ops pid s = Some (g, s')"
  obtains "pid = recent_pid s" "g = LockMut SameProcess" "s' = s"
  | "pid \<noteq> recent_pid s" "g = LockMut Locking" "recent_pid s' = pid" "held (spin_lock s) = (0, False)" "held (spin_lock s') = (0, True)"
  using assms by (fastforce simp: lock_mut_def rw_lock_def split: if_splits option.splits dest: spec [of _ "spin_lock s"])

lemma lock_shared_cases:
  assumes "rw_lock ops held" "lock_shared ops pid s = Some (g, s')"
  obtains "pid = recent_pid s" "g = Lock SameProcess" "s' = s"
  | "pid \<noteq> recent_pid s" "g = Lock Locking" "recent_pid s' = pid" "\<not> snd (held (spin_lock s))"
    "held (spin_lock s') = (Suc (fst (held (spin_lock s))), False)"
  using assms by (fastforce simp: lock_shared_def rw_lock_def split: if_splits option.splits dest: spec [of _ "spin_lock s"])

lemma drop_guard_inv:
  assumes "rw_lock ops held" "(pid, g) \<in> set gs" "lock_inv held (s, gs)"
  shows "lock_inv held (drop_guard ops g s, remove1 (pid, g) gs)"
proof -
  let ?gs = "remove1 (pid, g) gs"
  have writer: "\<forall>pid. (pid, LockMut Locking) \<in> set ?gs \<longrightarrow> pid = recent_pid s"
    using assms(3) set_remove1_subset [of "(pid, g)" gs] by (auto simp: lock_inv_def)
  have held: "held (spin_lock s) = (locking Lock gs, locking LockMut gs = 1)"
    "locking LockMut gs = 0 \<or> locking LockMut gs = 1 \<and> locking Lock gs = 0"
    using assms(3) by (simp_all add: lock_inv_def)
  note rest = locking_remove1 [OF assms(2), of Lock] locking_remove1 [OF assms(2), of LockMut]
  note laws = assms(1) [unfolded rw_lock_def]
  consider "g = LockMut Locking" | "g = Lock Locking" | "g = LockMut SameProcess \<or> g = Lock SameProcess"
    by (metis guard.exhaust LockData.exhaust)
  then show ?thesis
  proof cases
    case 1
    then have "held (spin_lock s) = (0, True)" "locking LockMut ?gs = 0" "locking Lock ?gs = 0" using held rest by simp_all
    then show ?thesis using 1 laws writer by (simp add: lock_inv_def drop_guard_def)
  next
    case 2
    then have "held (spin_lock s) = (Suc (locking Lock ?gs), False)" "locking LockMut ?gs = 0" using held rest by simp_all
    then show ?thesis using 2 laws writer by (simp add: lock_inv_def drop_guard_def)
  next
    case 3
    then have "drop_guard ops g s = s" "locking LockMut ?gs = locking LockMut gs" "locking Lock ?gs = locking Lock gs"
      using rest by (auto simp: drop_guard_def)
    then show ?thesis using held writer by (simp add: lock_inv_def)
  qed
qed

lemma lock_step_inv:
  assumes "rw_lock ops held" "lock_step ops x y" "lock_inv held x"
  shows "lock_inv held y"
  using assms(2,3)
proof cases
  case (take_mut pid s g s' gs)
  from assms(1) take_mut(3) show ?thesis
    by (cases rule: lock_mut_cases) (use take_mut assms(3) locking_0 [of LockMut gs] in \<open>auto simp: lock_inv_def\<close>)
next
  case (take_shared pid s g s' gs)
  from assms(1) take_shared(3) show ?thesis
    by (cases rule: lock_shared_cases) (use take_shared assms(3) locking_0 [of LockMut gs] in \<open>auto simp: lock_inv_def\<close>)
next
  case (write_data pid g gs f s s')
  then show ?thesis using assms(3) by (auto simp: lock_inv_def deref_mut_def split: guard.splits LockData.splits)
next
  case (drop pid g gs s)
  then show ?thesis using drop_guard_inv [OF assms(1) drop(3)] assms(3) by simp
qed

lemma locks_inv:
  assumes "rw_lock ops held" "held unlocked = (0, False)" "(lock_step ops)\<^sup>*\<^sup>* (SpinLock_new unlocked v, []) y"
  shows "lock_inv held y"
  using assms(3)
proof induction
  case base
  then show ?case using assms(2) by (simp add: lock_inv_def SpinLock_new_def)
qed (rule lock_step_inv [OF assms(1)])

section \<open>Properties\<close>


text \<open>When every guard has been dropped, the lock can be had by any process.\<close>

theorem lock_available:
  assumes "rw_lock ops held" "held unlocked = (0, False)" "(lock_step ops)\<^sup>*\<^sup>* (SpinLock_new unlocked v, []) (s, [])"
  shows "lock_mut ops q s \<noteq> None"
  using locks_inv [OF assms] assms(1)
  by (auto simp: lock_inv_def lock_mut_def rw_lock_def split: option.splits if_splits dest: spec [of _ "spin_lock s"])

text \<open>The guard of a process that used the lock last holds nothing. Any two processes can come to have mutable
  guards at the same time: the first takes the lock, drops it and takes it again, which does not lock it, and the
  second then takes it.\<close>

theorem same_process_guard_excludes_nobody:
  assumes "rw_lock ops held" "held unlocked = (0, False)" "q \<noteq> p"
  shows "\<exists>s. (lock_step ops)\<^sup>*\<^sup>* (SpinLock_new unlocked v, []) (s, [(q, LockMut Locking), (p, LockMut SameProcess)])"
proof -
  let ?s0 = "SpinLock_new unlocked v" and ?step = "lock_step ops"
  obtain g s1 where g: "lock_mut ops p ?s0 = Some (g, s1)"
    using lock_available [OF assms(1,2), of v ?s0 p] by (cases "lock_mut ops p ?s0") auto
  then have r: "recent_pid s1 = p" by (auto simp: lock_mut_def split: if_splits)
  let ?s2 = "drop_guard ops g s1"
  have "?step (?s0, []) (s1, [(p, g)])" by (rule take_mut [OF g])
  moreover have "?step (s1, [(p, g)]) (?s2, [])" using drop [of p g "[(p, g)]" ops s1] by simp
  ultimately have reach: "?step\<^sup>*\<^sup>* (?s0, []) (?s2, [])" by (rule converse_rtranclp_into_rtranclp [OF _ r_into_rtranclp])
  have r2: "recent_pid ?s2 = p" using r by (auto simp: drop_guard_def split: guard.split LockData.split)
  have again: "lock_mut ops p ?s2 = Some (LockMut SameProcess, ?s2)" using r2 by (simp add: lock_mut_def)
  obtain h s3 where h: "lock_mut ops q ?s2 = Some (h, s3)"
    using lock_available [OF assms(1,2) reach, of q] by auto
  have "h = LockMut Locking" using h r2 assms(3) by (auto simp: lock_mut_def split: if_splits)
  then have "?step (?s2, [(p, LockMut SameProcess)]) (s3, [(q, LockMut Locking), (p, LockMut SameProcess)])"
    using take_mut [OF h] by simp
  moreover have "?step (?s2, []) (?s2, [(p, LockMut SameProcess)])" by (rule take_mut [OF again])
  ultimately show ?thesis by (intro exI [of _ s3] rtranclp.rtrancl_into_rtrancl [OF rtranclp.rtrancl_into_rtrancl [OF reach]])
qed

text \<open>A lock that counts its readers.\<close>

definition counting :: "(nat \<times> bool) RwLock" where
  "counting = \<lparr>rw_write = (\<lambda>l. if l = (0, False) then Some (0, True) else None),
     rw_read = (\<lambda>(n, w). if w then None else Some (Suc n, False)),
     rw_drop_write = (\<lambda>_. (0, False)), rw_drop_read = (\<lambda>(n, _). (n - 1, False))\<rparr>"

lemma counting_rw_lock: "rw_lock counting (\<lambda>l. l)"
  by (auto simp: rw_lock_def counting_def split: option.splits if_splits)


theorem same_process_guard_excludes_nobody_witness:
  "\<exists>s. (lock_step counting)\<^sup>*\<^sup>* (SpinLock_new (0, False) (0 :: nat), []) (s, [(2, LockMut Locking), (1, LockMut SameProcess)])"
  using same_process_guard_excludes_nobody [OF counting_rw_lock, of "(0, False)" 2 1 "0 :: nat"] by simp

end
