(* ===== verification/Page_Clone.thy ===== *)
theory Page_Clone
  imports Kernel_Space
begin

text \<open>
  Copies of page tables (\<open>Table::clone\<close> of \<open>src/src/arch/riscv64/paging.rs\<close>): the copy has tables of its own, and
  translates as the original does.
\<close>

section \<open>The code\<close>

text \<open>The loop over the entries of a table; \<open>body\<close> is the recursive call for a table below. The recursion of the code
  is as deep as the tables; its depth is the bound here, and running out of it a stack overflow.\<close>

fun clone_entries ::
  "(usize \<Rightarrow> machine \<Rightarrow> ('e, usize) result \<times> machine) \<Rightarrow> usize \<Rightarrow> usize \<Rightarrow> usize list \<Rightarrow> machine \<Rightarrow> ('e, unit) result \<times> machine" where
  "clone_entries body self new_table [] m = (Ok (), m)"
| "clone_entries body self new_table (i # is) m =
     (let entry = get_entry (entry_add self i) m
      in if is_invalid entry then clone_entries body self new_table is m
         else if is_branch entry then
           (let flags = get_flags entry; old_table = entry_table entry
            in if old_table = 0 then (Panic ''unwrap on a null table'', m)
               else case body old_table m of
                 (Ok table, m1) \<Rightarrow>
                   if new_table = 0 then (Panic ''unwrap on a null table'', m1)
                   else clone_entries body self new_table is (set_entry (entry_add new_table i) (drop_bit 2 table OR flags) m1)
               | (Err e, m1) \<Rightarrow> (Err e, m1)
               | (Panic s, m1) \<Rightarrow> (Panic s, m1))
         else if new_table = 0 then (Panic ''unwrap on a null table'', m)
         else clone_entries body self new_table is (set_entry (entry_add new_table i) entry m))"

primrec clone_table :: "nat \<Rightarrow> usize \<Rightarrow> machine \<Rightarrow> ('e, usize) result \<times> machine" where
  "clone_table 0 self m = (Panic ''stack overflow'', m)"
| "clone_table (Suc n) self m =
     (case alloc_zeroed (PAGE_SIZE, PAGE_SIZE) m of (new_table, m1) \<Rightarrow>
        case clone_entries (clone_table n) self new_table table_indices m1 of
          (Ok u, m2) \<Rightarrow> (Ok new_table, m2)
        | (Err e, m2) \<Rightarrow> (Err e, m2)
        | (Panic s, m2) \<Rightarrow> (Panic s, m2))"

section \<open>Trees that differ only in their pages\<close>

primrec same_map :: "ptree \<Rightarrow> ptree \<Rightarrow> bool" where
  "same_map Inv u \<longleftrightarrow> u = Inv"
| "same_map (Leaf e) u \<longleftrightarrow> u = Leaf e"
| "same_map (Tab p f) u \<longleftrightarrow> (\<exists>q g. u = Tab q g \<and> (\<forall>i < 512. same_map (f i) (g i)))"

lemma same_map_lookup: "same_map t u \<Longrightarrow> \<forall>i \<in> set is. i < 512 \<Longrightarrow> tlookup u is = tlookup t is"
proof (induction t arbitrary: u "is")
  case (Tab p f)
  then show ?case by (cases "is") auto
qed auto

lemma same_map_shallow: "same_map t u \<Longrightarrow> shallow n t \<Longrightarrow> shallow n u"
proof (induction t arbitrary: u n)
  case (Tab p f)
  then obtain q g where u: "u = Tab q g" "\<forall>i < 512. same_map (f i) (g i)" by auto
  show ?case
  proof (cases n)
    case (Suc k)
    then show ?thesis using Tab u by simp (meson rangeI)
  qed (use Tab in simp)
qed auto

text \<open>The number of tables in a tree.\<close>

definition tables :: "ptree \<Rightarrow> nat" where
  "tables t = length (tfrees t)"

lemma tables_Tab: "tables (Tab p f) = Suc (sum_list (map (\<lambda>i. tables (f i)) table_indices))"
  by (simp add: tables_def length_concat comp_def)

lemma tables_leaf [simp]: "tables Inv = 0" "tables (Leaf e) = 0"
  by (simp_all add: tables_def)

section \<open>Heap\<close>

lemma heap_gives_drop:
  assumes "heap_gives m qs S" "n_alloc m' = n_alloc m + k" "heap_script m' = heap_script m" "k \<le> length qs"
  shows "heap_gives m' (drop k qs) (S \<union> set (take k qs))"
proof -
  have "set (take k qs) \<inter> set (drop k qs) = {}" using assms(1) by (intro set_take_disj_set_drop_if_distinct) (simp_all add: heap_gives_def)
  moreover have "heap_script m (n_alloc m + (k + j)) = Some (qs ! (k + j))" if "k + j < length qs" for j
    using assms(1) that unfolding heap_gives_def by blast
  ultimately show ?thesis
    using assms by (auto simp: heap_gives_def add.assoc dest: in_set_dropD)
qed

lemma heap_gives_take: "heap_gives m qs S \<Longrightarrow> heap_gives m (take k qs) S"
  by (auto simp: heap_gives_def dest: in_set_takeD)

section \<open>The copy of an entry\<close>

lemma clone_entry:
  assumes "pg q = q" "is_valid e" "is_branch e"
  shows "is_valid (drop_bit 2 q OR get_flags e)" "is_branch (drop_bit 2 q OR get_flags e)"
    "entry_table (drop_bit 2 q OR get_flags e) = q"
proof -
  have q: "\<not> bit q n" if "n < 12" for n using assms(1) that unfolding pg_iff by blast
  have low: "bit (drop_bit 2 q OR get_flags e) n \<longleftrightarrow> bit e n" if "n < 10" for n
    using q [of "n + 2"] that unfolding get_flags_def mask_numerals by (auto simp: bit_simps add.commute)
  show "is_valid (drop_bit 2 q OR get_flags e)" using low [of 0] assms(2) by (simp add: is_valid_bit)
  have x: "(0xe :: usize) = push_bit 1 (mask 3)" by (simp add: mask_eq_exp_minus_1)
  have b: "bit (0xe :: usize) n \<Longrightarrow> n < 10" for n unfolding x bit_push_bit_iff bit_mask_iff by auto
  have "(drop_bit 2 q OR get_flags e) AND 0xe = e AND 0xe"
  proof (rule bit_word_eqI)
    fix n
    show "bit ((drop_bit 2 q OR get_flags e) AND 0xe) n = bit (e AND 0xe) n"
      unfolding bit_and_iff using low [of n] b [of n] by blast
  qed
  then show "is_branch (drop_bit 2 q OR get_flags e)" using assms(3) by (simp add: is_branch_def is_leaf_def)
  show "entry_table (drop_bit 2 q OR get_flags e) = q"
  proof (rule page_eqI)
    show "\<forall>n < 12. \<not> bit q n" using q by blast
    show "\<forall>n < 12. \<not> bit (entry_table (drop_bit 2 q OR get_flags e)) n" using pg_entry_table by (simp only: pg_iff)
    fix k :: nat assume "k < 52"
    then show "bit (entry_table (drop_bit 2 q OR get_flags e)) (12 + k) = bit q (12 + k)"
      unfolding entry_table_def get_flags_def mask_numerals by (simp add: bit_fields del: push_bit_or push_bit_and)
  qed
qed

section \<open>The copy implements the same map\<close>

lemma rep_table_frame:
  assumes "rep_table p f mm" "\<And>a. pg a \<in> pages (Tab p f) \<Longrightarrow> mm' a = mm a"
  shows "rep_table p f mm'"
proof -
  let ?e = "drop_bit 2 p OR eb_val EB_V"
  have "pg p = p" using assms(1) by (simp add: rep_table_def)
  then have "rep (Tab p f) mm ?e" using assms(1) enc_valid_branch entry_table_enc by (simp add: rep_Tab)
  then have "rep (Tab p f) mm' ?e" by (rule rep_frame) (rule assms(2))
  then show ?thesis by (simp add: rep_Tab)
qed

lemma writes_frame:
  assumes "rep_table p f (mem m)" "writes {} P n m m'" "P \<inter> pages (Tab p f) = {}"
  shows "rep_table p f (mem m')"
  by (rule rep_table_frame [OF assms(1)]) (use assms(2,3) in \<open>auto simp: writes_def\<close>)

text \<open>What a copy of the table at \<open>p\<close> with children \<open>f\<close> does, with \<open>qs\<close> the next pages of the heap.\<close>

definition copies ::
  "(usize \<Rightarrow> machine \<Rightarrow> ('e, usize) result \<times> machine) \<Rightarrow> usize \<Rightarrow> (usize \<Rightarrow> ptree) \<Rightarrow> usize list \<Rightarrow> machine \<Rightarrow> bool" where
  "copies body p f qs m \<longleftrightarrow>
     (let k = tables (Tab p f)
      in \<exists>q g m'. body p m = (Ok q, m') \<and> rep_table q g (mem m') \<and> same_map (Tab p f) (Tab q g) \<and>
           pages (Tab q g) = set (take k qs) \<and> writes {} (set (take k qs)) k m m')"

lemma clone_one:
  assumes tab: "rep_table p f (mem m)" and new: "rep_table q g (mem m)" and i: "i < 512" "g i = Inv"
    and hp: "heap_gives m qs S" "pages (Tab q g) \<subseteq> S" "tables (f i) \<le> length qs"
    and body: "\<And>r h. f i = Tab r h \<Longrightarrow> copies body r h qs m"
  shows "\<exists>t m'. clone_entries body p q (i # is) m = clone_entries body p q is m' \<and> rep_table q (g(i := t)) (mem m') \<and>
    same_map (f i) t \<and> pages t = set (take (tables (f i)) qs) \<and>
    writes {} (insert q (set (take (tables (f i)) qs))) (tables (f i)) m m'"
proof -
  let ?c = "entry_add q i" and ?k = "tables (f i)"
  have r: "rep (f i) (mem m) (mem m (entry_add p i))" using tab i by (simp add: rep_table_def)
  have q: "q \<noteq> 0" "pg ?c = q" using new i by (simp_all add: rep_table_def pg_entry_add)
  show ?thesis
  proof (cases "f i")
    case Inv
    then show ?thesis using r i(2) new
      by (intro exI [of _ Inv] exI [of _ m]) (auto simp: get_entry_def is_invalid_def writes_def fun_upd_idem)
  next
    case (Leaf e)
    let ?m = "set_entry ?c e m"
    have "rep_table q (g(i := Leaf e)) (mem ?m)"
      by (rule rep_table_update [OF new i(1), where new = "{}"]) (use r Leaf in \<open>auto simp: set_entry_def\<close>)
    moreover have "writes {} {q} 0 m ?m" using q(2) by (auto simp: writes_def set_entry_def)
    ultimately show ?thesis using r Leaf q(1)
      by (intro exI [of _ "Leaf e"] exI [of _ ?m]) (simp add: get_entry_def is_invalid_def is_branch_def Let_def)
  next
    case (Tab r h)
    let ?P = "set (take ?k qs)"
    obtain q' g' m1 where c: "body r m = (Ok q', m1)" "rep_table q' g' (mem m1)" "same_map (f i) (Tab q' g')"
        "pages (Tab q' g') = ?P" "writes {} ?P ?k m m1"
      using body [OF Tab] unfolding copies_def Let_def Tab by blast
    let ?e = "drop_bit 2 q' OR get_flags (mem m (entry_add p i))"
    let ?m = "set_entry ?c ?e m1"
    have e: "is_valid ?e" "is_branch ?e" "entry_table ?e = q'"
      using clone_entry [of q'] c(2) r Tab by (simp_all add: rep_Tab rep_table_def)
    have fresh: "x \<notin> ?P" if "x \<in> S" for x using hp(1) that by (auto simp: heap_gives_def dest: in_set_takeD)
    have "q \<notin> ?P" using fresh hp(2) by simp
    then have "rep_table q' g' (mem ?m)"
      using c(2,4) q(2) by (intro rep_table_frame [OF c(2)]) (auto simp: set_entry_def)
    then have child: "rep (Tab q' g') (mem ?m) (mem ?m ?c)" using e by (simp add: rep_Tab set_entry_def)
    have "rep_table q (g(i := Tab q' g')) (mem ?m)"
    proof (rule rep_table_update [OF new i(1) child])
      show "pages (Tab q' g') \<subseteq> pages (g i) \<union> ?P" using c(4) by simp
      show "pages (g j) \<inter> ?P = {}" if "j < 512" for j using fresh hp(2) that by auto
      show "mem ?m a = mem m a" if "a \<noteq> ?c" "pg a \<notin> ?P" for a
        using that c(5) by (simp add: set_entry_def writes_def)
    qed fact
    moreover have "writes {} (insert q ?P) ?k m ?m" using c(5) q(2) by (auto simp: writes_def set_entry_def)
    moreover have "clone_entries body p q (i # is) m = clone_entries body p q is ?m"
      using c(1) r Tab q(1) rep_table_def [of r h] by (simp add: get_entry_def is_invalid_def rep_Tab Let_def)
    ultimately show ?thesis using c(3,4) by (intro exI [of _ "Tab q' g'"] exI [of _ ?m]) simp
  qed
qed

lemma clone_entries_refines:
  assumes body: "\<And>i r h m qs S. i < 512 \<Longrightarrow> f i = Tab r h \<Longrightarrow> rep_table r h (mem m) \<Longrightarrow> heap_gives m qs S \<Longrightarrow>
      pages (f i) \<subseteq> S \<Longrightarrow> tables (f i) \<le> length qs \<Longrightarrow> copies body r h qs m"
    and "distinct is" "set is \<subseteq> {i. i < 512}" "rep_table p f (mem m)" "rep_table q g (mem m)" "\<forall>i \<in> set is. g i = Inv"
      "heap_gives m qs S" "pages (Tab p f) \<union> pages (Tab q g) \<subseteq> S" "q \<notin> pages (Tab p f)"
      "sum_list (map (\<lambda>i. tables (f i)) is) \<le> length qs"
  defines "N \<equiv> sum_list (map (\<lambda>i. tables (f i)) is)"
  shows "\<exists>g' m'. clone_entries body p q is m = (Ok (), m') \<and> rep_table q g' (mem m') \<and>
    (\<forall>i \<in> set is. same_map (f i) (g' i)) \<and> (\<forall>i. i \<notin> set is \<longrightarrow> g' i = g i) \<and>
    pages (Tab q g') = pages (Tab q g) \<union> set (take N qs) \<and> writes {} (insert q (set (take N qs))) N m m'"
  using assms(2-10) unfolding N_def
proof (induction "is" arbitrary: m g qs S)
  case Nil
  then show ?case by (intro exI [of _ g] exI [of _ m]) (simp add: writes_def)
next
  case (Cons i "is")
  let ?k = "tables (f i)" and ?N = "sum_list (map (\<lambda>i. tables (f i)) is)"
  have i: "i < 512" "g i = Inv" "i \<notin> set is" using Cons.prems by simp_all
  have sub: "pages (f i) \<subseteq> S" using Cons.prems(7) i(1) by auto
  have cp: "copies body r h qs m" if "f i = Tab r h" for r h
  proof (rule body [OF i(1) that _ Cons.prems(6) sub])
    have "rep (f i) (mem m) (mem m (entry_add p i))" using Cons.prems(3) i(1) by (simp add: rep_table_def)
    then show "rep_table r h (mem m)" using that by (simp add: rep_Tab)
  qed (use Cons.prems(9) in simp)
  obtain t m1 where t: "clone_entries body p q (i # is) m = clone_entries body p q is m1"
      "rep_table q (g(i := t)) (mem m1)" "same_map (f i) t" "pages t = set (take ?k qs)"
      "writes {} (insert q (set (take ?k qs))) ?k m m1"
    using clone_one [OF Cons.prems(3,4) i(1,2) Cons.prems(6) _ _ cp, of "is"] Cons.prems(7,9) by auto
  let ?qs = "drop ?k qs" and ?S = "S \<union> set (take ?k qs)"
  have fresh: "x \<notin> set qs" if "x \<in> S" for x using Cons.prems(6) that by (auto simp: heap_gives_def)
  have p: "rep_table p f (mem m1)"
  proof (rule writes_frame [OF Cons.prems(3) t(5)])
    have "set (take ?k qs) \<inter> pages (Tab p f) = {}" using fresh Cons.prems(7) set_take_subset [of ?k qs] by blast
    then show "insert q (set (take ?k qs)) \<inter> pages (Tab p f) = {}" using Cons.prems(8) by blast
  qed
  have gi: "\<forall>j \<in> set is. (g(i := t)) j = Inv" using Cons.prems(5) i(3) by auto
  have pgs: "pages (Tab q (g(i := t))) = pages (Tab q g) \<union> set (take ?k qs)"
    using i(1,2) t(4) by (auto split: if_splits) (metis empty_iff pages.simps(1))
  have hp: "heap_gives m1 ?qs ?S"
    by (rule heap_gives_drop [OF Cons.prems(6)]) (use t(5) Cons.prems(9) in \<open>auto simp: writes_def\<close>)
  have dis: "distinct is" "set is \<subseteq> {i. i < 512}" and len: "?N \<le> length ?qs" using Cons.prems(1,2,9) by simp_all
  have inS: "pages (Tab p f) \<union> pages (Tab q (g(i := t))) \<subseteq> ?S" using Cons.prems(7) unfolding pgs by blast
  obtain g' m' where g': "clone_entries body p q is m1 = (Ok (), m')" "rep_table q g' (mem m')"
      "\<forall>i \<in> set is. same_map (f i) (g' i)" "\<forall>j. j \<notin> set is \<longrightarrow> g' j = (g(i := t)) j"
      "pages (Tab q g') = pages (Tab q (g(i := t))) \<union> set (take ?N ?qs)"
      "writes {} (insert q (set (take ?N ?qs))) ?N m1 m'"
    using Cons.IH [OF dis p t(2) gi hp inS Cons.prems(8) len] by blast
  have tk: "take (?k + ?N) qs = take ?k qs @ take ?N ?qs" by (rule take_add)
  have "writes {} (insert q (set (take (?k + ?N) qs))) (?k + ?N) m m'"
    using t(5) g'(6) unfolding tk by (auto simp: writes_def)
  moreover have "pages (Tab q g') = pages (Tab q g) \<union> set (take (?k + ?N) qs)"
    using g'(5) pgs unfolding tk set_append by blast
  moreover have "g' i = t" using g'(4) i(3) by simp
  ultimately show ?case using t(1,3) g'(1-4) by (intro exI [of _ g'] exI [of _ m']) auto
qed

lemma clone_table_copies:
  assumes "rep_table p f (mem m)" "shallow n (Tab p f)" "heap_gives m qs S" "pages (Tab p f) \<subseteq> S" "tables (Tab p f) \<le> length qs"
  shows "copies (clone_table n :: usize \<Rightarrow> machine \<Rightarrow> ('e, usize) result \<times> machine) p f qs m"
  using assms
proof (induction n arbitrary: p f m qs S)
  case (Suc n)
  let ?N = "sum_list (map (\<lambda>i. tables (f i)) table_indices)"
  obtain q qs' where qs: "qs = q # qs'" using Suc.prems(5) by (cases qs) (simp_all add: tables_Tab)
  note hd = heap_gives_hd [OF Suc.prems(3) [unfolded qs]]
  define m1 where "m1 = snd (alloc_zeroed (0x1000, 0x1000) m)"
  have m1: "mem m1 = (\<lambda>a. if pg a = q then 0 else mem m a)" "writes {} {q} 1 m m1"
    and al: "alloc_zeroed (PAGE_SIZE, PAGE_SIZE) m = (q, m1)"
    using hd pg_block [OF hd(2)]
    by (simp_all add: m1_def alloc_zeroed_def alloc_eq PAGE_SIZE_def writes_def cong: if_cong)
  have qp: "q \<notin> pages (Tab p f)" using hd(4) Suc.prems(4) by blast
  have p: "rep_table p f (mem m1)" by (rule writes_frame [OF Suc.prems(1) m1(2)]) (use qp in simp)
  have "mem m1 (entry_add q i) = 0" if "i < 512" for i using m1(1) pg_entry_add [OF hd(2) that] by simp
  then have q: "rep_table q (\<lambda>_. Inv) (mem m1)" using hd by (simp add: rep_table_def is_valid_bit)
  have hp: "heap_gives m1 qs' (insert q S)"
    using heap_gives_tl [OF Suc.prems(3) [unfolded qs]] m1(2) by (simp add: writes_def)
  have body: "copies (clone_table n :: usize \<Rightarrow> machine \<Rightarrow> ('e, usize) result \<times> machine) r h qs m"
    if "i < 512" "f i = Tab r h" "rep_table r h (mem m)" "heap_gives m qs S" "pages (f i) \<subseteq> S" "tables (f i) \<le> length qs" for i r h m qs S
  proof (rule Suc.IH [OF that(3) _ that(4)])
    show "shallow n (Tab r h)" using that(1,2) Suc.prems(2) by (metis shallow.simps(2))
  qed (use that in simp_all)
  have idx: "set table_indices \<subseteq> {i. i < 512}" by (simp add: set_table_indices)
  have inS: "pages (Tab p f) \<union> pages (Tab q (\<lambda>_. Inv)) \<subseteq> insert q S" using Suc.prems(4) by (auto simp del: pages.simps(3)) simp
  have len: "?N \<le> length qs'" using Suc.prems(5) qs by (simp add: tables_Tab)
  have "\<exists>g' m'. clone_entries (clone_table n) p q table_indices m1 = (Ok () :: ('e, unit) result, m') \<and> rep_table q g' (mem m') \<and>
      (\<forall>i \<in> set table_indices. same_map (f i) (g' i)) \<and> (\<forall>i. i \<notin> set table_indices \<longrightarrow> g' i = Inv) \<and>
      pages (Tab q g') = pages (Tab q (\<lambda>_. Inv)) \<union> set (take ?N qs') \<and> writes {} (insert q (set (take ?N qs'))) ?N m1 m'"
    by (rule clone_entries_refines [OF _ distinct_table_indices idx p q _ hp inS qp len]) (rule body, assumption+, simp)
  then obtain g m2 where g: "clone_entries (clone_table n) p q table_indices m1 = (Ok () :: ('e, unit) result, m2)" "rep_table q g (mem m2)"
      "\<forall>i \<in> set table_indices. same_map (f i) (g i)" "pages (Tab q g) = pages (Tab q (\<lambda>_. Inv)) \<union> set (take ?N qs')"
      "writes {} (insert q (set (take ?N qs'))) ?N m1 m2"
    by blast
  have k: "tables (Tab p f) = Suc ?N" by (rule tables_Tab)
  have "clone_table (Suc n) p m = (Ok q :: ('e, usize) result, m2)" by (simp add: al g(1))
  moreover have "pages (Tab q g) = set (take (Suc ?N) qs)" using g(4) qs by auto
  moreover have "writes {} (set (take (Suc ?N) qs)) (Suc ?N) m m2" using m1(2) g(5) qs by (auto simp: writes_def)
  moreover have "same_map (Tab p f) (Tab q g)" using g(3) by (simp add: set_table_indices)
  ultimately show ?case using g(2) unfolding copies_def Let_def k by blast
qed simp

text \<open>C39: a clone is the same address space in tables of its own. \<open>Table::clone\<close> of a page table returns the root of a
  new one that translates every address as the original does; no table of it is a table of the original, which is
  left as it was. The recursion ends at the depth of three levels.\<close>

theorem clone_same_space:
  assumes "pt_rep root t m" "heap_gives m qs (pages t)" "tables t \<le> length qs"
  shows "\<exists>new t' m'. clone_table 3 root m = (Ok new :: ('e, usize) result, m') \<and> pt_rep new t' m' \<and> pt_rep root t m' \<and>
    pages t' \<inter> pages t = {} \<and>
    (\<forall>vaddr. virt_to_phys new vaddr m' = (virt_to_phys root vaddr m :: ('e, usize option) result))"
proof -
  obtain f where f: "t = Tab root f" "rep_table root f (mem m)" "shallow 3 t" using assms(1) by (auto simp: pt_rep_def)
  have "copies (clone_table 3 :: usize \<Rightarrow> machine \<Rightarrow> ('e, usize) result \<times> machine) root f qs m"
    using clone_table_copies [OF f(2) _ assms(2)] f(1,3) assms(3) by simp
  then obtain q g m' where g: "clone_table 3 root m = (Ok q :: ('e, usize) result, m')" "rep_table q g (mem m')"
      "same_map t (Tab q g)" "pages (Tab q g) = set (take (tables t) qs)" "writes {} (set (take (tables t) qs)) (tables t) m m'"
    unfolding copies_def Let_def f(1) by blast
  have disj: "pages (Tab q g) \<inter> pages t = {}"
    unfolding g(4) using assms(2) set_take_subset [of "tables t" qs] by (auto simp: heap_gives_def)
  have new: "pt_rep q (Tab q g) m'" using g(2) same_map_shallow [OF g(3) f(3)] by (simp add: pt_rep_def)
  have "rep_table root f (mem m')" by (rule writes_frame [OF f(2) g(5)]) (use disj in \<open>simp only: g(4) f(1)\<close>)
  then have old: "pt_rep root t m'" using f by (simp add: pt_rep_def)
  have "tlookup (Tab q g) (vpath v) = tlookup t (vpath v)" for v
    by (rule same_map_lookup [OF g(3)]) (simp add: vpath_def vpn_less)
  then have "virt_to_phys q v m' = (virt_to_phys root v m :: ('e, usize option) result)" for v
    by (simp add: virt_to_phys_refines [OF new] virt_to_phys_refines [OF assms(1)] translate_def)
  then show ?thesis using g(1) new old disj by blast
qed

lemma tables_le: "pt_rep root t m \<Longrightarrow> finite P \<Longrightarrow> pages t \<subseteq> P \<Longrightarrow> tables t \<le> card P"
proof -
  assume a: "pt_rep root t m" "finite P" "pages t \<subseteq> P"
  then obtain f where f: "t = Tab root f" "rep_table root f (mem m)" by (auto simp: pt_rep_def)
  have "pg root = root" using f(2) by (simp add: rep_table_def)
  then have "rep t (mem m) (drop_bit 2 root OR eb_val EB_V)" using f enc_valid_branch entry_table_enc by (simp add: rep_Tab)
  then have "tables t = card (pages t)" using distinct_tfrees by (simp add: tables_def distinct_card flip: set_tfrees)
  then show ?thesis using card_mono [OF a(2,3)] by simp
qed

theorem clone_same_space_witness:
  "\<exists>m1 new m'. map_pt (bump 0) 0x1000 0x90002000 0x6 0 table0 = (Ok () :: (unit, unit) result, m1) \<and>
     clone_table 3 (bump 0) m1 = (Ok new :: (unit, usize) result, m') \<and>
     virt_to_phys new 0x1abc m' = (Ok (Some 0x90002abc) :: (unit, usize option) result)"
proof -
  let ?t = "Tab (bump 0) (\<lambda>_. Inv)" and ?qs = "map bump [1 ..< 6]" and ?e = "leaf_entry 0x90002000 0x6"
  let ?u = "tupdate (vpath 0x1000) ?e (take 2 ?qs) ?t"
  have t: "pt_rep (bump 0) ?t table0" "heap_gives table0 ?qs (pages ?t)"
    using new_root(6,7) [OF machine0_Cons [of 5], of 0] by (simp_all add: table0_def)
  have g2: "heap_gives table0 (take 2 ?qs) (pages ?t)" using t(2) by (rule heap_gives_take)
  obtain m1 where m1: "map_pt (bump 0) 0x1000 0x90002000 0x6 0 table0 = (Ok () :: (unit, unit) result, m1)"
      "pt_rep (bump 0) ?u m1" "writes {} (pages ?t \<union> set (take 2 ?qs)) (length (take 2 ?qs)) table0 m1"
    using map_pt_refines [OF t(1) _ _ g2, of "0x1000" "0x6" "0x90002000", where ?'e = unit] by (auto simp: vpath_def)
  have sub: "pages ?u \<subseteq> pages ?t \<union> set (take 2 ?qs)" by (rule pages_tupdate) (simp add: vpath_def vpn_less)
  have "heap_gives m1 (drop 2 ?qs) (pages ?t \<union> set (take 2 ?qs))"
    by (rule heap_gives_drop [OF t(2)]) (use m1(3) in \<open>simp_all add: writes_def\<close>)
  then have gives: "heap_gives m1 (drop 2 ?qs) (pages ?u)" by (rule heap_gives_mono [OF _ sub])
  have "tables ?u \<le> card {bump 0, bump 1, bump 2}"
    by (rule tables_le [OF m1(2)]) (use sub in \<open>auto simp: upt_rec numeral_2_eq_2\<close>)
  also have "\<dots> \<le> length (drop 2 ?qs)" using card_length [of "[bump 0, bump 1, bump 2]"] by simp
  finally obtain new m' where new: "clone_table 3 (bump 0) m1 = (Ok new :: (unit, usize) result, m')"
      "\<And>v. virt_to_phys new v m' = (virt_to_phys (bump 0) v m1 :: (unit, usize option) result)"
    using clone_same_space [OF m1(2) gives, where ?'e = unit] by blast
  have "vpath 0x1abc = vpath 0x1000" by (simp add: vpath_def vpn_def)
  then have "tlookup ?u (vpath 0x1abc) = Some (?e, 0)" by (simp add: tlookup_tupdate_same vpath_def)
  then have "virt_to_phys (bump 0) 0x1abc m1 = (Ok (Some 0x90002abc) :: (unit, usize option) result)"
    by (simp add: virt_to_phys_refines [OF m1(2)] translate_def leaf_addr_def leaf_entry_def Let_def)
  then show ?thesis using m1(1) new(1) by (intro exI [of _ m1] exI [of _ new] exI [of _ m']) (simp add: new(2))
qed

end
