(* ===== verification/Program_Start.thy ===== *)
theory Program_Start
  imports Loader Trap_Props Syscall_Props
begin

text \<open>
  From the file to the first instruction: a program that \<open>load_program\<close> has loaded is entered, by \<open>user_trap_return\<close> and the
  assembly of \<open>userret\<close>, at the entry point of its executable.
\<close>

section \<open>Loading leaves the process table alone\<close>

text \<open>A call that runs through without a switch and does not change the process table.\<close>

definition table_kept :: "(System kernel, 'e, 'a) kop \<Rightarrow> bool" where
  "table_kept f \<longleftrightarrow> (\<forall>K. \<exists>r K'. f K = Done r K' \<and> ptable (k_pm K') = ptable (k_pm K))"

named_theorems kept

lemma table_kept_bind [kept]:
  assumes "table_kept f" "\<And>a. table_kept (g a)"
  shows "table_kept (bind f g)"
  unfolding table_kept_def
proof
  fix K
  obtain r K' where f: "f K = Done r K'" "ptable (k_pm K') = ptable (k_pm K)" using assms(1) unfolding table_kept_def by blast
  show "\<exists>r K'. bind f g K = Done r K' \<and> ptable (k_pm K') = ptable (k_pm K)"
  proof (cases r)
    case (Ok a)
    then show ?thesis using f assms(2) [of a] unfolding table_kept_def by (simp add: bind_def) metis
  qed (use f in \<open>simp_all add: bind_def\<close>)
qed

lemma table_kept_seq [kept]: "table_kept f \<Longrightarrow> table_kept g \<Longrightarrow> table_kept (seq f g)"
  unfolding seq_def by (rule table_kept_bind)

lemma table_kept_basic [kept]:
  "table_kept (ret a)" "table_kept (throw e)" "table_kept (panic msg)" "table_kept (on_heap h)" "table_kept (on_fs s)"
  "table_kept (on_pm (on_hw w))"
  by (simp_all add: table_kept_def ret_def throw_def panic_def on_heap_eq on_hw_eq on_fs_def Let_def split: prod.split)

lemma table_kept_try_fs [kept]: "table_kept (try_fs f)"
  unfolding try_fs_def by (intro kept) (auto intro: kept split: result.split)

lemma table_kept_load_segments [kept]: "table_kept (load_segments root bin phs)"
  by (induction phs) (auto simp: Let_def intro!: kept split: option.split)

lemma table_kept_load_exe: "table_kept (load_exe n d parse path root)"
  unfolding load_exe_def
  by (intro kept) (auto intro!: kept split: option.split parsed.split)

section \<open>The file that is loaded\<close>

lemma on_fs_eqs:
  "f (fs_of K) = (Ok a, s) \<Longrightarrow> try_fs f K = Done (Ok a) (with_fs s K)"
  by (simp add: try_fs_def on_fs_eq bind_def ret_def)

lemma with_fs_simps [simp]:
  "with_fs s (with_fs s K) = with_fs s K" "fs_of (with_mach m K) = (fs_of K)\<lparr>backing := (fst (backing (fs_of K)), m)\<rparr>"
  by (simp_all add: fs_of_def with_fs_def with_mach_def mach_def)

lemma load_exe_eq:
  assumes inv: "fat_inv d f0 (backing (fs_of K))" and content: "fat_content d f0 ch n path = Some data"
    and size: "fat_size d f0 ch n path = sz" "unat sz < 2 ^ 32" "unat sz \<le> length data"
  shows "\<exists>K1. load_exe n d parse path root K =
    (case parse (take (unat sz) data) of
       None \<Rightarrow> panic ''unwrap on Err''
     | Some OtherObject \<Rightarrow> throw (Msg (path @ '' is not an elf file''))
     | Some (ElfObject elf) \<Rightarrow>
         bind (load_segments root (take (unat sz) data) (program_headers elf)) (\<lambda>segs.
         ret \<lparr>ei_entry = e_entry elf, segment_buffers = segs\<rparr>)) K1"
proof -
  let ?fd = "curr_fd (fs_of K)" and ?w = "take (unat sz) data" and ?opened = "fat_fs.opened d f0 ch n"
  obtain s1 where s1: "open_file (fat_file_size n d) path (fs_of K) = (Ok ?fd, s1)" "?opened s1 ?fd path 0"
    using fat_fs.open_file_opens [OF inv content] by blast
  have gs: "get_file_size ?fd s1 = Ok sz" using s1(2) size(1) by (auto simp: fat_fs.opened_def get_file_size_def)
  have "heap_ok (snd (backing s1))" using s1(2) by (simp add: fat_fs.opened_def fat_inv_def)
  then obtain q m where q: "alloc_zeroed (sz, 0x1000) (snd (backing s1)) = (q, m)" "heap_ok m" by (rule alloc_zeroed_ok)
  let ?K2 = "with_mach m (with_fs s1 K)"
  have "?opened (fs_of ?K2) ?fd path 0" using s1(2) q(2) by (simp add: fat_fs.opened_def fat_inv_def)
  then obtain s3 where s3: "fs_read (fat_read_at n d) ?fd (replicate (unat sz) 0) (fs_of ?K2) = (Ok (of_nat (length ?w), ?w), s3)"
    using fat_fs.read_advances [OF _ content, of "fs_of ?K2" ?fd 0 "replicate (unat sz) 0" ?w] size(2,3) by auto
  have al: "from_size_align sz 0x1000 = Some (sz, 0x1000)" using size(2) by (simp add: from_size_align_def word_le_nat_alt)
  have "on_heap (alloc_zeroed (sz, 0x1000)) (with_fs s1 K) = Done (Ok q) ?K2" using q(1) by (simp add: on_heap_eq)
  moreover have "try_fs (open_file (fat_file_size n d) path) K = Done (Ok ?fd) (with_fs s1 K)" by (rule on_fs_eqs) (rule s1(1))
  moreover have "try_fs (\<lambda>s. (get_file_size ?fd s, s)) (with_fs s1 K) = Done (Ok sz) (with_fs s1 K)"
    using on_fs_eqs [of "\<lambda>s. (get_file_size ?fd s, s)" "with_fs s1 K" sz s1] gs by simp
  moreover have "try_fs (fs_read (fat_read_at n d) ?fd (replicate (unat sz) 0)) ?K2 = Done (Ok (of_nat (length ?w), ?w)) (with_fs s3 ?K2)"
    by (rule on_fs_eqs) (rule s3)
  ultimately show ?thesis
    by (intro exI [of _ "with_mach (put_bytes q ?w (mach (with_fs s3 ?K2))) (with_fs s3 ?K2)"])
       (simp add: load_exe_def bind_def seq_def al on_heap_eq q(1) split: option.split parsed.split)
qed

text \<open>C9: the executable that is loaded is the file. For a file of a FAT32 volume, \<open>load_exe\<close> hands the bytes of the file,
  all of them and nothing else, to the parser; it panics if they cannot be parsed, returns an error if they are no ELF
  file, and otherwise loads the segments that the program headers describe from these bytes.\<close>

theorem load_exe_parses_file:
  assumes "fat_inv d f0 (backing (fs_of K))" "fat_content d f0 ch n path = Some data"
    "fat_size d f0 ch n path = sz" "unat sz < 2 ^ 32" "unat sz \<le> length data"
  shows "case parse (take (unat sz) data) of
      None \<Rightarrow> \<exists>K1. load_exe n d parse path root K = Done (Panic ''unwrap on Err'') K1
    | Some OtherObject \<Rightarrow> \<exists>K1. load_exe n d parse path root K = Done (Err (Msg (path @ '' is not an elf file''))) K1
    | Some (ElfObject elf) \<Rightarrow> \<exists>K1. load_exe n d parse path root K =
        bind (load_segments root (take (unat sz) data) (program_headers elf)) (\<lambda>segs.
        ret \<lparr>ei_entry = e_entry elf, segment_buffers = segs\<rparr>) K1"
  using load_exe_eq [OF assms, of parse root] by (auto simp: panic_def throw_def split: option.split parsed.split)

section \<open>The first instruction\<close>

lemma sat_Done: "sat (\<lambda>_ _ _. False) (\<lambda>_ _. False) Q p \<Longrightarrow> \<exists>r K'. p = Done r K' \<and> Q r K'"
  by (cases p) auto

text \<open>\<open>load_program\<close>, when the executable could be loaded.\<close>

lemma load_program_eq:
  assumes "ptable (k_pm K) pid = Some p" "load_exe n d parse path (page_table (arch_proc p)) K = Done (Ok info) K1"
  defines "K2 \<equiv> K1\<lparr>k_pm := (k_pm K1)\<lparr>ptable := (ptable (k_pm K1))(pid \<mapsto> p\<lparr>arch_proc := (arch_proc p)\<lparr>exec_info := info\<rparr>\<rparr>)\<rparr>\<rparr>"
  shows "load_program n d parse pid path K =
    Done (Ok ()) (with_mach (tf_set (trap_frame (arch_proc p)) TF_epc (ei_entry info) (mach K2)) K2)"
proof -
  have "ptable (k_pm K1) = ptable (k_pm K)"
    using table_kept_load_exe [of n d parse path "page_table (arch_proc p)"] assms(2) unfolding table_kept_def by (metis prog.inject(1))
  then have "ptable (k_pm K1) pid = Some p" using assms(1) by simp
  then have "on_pm (upd_process pid (\<lambda>p. p\<lparr>arch_proc := (arch_proc p)\<lparr>exec_info := info\<rparr>\<rparr>)) K1 = Done (Ok ()) K2"
    by (cases K1) (simp add: K2_def on_pm_def upd_process_def)
  moreover have "on_pm (get_process pid) K = Done (Ok p) K"
    using assms(1) by (cases K) (simp add: on_pm_def get_process_def)
  ultimately show ?thesis
    using assms(2) by (simp add: load_program_def init_program_def bind_def seq_def expect_def on_machine_eq)
qed

lemma load_program_fails:
  assumes "ptable (k_pm K) pid = Some p" "load_exe n d parse path (page_table (arch_proc p)) K = Done r K1" "\<forall>info. r \<noteq> Ok info"
  shows "\<exists>msg. load_program n d parse pid path K = Done (Panic msg) K1"
proof -
  have "on_pm (get_process pid) K = Done (Ok p) K"
    using assms(1) by (cases K) (simp add: on_pm_def get_process_def)
  then show ?thesis
    using assms(2,3) by (cases r) (simp_all add: load_program_def init_program_def bind_def expect_def)
qed

text \<open>C10: a program starts at its entry point. If the executable can be loaded into the address space of a process,
  loading it and returning to user mode end in the jump to \<open>userret\<close> with the process's trap frame and page table, the
  process remembers the executable, and \<open>userret\<close> goes on at the entry point of the file with interrupts enabled,
  wherever the trap frame is mapped. If it cannot, the kernel panics.\<close>

theorem program_starts_at_entry:
  assumes "ptable (k_pm K) pid = Some p"
  shows "case load_exe n d parse path (page_table (arch_proc p)) K of
      Done (Ok info) _ \<Rightarrow>
        \<exists>K'. seq (load_program n d parse pid path) (user_trap_return ep self_ptr pid) K =
             Done (Ok (userret_addr ep, TRAPFRAME, user_satp (arch_proc p))) K' \<and>
          map_option (\<lambda>p. exec_info (arch_proc p)) (ptable (k_pm K') pid) = Some info \<and>
          (mapped tr (user_satp (arch_proc p)) (mem (mach K')) TRAPFRAME (trap_frame (arch_proc p)) 0x1000 \<longrightarrow>
           (\<exists>u. exec tr userret ((mach K')\<lparr>regs := (regs (mach K'))(A0 := TRAPFRAME, A1 := user_satp (arch_proc p))\<rparr>) =
                Jump (ei_entry info) u \<and> csrs u Satp = user_satp (arch_proc p) \<and> bit (csrs u Sstatus) 1))
    | _ \<Rightarrow> \<exists>msg K'. seq (load_program n d parse pid path) (user_trap_return ep self_ptr pid) K = Done (Panic msg) K'"
proof -
  let ?tf = "trap_frame (arch_proc p)" and ?satp = "user_satp (arch_proc p)"
  let ?run = "seq (load_program n d parse pid path) (user_trap_return ep self_ptr pid) K"
  obtain r K1 where l: "load_exe n d parse path (page_table (arch_proc p)) K = Done r K1"
    using table_kept_load_exe unfolding table_kept_def by blast
  show ?thesis
  proof (cases r)
    case (Ok info)
    note ld = load_program_eq [OF assms l [unfolded Ok]]
    let ?p = "p\<lparr>arch_proc := (arch_proc p)\<lparr>exec_info := info\<rparr>\<rparr>"
    let ?K2 = "K1\<lparr>k_pm := (k_pm K1)\<lparr>ptable := (ptable (k_pm K1))(pid \<mapsto> ?p)\<rparr>\<rparr>"
    let ?K = "with_mach (tf_set ?tf TF_epc (ei_entry info) (mach ?K2)) ?K2"
    let ?Q = "\<lambda>r K'. r = Ok (userret_addr ep, TRAPFRAME, ?satp) \<and>
      (\<exists>m y. K' = with_mach m ?K \<and> csrs m Sepc = ei_entry info \<and> csrs m Sstatus = user_sstatus y)"
    have p: "ptable (k_pm ?K) pid = Some ?p" by simp
    have "sat (\<lambda>_ _ _. False) (\<lambda>_ _. False) ?Q (user_trap_return ep self_ptr pid ?K)"
    proof (rule user_trap_return_sat [OF p refl])
      fix m :: machine
      assume "csrs m = (csrs (mach ?K))(Stvec := TRAMPOLINE + (ep_uservec ep - ep_trampoline ep),
          Sstatus := user_sstatus (csrs (mach ?K) Sstatus), Sepc := tf_get (trap_frame (arch_proc ?p)) TF_epc (mach ?K))"
      then have "csrs m Sepc = ei_entry info" "csrs m Sstatus = user_sstatus (csrs (mach ?K) Sstatus)"
        by (simp_all add: tf_get_set)
      then show "?Q (Ok (userret_addr ep, TRAPFRAME, user_satp (arch_proc ?p))) (with_mach m ?K)"
        by (auto simp: user_satp_def intro!: exI [of _ m])
    qed
    then obtain m y where u: "user_trap_return ep self_ptr pid ?K = Done (Ok (userret_addr ep, TRAPFRAME, ?satp)) (with_mach m ?K)"
        "csrs m Sepc = ei_entry info" "csrs m Sstatus = user_sstatus y"
      by (auto dest!: sat_Done)
    have jump: "\<exists>u. exec tr userret (m\<lparr>regs := (regs m)(A0 := TRAPFRAME, A1 := ?satp)\<rparr>) = Jump (ei_entry info) u \<and>
        csrs u Satp = ?satp \<and> bit (csrs u Sstatus) 1" if "mapped tr ?satp (mem m) TRAPFRAME ?tf 0x1000"
      using userret_enters [OF that u(3)] u(2) by auto
    have "?run = Done (Ok (userret_addr ep, TRAPFRAME, ?satp)) (with_mach m ?K)"
      using ld u(1) by (simp add: seq_def bind_def)
    then show ?thesis using jump l Ok by (auto intro!: exI [of _ "with_mach m ?K"])
  next
    case (Err e)
    then show ?thesis using load_program_fails [OF assms l] l by (auto simp: seq_def bind_def)
  next
    case (Panic msg)
    then show ?thesis using load_program_fails [OF assms l] l by (auto simp: seq_def bind_def)
  qed
qed

section \<open>Examples\<close>

definition demo_parse :: "parsed option \<Rightarrow> goblin" where
  "demo_parse r = (\<lambda>_. r)"

definition call_A :: "System \<Rightarrow> System kernel" where
  "call_A y = (open_A y)\<lparr>k_pm := (k_pm (open_A y))\<lparr>ptable := [1 \<mapsto> call_proc]\<rparr>\<rparr>"

lemma call_A_file:
  "fat_inv small_disk small_vol (backing (fs_of (call_A y)))" "ptable (k_pm (call_A y)) 1 = Some call_proc"
  "fat_size small_disk small_vol small_chain 16 ''/A'' = 600" "600 \<le> length (file_data small_disk small_vol [3, 4])"
proof -
  show "fat_inv small_disk small_vol (backing (fs_of (call_A y)))"
    using small_inv by (simp add: call_A_def open_A_def fs_of_def mach_def ProcessManager_new_def)
  show "fat_size small_disk small_vol small_chain 16 ''/A'' = 600"
    using small_path(1,2) by (simp add: fat_size_def fat_lookup_def small_entry_def)
  have "length (drop 510 (file_data small_disk small_vol [3, 4])) = 514" by (simp only: small_data) simp
  then show "600 \<le> length (file_data small_disk small_vol [3, 4])" by (simp del: file_data_simps)
qed (simp add: call_A_def)

theorem load_exe_parses_file_witness:
  "\<forall>y. \<exists>K1. load_exe 16 small_disk (demo_parse (Some OtherObject)) ''/A'' 0x1000 (call_A y) =
     Done (Err (Msg ''/A is not an elf file'')) K1"
proof
  fix y
  show "\<exists>K1. load_exe 16 small_disk (demo_parse (Some OtherObject)) ''/A'' 0x1000 (call_A y) =
     Done (Err (Msg ''/A is not an elf file'')) K1"
    using load_exe_parses_file [OF call_A_file(1) small_content, of 600 "demo_parse (Some OtherObject)" "0x1000"] call_A_file(3,4)
    by (simp add: demo_parse_def del: file_data_simps)
qed

theorem program_starts_at_entry_witness:
  "\<forall>y. \<exists>K' u. seq (load_program 16 small_disk (demo_parse (Some (ElfObject \<lparr>e_entry = 0x10000, program_headers = []\<rparr>))) 1 ''/A'')
       (user_trap_return call_ep (\<lambda>_. 0) 1) (call_A y) =
       Done (Ok (userret_addr call_ep, TRAPFRAME, user_satp (arch_proc call_proc))) K' \<and>
     exec (tr_move TRAPFRAME call_frame) userret
       ((mach K')\<lparr>regs := (regs (mach K'))(A0 := TRAPFRAME, A1 := user_satp (arch_proc call_proc))\<rparr>) = Jump 0x10000 u"
proof
  fix y
  let ?parse = "demo_parse (Some (ElfObject \<lparr>e_entry = 0x10000, program_headers = []\<rparr>))"
  obtain K1 where l: "load_exe 16 small_disk ?parse ''/A'' (page_table (arch_proc call_proc)) (call_A y) =
      Done (Ok \<lparr>ei_entry = 0x10000, segment_buffers = []\<rparr>) K1"
    using load_exe_eq [OF call_A_file(1) [of y] small_content call_A_file(3), of ?parse "page_table (arch_proc call_proc)"] call_A_file(4)
    by (auto simp: demo_parse_def bind_def ret_def simp del: file_data_simps)
  have map: "mapped (tr_move TRAPFRAME call_frame) satp M TRAPFRAME call_frame 0x1000" for satp M by (rule mapped_move)
  from program_starts_at_entry [OF call_A_file(2) [of y], of 16 small_disk ?parse "''/A''" call_ep "\<lambda>_. 0" "tr_move TRAPFRAME call_frame"]
  show "\<exists>K' u. seq (load_program 16 small_disk ?parse 1 ''/A'') (user_trap_return call_ep (\<lambda>_. 0) 1) (call_A y) =
       Done (Ok (userret_addr call_ep, TRAPFRAME, user_satp (arch_proc call_proc))) K' \<and>
     exec (tr_move TRAPFRAME call_frame) userret
       ((mach K')\<lparr>regs := (regs (mach K'))(A0 := TRAPFRAME, A1 := user_satp (arch_proc call_proc))\<rparr>) = Jump 0x10000 u"
    unfolding l by (auto simp: map)
qed

end
