(* ===== verification/Gpu_Props.thy ===== *)
theory Gpu_Props
  imports Virtio_Gpu Virtio_Props Process_Props
begin

text \<open>
  The commands of the display driver: when the driver gives up the processor, the command is with the device.
\<close>

section \<open>Operations of a driver in the kernel\<close>

lemma sat_on_drv [sat_simps]:
  "sat R G Q (on_drv f K) = (case f (k_drv K) of (r, x) \<Rightarrow> Q r (K\<lparr>k_drv := x\<rparr>))"
  by (simp add: on_drv_def lift_def split: prod.split)

lemma sat_upd_drv [sat_simps]: "sat R G Q (upd_drv f K) = Q (Ok ()) (K\<lparr>k_drv := f (k_drv K)\<rparr>)"
  by (simp add: upd_drv_def modify_def)

lemma sat_on_heap [sat_simps]:
  "sat R G Q (on_heap f K) = (case f (hw (k_pm K)) of (a, m) \<Rightarrow> Q (Ok a) (K\<lparr>k_pm := (k_pm K)\<lparr>hw := m\<rparr>\<rparr>))"
  by (cases K) (simp add: on_heap_def on_pm_def on_hw_def lift_def split: prod.split)

text \<open>What a call of the process manager does up to its first switch leaves the driver alone.\<close>

lemma sat_first_switch:
  assumes "\<And>p s. G p \<lparr>k_pm = s, k_drv = k_drv K\<rparr>" "\<And>r s. Q r \<lparr>k_pm = s, k_drv = k_drv K\<rparr>"
  shows "sat (\<lambda>_ _ _. False) G Q (on_pm m K)"
  using assms by (cases "m (k_pm K)") (simp_all add: on_pm_def)

lemma io_wait_eq:
  assumes "ptable s pid = Some p"
  shows "\<exists>s'. io_wait pid s = Done (Ok ()) s'"
  using assms by (simp add: io_wait_def kop_defs irq_disable_eq irq_restore_eq set_state_def upd_process_def)

section \<open>Commands\<close>

definition gpu_wf :: "VirtioGpu \<Rightarrow> bool" where
  "gpu_wf g \<longleftrightarrow> length (g_virtqueue g) = 2 \<and> length (g_free_desc g) = VIRTIO_RING_SIZE \<and>
     vq_avail_ptr (g_virtqueue g ! 0) \<noteq> 0 \<and> length (vq_desc (g_virtqueue g ! 0)) = VIRTIO_RING_SIZE \<and>
     length (av_ring (vq_avail (g_virtqueue g ! 0))) = VIRTIO_RING_SIZE"

text \<open>The chain that the device finds behind the entry \<open>i\<close> of the available ring.\<close>

definition command_chain :: "u16 \<Rightarrow> VirtioGpu \<Rightarrow> (u64 \<times> u32 \<times> u16) list" where
  "command_chain i g =
     (let q = g_virtqueue g ! 0
      in map (\<lambda>d. (vd_addr d, vd_len d, vd_flags d))
           (desc_chain 128 (vq_desc q) (av_ring (vq_avail q) ! (unat i mod VIRTIO_RING_SIZE))))"

text \<open>From \<open>g\<close> to \<open>g'\<close> the message has been handed to the device, with room for a response of the given size.\<close>

definition gpu_published :: "GpuMessage \<Rightarrow> u32 \<Rightarrow> u32 \<Rightarrow> VirtioGpu \<Rightarrow> VirtioGpu \<Rightarrow> bool" where
  "gpu_published msg rq_size rp_size g g' \<longleftrightarrow>
     (let q = g_virtqueue g ! 0; q' = g_virtqueue g' ! 0; idx = av_idx (vq_avail q)
      in (\<exists>req. g_messages g' req = Some msg \<and>
            command_chain idx g' = [(req, rq_size, flag_val VirtqDescFNext), (req + ucast rq_size, rp_size, flag_val VirtqDescFWrite)]) \<and>
         av_idx (vq_avail q') = idx + 1 \<and>
         (\<forall>j < VIRTIO_RING_SIZE. \<not> g_free_desc g ! j \<longrightarrow> vq_desc q' ! j = vq_desc q ! j) \<and>
         last (dv_log (g_dev g')) = RegWrite (g_base g + reg_val QueueNotify) 0)"

lemma chain_of_two:
  assumes "t ! unat i = VirtqDesc a n 1 j" "t ! unat j = VirtqDesc b m 2 k"
  shows "desc_chain 128 t i = [t ! unat i, t ! unat j]"
proof -
  have "desc_chain (Suc (Suc l)) t i = [t ! unat i, t ! unat j]" for l using assms by (simp add: Let_def)
  from this [of 126] show ?thesis by simp
qed

text \<open>Sending: the driver's state at the first switch, or at the end when there is none.\<close>

definition sent_state :: "u16 list \<Rightarrow> VirtioGpu \<Rightarrow> VirtioGpu" where
  "sent_state is g =
     (let q = g_virtqueue g ! 0; a = vq_avail q
      in g\<lparr>g_curr_queue := Controlq,
           g_virtqueue := (g_virtqueue g)[0 := q\<lparr>vq_avail := a\<lparr>av_ring := (av_ring a)[unat (av_idx a) mod VIRTIO_RING_SIZE := is ! 0],
             av_idx := av_idx a + 1\<rparr>\<rparr>], g_desc_indexes := Some is,
           g_dev := write_reg32 (g_base g) (reg_val QueueNotify) 0 (queue_addresses (g_base g) q (g_dev g))\<rparr>)"

lemma send_desc_sat:
  assumes "vq_avail_ptr (g_virtqueue (k_drv K) ! 0) \<noteq> 0" "ptable (k_pm K) (g_pid (k_drv K)) = Some p"
    "\<And>p s. G p \<lparr>k_pm = s, k_drv = sent_state is (k_drv K)\<rparr>" "\<And>r s. Q r \<lparr>k_pm = s, k_drv = sent_state is (k_drv K)\<rparr>"
  shows "sat (\<lambda>_ _ _. False) G Q (gpu_send_desc Controlq is K)"
proof -
  obtain s' where w: "io_wait (g_pid (k_drv K)) (k_pm K) = Done (Ok ()) s'" using io_wait_eq [OF assms(2)] by blast
  have "sat (\<lambda>_ _ _. False) G Q (gpu_send_desc Controlq is K) =
      sat (\<lambda>_ _ _. False) G Q (expect ''process'' (on_pm schedule) \<lparr>k_pm = s', k_drv = sent_state is (k_drv K)\<rparr>)"
    using assms(1) w by (simp add: gpu_send_desc_def sat_simps publish_def Let_def on_pm_def sent_state_def)
  then show ?thesis
    using assms(3,4) by (simp add: sat_expect) (rule sat_first_switch; simp split: result.split)
qed

section \<open>A command is with the device\<close>

text \<open>A driver with fresh queues, and a kernel in which the waiting process is known.\<close>

definition fresh_gpu :: VirtioGpu where
  "fresh_gpu = (let q = no_queue\<lparr>vq_avail_ptr := 0x4000, vq_desc := replicate 128 (VirtqDesc 0 0 0 0)\<rparr>
     in \<lparr>g_base = 0x10002000, g_framebuffer = 0, g_virtqueue = [q, q], g_curr_queue = Controlq, g_free_desc = replicate 128 True,
        g_desc_indexes = None, g_ack_used_index = 0, g_resource_id = 1, g_width = 0, g_height = 0, g_sid = 0, g_pid = 0,
        g_dev = \<lparr>dv_read = (\<lambda>_ _. 0), dv_log = []\<rparr>, g_messages = Map.empty,
        g_response = (\<lambda>_. \<lparr>rd_hdr = hdr_of RespOkNodata, rd_pmodes = []\<rparr>)\<rparr>)"

text \<open>C14: a command of the display driver is with the device before the driver gives up the processor: the next entry
  of the available ring leads to the message, followed by the room for the response that the device may write, the index
  has moved on by one, no descriptor in use has changed, and the last access to the device is the notification.\<close>

theorem gpu_command_published:
  assumes "gpu_wf (k_drv K)" "2 \<le> length (filter (\<lambda>b. b) (g_free_desc (k_drv K)))" "ptable (k_pm K) (g_pid (k_drv K)) \<noteq> None"
  shows "sat (\<lambda>_ _ _. False) (\<lambda>_ K'. gpu_published msg rq_size rp_size (k_drv K) (k_drv K'))
    (\<lambda>r K'. gpu_published msg rq_size rp_size (k_drv K) (k_drv K')) (gpu_request msg rq_size rp_size K)"
proof -
  define g where "g = k_drv K"
  obtain p where p: "ptable (k_pm K) (g_pid (k_drv K)) = Some p" using assms(3) by blast
  have wf: "length (g_virtqueue g) = 2" "vq_avail_ptr (g_virtqueue g ! 0) \<noteq> 0" "length (vq_desc (g_virtqueue g ! 0)) = VIRTIO_RING_SIZE"
    "length (av_ring (vq_avail (g_virtqueue g ! 0))) = VIRTIO_RING_SIZE" "length (g_free_desc g) = VIRTIO_RING_SIZE"
    using assms(1) by (simp_all add: gpu_wf_def g_def)
  obtain "is" free' where a: "allocate_desc 2 (g_free_desc g) = (Ok is :: (ProcessError, u16 list) result, free')" "length is = 2" "distinct is"
    "\<forall>i \<in> set is. unat i < length (g_free_desc g) \<and> g_free_desc g ! unat i"
    using allocate_desc_eq [OF assms(2), where ?'e = ProcessError] wf(5) by (auto simp: VIRTIO_RING_SIZE_def g_def)
  obtain i j where ij: "is = [i, j]" using a(2) by (auto simp: numeral_eq_Suc length_Suc_conv)
  have lt: "unat i < VIRTIO_RING_SIZE" "unat j < VIRTIO_RING_SIZE" and ne: "unat i \<noteq> unat j"
    using a(3,4) wf(5) by (auto simp: ij word_unat_eq_iff)
  obtain req m where al: "alloc (ucast rq_size + ucast rp_size, 8) (hw (k_pm K)) = (req, m)" by fastforce
  define t where "t = (vq_desc (g_virtqueue g ! 0))[unat i := VirtqDesc req rq_size 1 j, unat j := VirtqDesc (req + ucast rq_size) rp_size 2 0]"
  define g1 where "g1 = g\<lparr>g_messages := (g_messages g)(req \<mapsto> msg), g_free_desc := free',
     g_virtqueue := (g_virtqueue g)[0 := (g_virtqueue g ! 0)\<lparr>vq_desc := t\<rparr>]\<rparr>"
  have tv: "t ! unat i = VirtqDesc req rq_size 1 j" "t ! unat j = VirtqDesc (req + ucast rq_size) rp_size 2 0"
    using lt ne wf(3) by (simp_all add: t_def nth_list_update)
  have same: "t ! n = vq_desc (g_virtqueue g ! 0) ! n" if "\<not> g_free_desc g ! n" for n
  proof -
    have "unat i \<noteq> n" "unat j \<noteq> n" using that a(4) by (auto simp: ij)
    then show ?thesis by (simp add: t_def)
  qed
  have pub: "gpu_published msg rq_size rp_size g (sent_state [i, j] g1)"
    using wf tv same chain_of_two [OF tv]
    by (simp add: gpu_published_def sent_state_def Let_def command_chain_def g1_def write_reg32_def reg_write_def VIRTIO_RING_SIZE_def)
  define K1 where "K1 = \<lparr>k_pm = (k_pm K)\<lparr>hw := m\<rparr>, k_drv = g1\<rparr>"
  have "sat (\<lambda>_ _ _. False) G Q (gpu_request msg rq_size rp_size K) = sat (\<lambda>_ _ _. False) G (post_bind (\<lambda>_ _ _. False) G Q (\<lambda>_. ret (req + ucast rq_size))) (gpu_send_desc Controlq [i, j] K1)" for G Q
    using wf lt ne a(1) al
    by (cases K) (simp add: gpu_request_def sat_simps gpu_allocate_desc_def ij gpu_write_desc_def write_desc_def g1_def K1_def g_def t_def)
  then show ?thesis
    using pub wf p
    by (simp add: g_def [symmetric]) (rule send_desc_sat; simp add: K1_def g1_def post_bind_def sat_ret split: result.split)
qed

theorem gpu_command_published_witness:
  "sat (\<lambda>_ _ _. False) (\<lambda>_ K'. gpu_published (CtrlHdr (hdr_of CmdGetDisplayInfo)) 24 408 fresh_gpu (k_drv K'))
    (\<lambda>r K'. gpu_published (CtrlHdr (hdr_of CmdGetDisplayInfo)) 24 408 fresh_gpu (k_drv K'))
    (gpu_request (CtrlHdr (hdr_of CmdGetDisplayInfo)) 24 408 \<lparr>k_pm = pm0, k_drv = fresh_gpu\<rparr>)"
proof -
  have "gpu_wf fresh_gpu"
    by (simp add: gpu_wf_def fresh_gpu_def VIRTIO_RING_SIZE_def no_queue_def VirtqAvail_new_def Let_def)
  moreover have "2 \<le> length (filter (\<lambda>b. b) (g_free_desc fresh_gpu))" "ptable pm0 (g_pid fresh_gpu) \<noteq> None"
    by (simp_all add: fresh_gpu_def Let_def pm0_def)
  ultimately show ?thesis using gpu_command_published [of "\<lparr>k_pm = pm0, k_drv = fresh_gpu\<rparr>"] by simp
qed

end
