(* ===== verification/Interrupt_Props.thy ===== *)
theory Interrupt_Props
  imports Boot_Props Trap_Props Sleep_Queue
begin

text \<open>
  From a device's interrupt to the process that waits for it: the claim at the interrupt controller, the driver's
  \<open>pending\<close>, the event that wakes the waiting processes and the completion.
\<close>

section \<open>The first switch of a call\<close>

lemma first_state_bind:
  assumes "\<And>a s. P (first_state (f a s)) = P s"
  shows "P (first_state (bind_prog p f)) = P (first_state p)"
  using assms by (cases p) (auto split: result.split)

lemma first_state_pm [simp]: "first_state (pm_prog x p) = \<lparr>k_pm = first_state p, k_drv = x\<rparr>"
  by (cases p) simp_all

lemma first_state_expect [simp]: "first_state (expect_prog m p) = first_state p"
  by (cases p) (simp_all split: result.split)

lemma first_state_zoom [simp]:
  "first_state (zoom_prog get put y p) = \<lparr>k_pm = k_pm (first_state p), k_drv = put (k_drv (first_state p)) y\<rparr>"
  by (cases p) simp_all

section \<open>Waking all that wait for an event\<close>

lemma ready_all:
  assumes "d_count (defer_sched s) > 0" "set pids \<subseteq> dom (ptable s)" "pm_inv s"
  shows "for_each ready pids s = Done (Ok ()) (fold mark_ready pids s) \<and> pm_inv (fold mark_ready pids s) \<and>
    d_count (defer_sched (fold mark_ready pids s)) = d_count (defer_sched s) \<and>
    (awake s x \<or> (x \<in> set pids \<and> st s x = Some EventWait) \<longrightarrow> awake (fold mark_ready pids s) x)"
  using assms
proof (induction pids arbitrary: s)
  case (Cons pid pids)
  obtain p where p: "ptable s pid = Some p" using Cons.prems by auto
  have r: "for_each ready (pid # pids) s = for_each ready pids (mark_ready pid s)"
    using ready_deferred [OF _ p] Cons.prems by (simp add: seq_def bind_def)
  have "awake s x \<or> (x \<in> set (pid # pids) \<and> st s x = Some EventWait) \<longrightarrow>
      awake (mark_ready pid s) x \<or> (x \<in> set pids \<and> st (mark_ready pid s) x = Some EventWait)"
    by (auto simp: awake_def mark_ready_st)
  then show ?case unfolding r using Cons.IH [of "mark_ready pid s"] Cons.prems mark_ready_inv by auto
qed (auto simp: ret_def)

text \<open>\<open>event_signal\<close> takes the waiting processes off the event's queue and makes each of them ready.\<close>

lemma event_signal_readies:
  assumes inv: "pm_inv s" and d: "d_count (defer_sched s) = 0" and q: "event_queue s event = Some pids"
    and x: "x \<in> set pids" "st s x = Some EventWait"
  shows "awake (first_state (event_signal event s)) x"
proof -
  let ?s = "started (off (s\<lparr>event_queue := (event_queue s)(event := None)\<rparr>))"
  have sub: "set pids \<subseteq> dom (ptable s)" using pm_invD(7) [OF inv q] by blast
  have "pm_inv (s\<lparr>event_queue := (event_queue s)(event := None)\<rparr>)"
    by (rule inv_event_queue [OF inv]) (auto split: if_splits dest!: pm_invD(7) [OF inv])
  then have i: "pm_inv ?s" by simp
  let ?w = "fold mark_ready pids ?s"
  have w: "for_each ready pids ?s = Done (Ok ()) ?w" "pm_inv ?w" "d_count (defer_sched ?w) = 1" "awake ?w x"
    using ready_all [of ?s pids x] i sub d x by (simp_all add: started_def)
  let ?u = "?w\<lparr>defer_sched := (defer_sched ?w)\<lparr>d_count := 0\<rparr>\<rparr>"
  have u: "pm_inv ?u" "awake ?u x" using w by (simp_all add: awake_def)
  have "event_signal event s = bind_prog (if d_attempt (defer_sched ?w) then bind_prog (schedule ?u) (\<lambda>_. schedule) else schedule ?u)
      (\<lambda>_. irq_restore (imask s))"
    using q w(1,3)
    by (simp add: event_signal_def bind_def seq_def ret_def gets_def modify_def irq_disable_eq defer_start_eq
        defer_stop_eq Let_def bind_prog_assoc)
  then show ?thesis using u schedule_awake [OF u(1), of x] schedule_twice_awake [OF u(1), of x] by simp
qed

section \<open>The input driver's interrupt\<close>

text \<open>The device has filled the next \<open>n\<close> of its buffers, in the order in which it got them.\<close>

definition filled :: "nat \<Rightarrow> nat \<Rightarrow> VirtioInput \<Rightarrow> bool" where
  "filled t n v \<longleftrightarrow> ring_ok t (t + 64) v \<and> n \<le> 64 \<and> vq_used_ptr (i_virtqueue v ! 0) \<noteq> 0 \<and>
     (let used = vq_used (i_virtqueue v ! 0)
      in us_idx used = of_nat (t + n) \<and> (\<forall>k < n. ue_id (us_ring used ! ((t + k) mod 128)) = of_nat ((t + k) mod 128)))"

definition events_of :: "nat \<Rightarrow> nat \<Rightarrow> VirtioInput \<Rightarrow> VirtioInputEvent list" where
  "events_of t n v = map (\<lambda>k. i_memory v (buffer_of v k)) [t..<t + n]"

lemma ring_ok_dev [simp]: "ring_ok lo hi (v\<lparr>i_dev := d\<rparr>) = ring_ok lo hi v" "buffer_of (v\<lparr>i_dev := d\<rparr>) = buffer_of v"
  by (simp_all add: ring_ok_def Let_def buffer_of_def fun_eq_iff)

lemma input_pending_first:
  assumes f: "filled t n (k_drv K)" and ev: "event = (case i_device_type (k_drv K) of MouseDevice \<Rightarrow> MouseEvent | KeyboardDevice \<Rightarrow> KeyboardEvent)"
  shows "\<exists>v'. i_event_queue v' = i_event_queue (k_drv K) @ events_of t n (k_drv K) \<and> ring_ok (t + n) (t + n + 64) v' \<and>
    k_drv (first_state (input_pending K)) = v' \<and>
    st (k_pm (first_state (input_pending K))) = st (first_state (event_signal event (off (k_pm K))))"
proof -
  define v where "v = k_drv K"
  obtain s d where rd: "read_reg32 (i_base v) (reg_val InterruptStatus) (i_dev v) = (s, d)" by fastforce
  define v1 where "v1 = v\<lparr>i_dev := write_reg32 (i_base v) (reg_val InterruptACK) (s AND 3) d\<rparr>"
  let ?used = "vq_used (i_virtqueue v1 ! 0)"
  have r: "ring_ok t (t + 64) v1" "n \<le> 64" "us_idx ?used = of_nat (t + n)" "vq_used_ptr (i_virtqueue v1 ! 0) \<noteq> 0"
    "\<forall>k < n. ue_id (us_ring ?used ! ((t + k) mod 128)) = of_nat ((t + k) mod 128)"
    using f by (simp_all add: filled_def v1_def Let_def v_def)
  obtain v' where v': "event_loop n ?used 0 v1 = (Ok () :: (ProcessError, unit) result, v')" "ring_ok (t + n) (t + n + 64) v'"
    "i_event_queue v' = i_event_queue v1 @ map (\<lambda>k. i_memory v1 (buffer_of v1 k)) [t..<t + n]"
    using event_loop_eq [OF r(1,2,3,5), where ?'e = ProcessError] by blast
  have fuel: "unat (us_idx ?used - i_event_ack_used_index v1) = n" and q: "i_curr_queue v1 = Eventq"
    using r(1,2,3) by (simp_all add: ring_ok_def unat_of_nat)
  have eq: "input_pending K = bind_prog (expect_prog ''process'' (pm_prog v' (event_signal event (off (k_pm K))))) (\<lambda>_. on_pm (irq_restore (imask (k_pm K))))"
    using rd fuel q v'(1) r(4) ev [folded v_def]
    by (cases K) (simp add: input_pending_def bind_def seq_def gets_def upd_drv_def modify_def on_drv_def lift_def on_pm_def expect_def
        irq_disable_eq v1_def v_def Let_def)
  have "k_drv (first_state (input_pending K)) = v'" "st (k_pm (first_state (input_pending K))) = st (first_state (event_signal event (off (k_pm K))))"
    unfolding eq
    by (subst first_state_bind [of k_drv], simp_all add: on_pm_def irq_restore_eq)
       (subst first_state_bind [of "\<lambda>K. st (k_pm K)"], simp_all add: on_pm_def irq_restore_eq restored_def)
  then show ?thesis using v'(2,3) by (intro exI [of _ v']) (simp add: v1_def events_of_def v_def)
qed

section \<open>The interrupt of the mouse\<close>

lemma sat_any: "(\<And>r s. Q r s) \<Longrightarrow> sat R (\<lambda>_ _. True) Q p"
  by (induction p) simp_all

lemma mouse_dispatch_first:
  assumes "MOUSE_DEVICE (sy_devs (k_drv K)) = Some v"
  shows "first_state (on_devs (virtio_interrupt 3) K) =
    (let K1 = first_state (input_pending \<lparr>k_pm = k_pm K, k_drv = v\<rparr>)
     in \<lparr>k_pm = k_pm K1, k_drv = (k_drv K)\<lparr>sy_devs := (sy_devs (k_drv K))\<lparr>MOUSE_DEVICE := Some (k_drv K1)\<rparr>\<rparr>\<rparr>)"
  using assms by (simp add: on_devs_def virtio_interrupt_def on_device_def Let_def)

text \<open>C12: an interrupt of the mouse reaches the desktop. When the interrupt controller reports the mouse and the
  device has filled some of its buffers, then, before the processor can go to another process, their events are in
  the driver's queue in order, the device has as many buffers as before, and every process that waited for the
  mouse is ready or running. When the handler returns, the last thing the interrupt controller has
  seen is the completion of this interrupt, whatever ran in between.\<close>

theorem mouse_interrupt_delivers:
  assumes "mouse_of K = Some v" "filled t n v" "i_device_type v = MouseDevice" "fst (claim plic (sy_plic (k_drv K))) = 3"
    "pm_inv (k_pm K)" "d_count (defer_sched (k_pm K)) = 0"
  shows "(let K' = first_state (interrupt plic 9 K)
     in (\<exists>v'. mouse_of K' = Some v' \<and> i_event_queue v' = i_event_queue v @ events_of t n v \<and> ring_ok (t + n) (t + n + 64) v') \<and>
        (\<forall>pids pid. event_queue (k_pm K) MouseEvent = Some pids \<and> pid \<in> set pids \<and> st (k_pm K) pid = Some EventWait \<longrightarrow>
           st (k_pm K') pid \<in> {Some Ready, Some Running})) \<and>
    sat (\<lambda>_ _ _. True) (\<lambda>_ _. True) (\<lambda>r K'. r = Ok () \<longrightarrow> last (dv_log (sy_plic (k_drv K'))) = RegWrite (plic + plic_val Sclaim) 3)
      (interrupt plic 9 K)"
proof -
  obtain d where c: "claim plic (sy_plic (k_drv K)) = (3, d)" using assms(4) by (cases "claim plic (sy_plic (k_drv K))") auto
  define K1 where "K1 = K\<lparr>k_drv := (k_drv K)\<lparr>sy_plic := d\<rparr>\<rparr>"
  have eq: "interrupt plic 9 K =
      bind_prog (on_devs (virtio_interrupt 3) K1) (\<lambda>_. upd_drv (\<lambda>y. y\<lparr>sy_plic := complete plic 3 (sy_plic y)\<rparr>))"
    using c by (simp add: interrupt_def bind_def seq_def on_drv_def lift_def K1_def)
  have m: "MOUSE_DEVICE (sy_devs (k_drv K1)) = Some v" using assms(1) by (simp add: mouse_of_def K1_def)
  let ?Kp = "\<lparr>k_pm = k_pm K1, k_drv = v\<rparr>"
  obtain v' where v': "i_event_queue v' = i_event_queue v @ events_of t n v" "ring_ok (t + n) (t + n + 64) v'"
    "k_drv (first_state (input_pending ?Kp)) = v'"
    "st (k_pm (first_state (input_pending ?Kp))) = st (first_state (event_signal MouseEvent (off (k_pm K))))"
    using input_pending_first [of t n ?Kp MouseEvent] assms(2,3) by (auto simp: K1_def)
  have f: "mouse_of (first_state (interrupt plic 9 K)) = Some v'"
    "st (k_pm (first_state (interrupt plic 9 K))) = st (first_state (event_signal MouseEvent (off (k_pm K))))"
    unfolding eq
    by (subst first_state_bind [of mouse_of], simp_all add: mouse_of_def upd_drv_def modify_def mouse_dispatch_first [OF m] v'(3) Let_def)
       (subst first_state_bind [of "\<lambda>K. st (k_pm K)"], simp_all add: upd_drv_def modify_def mouse_dispatch_first [OF m] v'(4) Let_def)
  have aw: "st (k_pm (first_state (interrupt plic 9 K))) pid \<in> {Some Ready, Some Running}"
    if "event_queue (k_pm K) MouseEvent = Some pids" "pid \<in> set pids" "st (k_pm K) pid = Some EventWait" for pids pid
    using event_signal_readies [of "off (k_pm K)" MouseEvent pids pid] assms(5,6) that by (simp add: f(2) awake_def)
  have "sat (\<lambda>_ _ _. True) (\<lambda>_ _. True) (\<lambda>r K'. r = Ok () \<longrightarrow> last (dv_log (sy_plic (k_drv K'))) = RegWrite (plic + plic_val Sclaim) 3)
      (interrupt plic 9 K)"
    unfolding eq sat_bind_prog
    by (rule sat_any) (simp add: post_bind_def upd_drv_def modify_def complete_def plic_write_reg32_def reg_write_def split: result.split)
  then show ?thesis using f(1) v'(1,2) aw unfolding Let_def by blast
qed

text \<open>A mouse that has filled one buffer, and the desktop's process 2 waiting for it.\<close>

definition moved_mouse :: VirtioInput where
  "moved_mouse = demo_input\<lparr>i_event_index := 64, i_virtqueue := [no_queue\<lparr>vq_avail_ptr := 0x4000, vq_used_ptr := 0x5000,
     vq_desc := map (\<lambda>k. VirtqDesc (0x9000 + 8 * of_nat k) 8 2 0) [0..<128],
     vq_avail := (VirtqAvail_new 0 64 0)\<lparr>av_ring := map of_nat [0..<128]\<rparr>, vq_used := VirtqUsed_new 0 1 0\<rparr>, no_queue]\<rparr>"

definition pm_wait :: ProcessManager where
  "pm_wait = pm0\<lparr>ptable := (ptable pm0)(2 \<mapsto> proc0 2 7 EventWait), stable := (\<lambda>_. None), event_queue := [MouseEvent \<mapsto> [2]]\<rparr>"

lemma pm_wait_inv: "pm_inv pm_wait"
  by (auto simp: pm_wait_def pm_inv_def pq.heap_def st_def split: if_splits)

lemma moved_mouse_filled: "filled 0 1 moved_mouse"
  by (auto simp: filled_def ring_ok_def moved_mouse_def demo_input_def Let_def VirtqAvail_new_def VirtqUsed_new_def buffer_of_def
      buffer_no_def VIRTIO_RING_SIZE_def)

definition mouse_kernel :: "System \<Rightarrow> System kernel" where
  "mouse_kernel y = \<lparr>k_pm = pm_wait, k_drv = y\<lparr>sy_devs := (sy_devs y)\<lparr>MOUSE_DEVICE := Some moved_mouse\<rparr>,
     sy_plic := \<lparr>dv_read = (\<lambda>_ _. 3), dv_log = []\<rparr>\<rparr>\<rparr>"

theorem mouse_interrupt_delivers_witness:
  "\<forall>y. let K' = first_state (interrupt 0xc000000 9 (mouse_kernel y))
    in (\<exists>v'. mouse_of K' = Some v' \<and> i_event_queue v' = [\<lparr>ev_type = 2, ev_code = 0, ev_value = 0x9000\<rparr>]) \<and>
       st (k_pm K') 2 \<in> {Some Ready, Some Running}"
proof
  fix y
  have k: "k_pm (mouse_kernel y) = pm_wait" "mouse_of (mouse_kernel y) = Some moved_mouse" "i_device_type moved_mouse = MouseDevice"
    "fst (claim 0xc000000 (sy_plic (k_drv (mouse_kernel y)))) = 3" "d_count (defer_sched pm_wait) = 0"
    "event_queue pm_wait MouseEvent = Some [2]" "st pm_wait 2 = Some EventWait" "i_event_queue moved_mouse = []"
    "events_of 0 1 moved_mouse = [\<lparr>ev_type = 2, ev_code = 0, ev_value = 0x9000\<rparr>]"
    by (simp_all add: mouse_kernel_def mouse_of_def moved_mouse_def demo_input_def claim_def plic_read_reg32_def reg_read_def
        pm_wait_def st_def events_of_def buffer_of_def buffer_no_def)
  show "let K' = first_state (interrupt 0xc000000 9 (mouse_kernel y))
    in (\<exists>v'. mouse_of K' = Some v' \<and> i_event_queue v' = [\<lparr>ev_type = 2, ev_code = 0, ev_value = 0x9000\<rparr>]) \<and>
       st (k_pm K') 2 \<in> {Some Ready, Some Running}"
    using mouse_interrupt_delivers [OF k(2) moved_mouse_filled k(3,4)] pm_wait_inv k by (auto simp: Let_def)
qed

end
