(* ===== verification/Boot_Start.thy ===== *)
theory Boot_Start
  imports Boot_Props Sleep_Queue
begin

text \<open>
  The end of \<open>kmain\<close>: the kernel's two processes are made while scheduling is deferred, so that neither runs before both are
  there.
\<close>

section \<open>Making a kernel process while scheduling is deferred\<close>

definition ident :: "ProcessManager \<Rightarrow> usize \<Rightarrow> (string \<times> usize \<times> usize) option" where
  "ident s x = map_option (\<lambda>p. (p_name p, p_priority p, ctx_ra (ap_context (arch_proc p)))) (ptable s x)"

lemma ArchProcess_init_entry:
  assumes "ArchProcess_init ep self_ptr func stk sz ap m = (Ok ap', m')"
  shows "ctx_ra (ap_context ap') = func"
  using assms by (auto simp: ArchProcess_init_def init_context_def and_then_def Let_def split: prod.splits result.splits)

lemma create_kernel_deferred:
  assumes inv: "pm_inv s" and w: "curr_pid s + 1 \<noteq> 0" and d: "0 < d_count (defer_sched s)" "d_count (defer_sched s) + 1 \<noteq> 0"
  shows "\<exists>r s'. create_kernel_process ep self_ptr name priority func s = Done r s' \<and>
    ((\<exists>msg. r = Panic msg) \<or>
     (\<exists>p m. r = Ok (curr_pid s) \<and> s' = s\<lparr>curr_pid := curr_pid s + 1, ptable := (ptable s)(curr_pid s \<mapsto> p), hw := m\<rparr> \<and> pm_inv s' \<and>
        p_state p = Suspend \<and> ident s' (curr_pid s) = Some (name, priority, func)))"
proof -
  let ?pid = "curr_pid s"
  obtain p m1 where n: "Process_new ?pid (hw s) = (p, m1)" by fastforce
  obtain stk m2 where a: "alloc (KERNEL_STACK_SIZE, 0x1000) m1 = (stk, m2)" by fastforce
  obtain ap m3 where an: "ArchProcess_new ?pid m2 = (ap, m3)" by fastforce
  obtain r m4 where i: "ArchProcess_init ep (self_ptr ?pid) func stk KERNEL_STACK_SIZE ap m3 = (r :: (ProcessError, ArchProcess) result, m4)" by fastforce
  have ne: "r \<noteq> Err e" for e
    using ArchProcess_init_no_Err [of ep "self_ptr ?pid" func stk KERNEL_STACK_SIZE ap m3 e] i by simp
  have ch: "p_children p = []" using n by (auto simp: Process_new_def split: prod.splits)
  have ds: "d_count (defer_sched s) \<noteq> 0" using d(1) by auto
  note defs = create_kernel_process_def create_process_def setup_kernel_process_def bind_def seq_def ret_def gets_def modify_def
    defer_start_eq defer_stop_eq started_def upd_process_def set_state_def get_process_def on_hw_def lift_def Let_def
  show ?thesis
  proof (cases r)
    case (Ok ap')
    let ?p = "p\<lparr>p_priority := priority, p_name := name, p_kernel_stack := stk, p_state := Suspend, arch_proc := ap'\<rparr>"
    have "pm_inv (s\<lparr>curr_pid := ?pid + 1, ptable := (ptable s)(?pid \<mapsto> ?p)\<rparr>)" by (rule inv_new_process [OF inv w]) (simp_all add: ch)
    moreover have "create_kernel_process ep self_ptr name priority func s =
        Done (Ok ?pid) (s\<lparr>curr_pid := ?pid + 1, ptable := (ptable s)(?pid \<mapsto> ?p), hw := m4\<rparr>)"
      using n a an i Ok ds by (cases s) (simp add: defs)
    ultimately show ?thesis
      using ArchProcess_init_entry [of ep "self_ptr ?pid" func stk KERNEL_STACK_SIZE ap m3 ap' m4, where ?'a = ProcessError] i Ok
      by (auto simp: ident_def)
  next
    case (Panic msg)
    then show ?thesis using n a an i ds by (simp add: defs)
  qed (use ne in blast)
qed

section \<open>The two processes\<close>

lemma mark_ready_ident [simp]: "ident (mark_ready pid s) = ident s" "curr_pid (mark_ready pid s) = curr_pid s"
  by (auto simp: ident_def mark_ready_def fun_eq_iff split: option.split)

lemma schedule_ident:
  assumes inv: "pm_inv s" and x: "x \<noteq> running s"
  shows "ident (first_state (schedule s)) x = ident s x"
proof (cases "d_count (defer_sched s) = 0")
  case False
  then show ?thesis by (simp add: schedule_deferred word_gt_0 ident_def)
next
  case d: True
  from inv show ?thesis
  proof (cases rule: ready_cases)
    case none
    then show ?thesis using schedule_none [OF d none(1)] by (simp add: ident_def)
  next
    case (some d' q p)
    obtain old where old: "ptable s (running s) = Some old" using pm_invD(1) [OF inv] by auto
    have ne: "p_state old = Running \<longrightarrow> running s \<noteq> pd_pid d'" using some(5,6) old by auto
    show ?thesis
      unfolding schedule_some [OF d some(1) old some(5) ne]
      using some(5,6) old ne x by (auto simp: dispatch_def ident_def context_switch_def Let_def split: option.splits)
  qed
qed

definition make_ready_process :: "entry_points \<Rightarrow> (usize \<Rightarrow> usize) \<Rightarrow> string \<Rightarrow> usize \<Rightarrow> usize \<Rightarrow> unit pop" where
  "make_ready_process ep self_ptr name priority func = bind (create_kernel_process ep self_ptr name priority func) ready"

text \<open>A new process is ready, and all others are as they were.\<close>

definition made :: "string \<Rightarrow> usize \<Rightarrow> usize \<Rightarrow> ProcessManager \<Rightarrow> ProcessManager \<Rightarrow> bool" where
  "made name priority func s s' \<longleftrightarrow>
     pm_inv s' \<and> curr_pid s' = curr_pid s + 1 \<and> d_count (defer_sched s') = d_count (defer_sched s) \<and> running s' = running s \<and>
     ident s' (curr_pid s) = Some (name, priority, func) \<and> st s' (curr_pid s) = Some Ready \<and>
     (\<forall>x. x \<noteq> curr_pid s \<longrightarrow> ident s' x = ident s x \<and> st s' x = st s x)"

lemma make_ready_made:
  assumes "pm_inv s" "curr_pid s + 1 \<noteq> 0" "d_count (defer_sched s) = 1"
  shows "(\<exists>msg s'. make_ready_process ep self_ptr name priority func s = Done (Panic msg) s') \<or>
    (\<exists>s'. make_ready_process ep self_ptr name priority func s = Done (Ok ()) s' \<and> made name priority func s s')"
proof -
  obtain r s2 where c: "create_kernel_process ep self_ptr name priority func s = Done r s2"
    "(\<exists>msg. r = Panic msg) \<or> (\<exists>p m. r = Ok (curr_pid s) \<and> s2 = s\<lparr>curr_pid := curr_pid s + 1, ptable := (ptable s)(curr_pid s \<mapsto> p), hw := m\<rparr> \<and>
        pm_inv s2 \<and> p_state p = Suspend \<and> ident s2 (curr_pid s) = Some (name, priority, func))"
    using create_kernel_deferred [OF assms(1,2), of ep self_ptr name priority func] assms(3) by auto
  show ?thesis
  proof (cases "\<exists>msg. r = Panic msg")
    case True
    then show ?thesis using c(1) by (auto simp: make_ready_process_def bind_def)
  next
    case False
    then obtain p m where p: "r = Ok (curr_pid s)" "s2 = s\<lparr>curr_pid := curr_pid s + 1, ptable := (ptable s)(curr_pid s \<mapsto> p), hw := m\<rparr>"
      "pm_inv s2" "p_state p = Suspend" "ident s2 (curr_pid s) = Some (name, priority, func)" using c(2) by blast
    have "ready (curr_pid s) s2 = Done (Ok ()) (mark_ready (curr_pid s) s2)" using p(2) assms(3) by (simp add: ready_deferred)
    moreover have "st s2 x = (if x = curr_pid s then Some Suspend else st s x)" "x \<noteq> curr_pid s \<Longrightarrow> ident s2 x = ident s x" for x
      using p(2,4) by (simp_all add: st_def ident_def)
    ultimately show ?thesis
      using c(1) p mark_ready_inv [OF p(3)] by (simp add: make_ready_process_def bind_def made_def mark_ready_st)
  qed
qed

definition two_processes :: "entry_points \<Rightarrow> (usize \<Rightarrow> usize) \<Rightarrow> usize \<Rightarrow> usize \<Rightarrow> unit pop" where
  "two_processes ep self_ptr f1 f2 =
     seq (defer_schedule Start)
    (seq (make_ready_process ep self_ptr ''fs'' 1 f1)
    (seq (make_ready_process ep self_ptr ''kproc'' 2 f2)
         (defer_schedule Stop)))"

definition both_there :: "ProcessManager \<Rightarrow> usize \<Rightarrow> usize \<Rightarrow> ProcessManager \<Rightarrow> bool" where
  "both_there s f1 f2 s' \<longleftrightarrow>
     ident s' (curr_pid s) = Some (''fs'', 1, f1) \<and> st s' (curr_pid s) \<in> {Some Ready, Some Running} \<and>
     ident s' (curr_pid s + 1) = Some (''kproc'', 2, f2) \<and> st s' (curr_pid s + 1) \<in> {Some Ready, Some Running}"

lemma two_processes_first:
  assumes inv: "pm_inv s" and w: "curr_pid s + 1 \<noteq> 0" "curr_pid s + 1 + 1 \<noteq> 0" and d: "d_count (defer_sched s) = 0"
  shows "(\<exists>msg s'. two_processes ep self_ptr f1 f2 s = Done (Panic msg) s') \<or> both_there s f1 f2 (first_state (two_processes ep self_ptr f1 f2 s))"
proof -
  let ?a = "curr_pid s" and ?b = "curr_pid s + 1"
  have s1: "pm_inv (started s)" "curr_pid (started s) + 1 \<noteq> 0" "d_count (defer_sched (started s)) = 1"
    using inv w(1) d by (simp_all add: started_def)
  consider (stop) msg s' where "make_ready_process ep self_ptr ''fs'' 1 f1 (started s) = Done (Panic msg) s'"
    | (go) s2 where "make_ready_process ep self_ptr ''fs'' 1 f1 (started s) = Done (Ok ()) s2" "made ''fs'' 1 f1 (started s) s2"
    using make_ready_made [OF s1] by blast
  then show ?thesis
  proof cases
    case stop
    then show ?thesis by (simp add: two_processes_def seq_def bind_def defer_start_eq)
  next
    case (go s2)
    have s2: "pm_inv s2" "curr_pid s2 = ?b" "d_count (defer_sched s2) = 1" "curr_pid s2 + 1 \<noteq> 0" using go(2) s1 w(2) by (simp_all add: made_def)
    consider (stop) msg s' where "make_ready_process ep self_ptr ''kproc'' 2 f2 s2 = Done (Panic msg) s'"
      | (go2) s3 where "make_ready_process ep self_ptr ''kproc'' 2 f2 s2 = Done (Ok ()) s3" "made ''kproc'' 2 f2 s2 s3"
      using make_ready_made [OF s2(1,4,3)] by blast
    then show ?thesis
    proof cases
      case stop
      then show ?thesis using go(1) by (simp add: two_processes_def seq_def bind_def defer_start_eq)
    next
      case (go2 s3)
      let ?u = "s3\<lparr>defer_sched := (defer_sched s3)\<lparr>d_count := 0\<rparr>\<rparr>"
      have "?a \<noteq> ?b" by simp
      then have s3: "pm_inv s3" "d_count (defer_sched s3) = 1" "running s3 = running s" "ident s3 ?a = Some (''fs'', 1, f1)"
        "ident s3 ?b = Some (''kproc'', 2, f2)" "st s3 ?a = Some Ready" "st s3 ?b = Some Ready"
        using go(2) go2(2) s2 by (simp_all add: made_def)
      have run: "running s \<noteq> ?a" "running s \<noteq> ?b"
        using pm_invD(11) [OF inv pm_invD(1) [OF inv]] pm_invD(11) [OF s2(1) pm_invD(1) [OF s2(1)]] go(2) s2(2) by (auto simp: made_def)
      have "pm_inv ?u" using s3(1) by simp
      note sc = schedule_ident [OF this] schedule_awake [OF this, unfolded awake_def]
      have "two_processes ep self_ptr f1 f2 s = (if d_attempt (defer_sched s3) then schedule ?u else Done (Ok ()) ?u)"
        using go(1) go2(1) s3(2) by (simp add: two_processes_def seq_def bind_def defer_start_eq defer_stop_eq Let_def)
      then show ?thesis
        using sc(1) [of ?a] sc(1) [of ?b] sc(2) [of ?a] sc(2) [of ?b] run s3 by (auto simp: both_there_def ident_def)
    qed
  qed
qed

section \<open>The end of \<open>kmain\<close>\<close>

lemma pm_prog_bind: "pm_prog x (bind_prog p f) = bind_prog (pm_prog x p) (\<lambda>a. on_pm (f a))"
  by (induction p arbitrary: x) (auto simp: on_pm_def split: result.split)

lemma on_pm_bind: "on_pm (bind m f) = bind (on_pm m) (\<lambda>a. on_pm (f a))"
  by (simp add: fun_eq_iff bind_def on_pm_def pm_prog_bind)

lemma expect_prog_bind: "expect_prog e (bind_prog p f) = bind_prog (expect_prog e p) (\<lambda>a s. expect_prog e (f a s))"
  by (induction p) (auto split: result.split)

lemma expect_bind: "expect e (bind m f) = bind (expect e m) (\<lambda>a. expect e (f a))"
  by (simp add: fun_eq_iff bind_def expect_def expect_prog_bind)

lemma bind_assoc: "bind (bind m f) g = bind m (\<lambda>a. bind (f a) g)"
  by (simp add: fun_eq_iff bind_def bind_prog_assoc)

lemma kmain_processes_eq:
  "kmain_processes be =
     seq (on_csrs timer_interrupt_off)
    (seq (on_csrs interrupt_on)
    (seq (expect ''process'' (on_pm (two_processes (ce_entry (be_call be)) (ce_self_ptr (be_call be)) (be_fs_proc be) (be_kproc be))))
         (on_csrs timer_interrupt_on)))"
  by (simp add: kmain_processes_def two_processes_def make_ready_process_def seq_def on_pm_bind expect_bind bind_assoc)

lemma sat_first_state:
  assumes "\<And>p. G p \<lparr>k_pm = first_state (m (k_pm K)), k_drv = k_drv K\<rparr>" "\<And>r. Q r \<lparr>k_pm = first_state (m (k_pm K)), k_drv = k_drv K\<rparr>"
  shows "sat (\<lambda>_ _ _. False) G Q (on_pm m K)"
  using assms by (cases "m (k_pm K)") (simp_all add: on_pm_def)

lemma both_there_hw [simp]: "both_there (s\<lparr>hw := m\<rparr>) f1 f2 s' = both_there s f1 f2 s'" "both_there s f1 f2 (s'\<lparr>hw := m\<rparr>) = both_there s f1 f2 s'"
  by (simp_all add: both_there_def ident_def st_def)



end
