(* ===== verification/Boot_Stack.thy ===== *)
theory Boot_Stack
  imports Assembly
begin

text \<open>
  The first instructions of every hart (\<open>src/src/arch/riscv64/boot.S\<close>, entered through \<open>_bootriscv64\<close> of \<open>boot.rs\<close>): a stack for each
  hart, and the call of \<open>start\<close>. The addresses of the stack region, of \<open>start\<close> and of the label \<open>spin\<close> are parameters; \<open>mv\<close>
  is an addition of 0 and \<open>la\<close> loads an address.
\<close>

definition boot_S :: "usize \<Rightarrow> usize \<Rightarrow> usize \<Rightarrow> Instr list" where
  "boot_S stack_start start_ptr spin =
     [ADDI T0 A0 0, LI Sp stack_start, LI A0 0x4000, CSRR A1 Mhartid, ADDI A1 A1 1, MUL A0 A0 A1, ADD Sp Sp A0,
      ADDI A0 T0 0, CALL start_ptr spin]"

text \<open>The stack of a hart: 16 KiB that grow down from \<open>hart_sp\<close>.\<close>

definition hart_sp :: "usize \<Rightarrow> usize \<Rightarrow> usize" where
  "hart_sp stack_start h = stack_start + 0x4000 * (h + 1)"

lemma unat_hart_sp:
  assumes "unat stack_start + 0x40000 < 2 ^ 64" "h < 16"
  shows "unat (hart_sp stack_start h) = unat stack_start + 0x4000 * (unat h + 1)"
proof -
  have h: "unat h < 16" using assms(2) by (simp add: word_less_nat_alt)
  then have "unat (h + 1) = unat h + 1" by (simp add: unat_word_ariths)
  moreover from this h have "unat (0x4000 * (h + 1)) = 0x4000 * (unat h + 1)" by (simp add: unat_word_ariths(2) del: distrib_left_numeral)
  ultimately show ?thesis using assms(1) h by (simp add: hart_sp_def unat_word_ariths(1) del: distrib_left_numeral)
qed

text \<open>The boot code calls \<open>start\<close> with the argument it was given (the function to run), the hart's own stack and the
  memory as it was.\<close>

theorem boot_S_enters_start:
  "\<exists>m'. exec tr (boot_S stack_start start_ptr spin) m = Jump start_ptr m' \<and> regs m' A0 = regs m A0 \<and> regs m' Ra = spin \<and>
     regs m' Sp = hart_sp stack_start (csrs m Mhartid) \<and> mem m' = mem m \<and> csrs m' = csrs m"
  by (simp add: boot_S_def hart_sp_def set_reg_def csr_read_def)

text \<open>The region of \<open>0x40000\<close> bytes that the linker scripts set aside has room for the stacks of 16 harts, and no two of
  them overlap.\<close>

theorem hart_stacks_disjoint:
  assumes "unat stack_start + 0x40000 < 2 ^ 64" "h < 16" "h' < 16" "h \<noteq> h'"
  shows "stack_start \<le> hart_sp stack_start h - 0x4000" "hart_sp stack_start h \<le> stack_start + 0x40000"
    "hart_sp stack_start h \<le> hart_sp stack_start h' - 0x4000 \<or> hart_sp stack_start h' \<le> hart_sp stack_start h - 0x4000"
proof -
  note s = unat_hart_sp [OF assms(1,2)] unat_hart_sp [OF assms(1,3)]
  have d: "unat (hart_sp stack_start x - 0x4000) = unat stack_start + 0x4000 * unat x" if "x < 16" for x
    using unat_hart_sp [OF assms(1) that] by (simp add: unat_sub word_le_nat_alt)
  have h: "unat h < 16" using assms(2) by (simp add: word_less_nat_alt)
  show "stack_start \<le> hart_sp stack_start h - 0x4000" using d [OF assms(2)] by (simp add: word_le_nat_alt)
  have "unat (stack_start + 0x40000) = unat stack_start + 0x40000" using assms(1) by (simp add: unat_word_ariths(1))
  then show "hart_sp stack_start h \<le> stack_start + 0x40000" using s h by (simp add: word_le_nat_alt)
  have "unat h < unat h' \<or> unat h' < unat h" using assms(4) by (metis linorder_neqE_nat word_unat_eq_iff)
  then show "hart_sp stack_start h \<le> hart_sp stack_start h' - 0x4000 \<or> hart_sp stack_start h' \<le> hart_sp stack_start h - 0x4000"
    using s d [OF assms(2)] d [OF assms(3)] by (auto simp: word_le_nat_alt)
qed

end
