(* ===== verification/Serial_Port.thy ===== *)
theory Serial_Port
  imports Console
begin

text \<open>
  The serial port over any device that sends bytes (\<open>src/src/arch/serial.rs\<close>: the traits \<open>SerialIO\<close>, \<open>SerialInit\<close> and \<open>Write\<close>
  for \<open>Serial\<close>). What a client relies on is the locale \<open>serial_io\<close>; it is interpreted on the UART of the RISC-V port here and
  on that of the AArch64 port in \<open>Aarch64\<close>. Sending may wait for the device, so \<open>put\<close> is partial: \<open>None\<close> is a wait that
  never ends.
\<close>

fun put_bytes_with :: "(u8 \<Rightarrow> 'd \<Rightarrow> 'd option) \<Rightarrow> u8 list \<Rightarrow> 'd \<Rightarrow> 'd option" where
  "put_bytes_with put [] d = Some d"
| "put_bytes_with put (c # cs) d = (case put c d of None \<Rightarrow> None | Some d' \<Rightarrow> put_bytes_with put cs d')"

definition serial_write_str :: "(u8 \<Rightarrow> 'd \<Rightarrow> 'd option) \<Rightarrow> string \<Rightarrow> 'd \<Rightarrow> 'd option" where
  "serial_write_str put out d = put_bytes_with put (concat (map utf8 out)) d"

locale serial_io =
  fixes put :: "u8 \<Rightarrow> 'd \<Rightarrow> 'd option"
    and out :: "'d \<Rightarrow> u8 list"
    and alive :: "'d \<Rightarrow> bool"
  assumes put_sends: "alive d \<Longrightarrow> \<exists>d'. put c d = Some d' \<and> alive d' \<and> out d' = out d @ [c]"
begin

lemma put_bytes_sends: "alive d \<Longrightarrow> \<exists>d'. put_bytes_with put cs d = Some d' \<and> alive d' \<and> out d' = out d @ cs"
proof (induction cs arbitrary: d)
  case (Cons c cs)
  obtain d1 where d1: "put c d = Some d1" "alive d1" "out d1 = out d @ [c]" using put_sends [OF Cons.prems] by blast
  then show ?case using Cons.IH [OF d1(2)] by auto
qed simp

lemma write_str_sends:
  assumes "alive d"
  shows "\<exists>d'. serial_write_str put s d = Some d' \<and> alive d' \<and> out d' = out d @ concat (map utf8 s)"
  using put_bytes_sends [OF assms] by (simp add: serial_write_str_def)

end

text \<open>The UART of the RISC-V port always accepts a byte.\<close>

definition uart_put_total :: "usize \<Rightarrow> u8 \<Rightarrow> device \<Rightarrow> device option" where
  "uart_put_total uart c d = Some (uart_put uart c d)"

lemma sent_append: "sent a (log @ log') = sent a log @ sent a log'"
  by (simp add: sent_def)

interpretation riscv_serial: serial_io "uart_put_total uart" "\<lambda>d. sent uart (dv_log d)" "\<lambda>_. True" for uart
  by unfold_locales (simp add: uart_put_total_def uart_put_def reg_write_def sent_append, simp add: sent_def)

text \<open>\<open>write_str\<close> of \<open>Serial\<close> is this serial port on the RISC-V UART.\<close>

lemma write_str_port: "serial_write_str (uart_put_total uart) s d = Some (write_str uart s d)"
proof -
  have "put_bytes_with (uart_put_total uart) cs d = Some (put_all uart cs d)" for cs
    by (induction cs arbitrary: d) (simp_all add: uart_put_total_def)
  then show ?thesis by (simp add: serial_write_str_def write_str_def)
qed

end
