(* ===== verification/Aarch64.thy ===== *)
theory Aarch64
  imports Serial_Port
begin

text \<open>
  The AArch64 port (\<open>src/src/arch/aarch64\<close>), which so far has a console only: the registers (\<open>gpio.rs\<close>, \<open>layout.rs\<close>), the mini
  UART (\<open>uart.rs\<close>), the serial port on it (\<open>serial.rs\<close>) and the start (\<open>start.rs\<close>, \<open>init.rs\<close>). The UART is polled: a wait for
  it that never ends is \<open>None\<close>. The two delay loops of \<open>init\<close> count down and touch nothing.
\<close>

section \<open>Registers\<close>

datatype Reg =
    AUX_ENABLE | AUX_MU_IO | AUX_MU_IER | AUX_MU_IIR | AUX_MU_LCR | AUX_MU_MCR | AUX_MU_LSR | AUX_MU_MSR | AUX_MU_SCRATCH
  | AUX_MU_CNTL | AUX_MU_STAT | AUX_MU_BAUD
  | GPFSEL0 | GPFSEL1 | GPFSEL2 | GPFSEL3 | GPFSEL4 | GPFSEL5 | GPSET0 | GPSET1 | GPCLR0 | GPLEV0 | GPLEV1 | GPEDS0 | GPEDS1
  | GPHEN0 | GPHEN1 | GPPUD | GPPUDCLK0 | GPPUDCLK1

fun gpio_val :: "Reg \<Rightarrow> usize" where
  "gpio_val AUX_ENABLE = 0x00215004"
| "gpio_val AUX_MU_IO = 0x00215040"
| "gpio_val AUX_MU_IER = 0x00215044"
| "gpio_val AUX_MU_IIR = 0x00215048"
| "gpio_val AUX_MU_LCR = 0x0021504C"
| "gpio_val AUX_MU_MCR = 0x00215050"
| "gpio_val AUX_MU_LSR = 0x00215054"
| "gpio_val AUX_MU_MSR = 0x00215058"
| "gpio_val AUX_MU_SCRATCH = 0x0021505C"
| "gpio_val AUX_MU_CNTL = 0x00215060"
| "gpio_val AUX_MU_STAT = 0x00215064"
| "gpio_val AUX_MU_BAUD = 0x00215068"
| "gpio_val GPFSEL0 = 0x00200000"
| "gpio_val GPFSEL1 = 0x00200004"
| "gpio_val GPFSEL2 = 0x00200008"
| "gpio_val GPFSEL3 = 0x0020000C"
| "gpio_val GPFSEL4 = 0x00200010"
| "gpio_val GPFSEL5 = 0x00200014"
| "gpio_val GPSET0 = 0x0020001C"
| "gpio_val GPSET1 = 0x00200020"
| "gpio_val GPCLR0 = 0x00200028"
| "gpio_val GPLEV0 = 0x00200034"
| "gpio_val GPLEV1 = 0x00200038"
| "gpio_val GPEDS0 = 0x00200040"
| "gpio_val GPEDS1 = 0x00200044"
| "gpio_val GPHEN0 = 0x00200064"
| "gpio_val GPHEN1 = 0x00200068"
| "gpio_val GPPUD = 0x00200094"
| "gpio_val GPPUDCLK0 = 0x00200098"
| "gpio_val GPPUDCLK1 = 0x0020009C"

definition MMIO_BASE :: usize where
  "MMIO_BASE = 0x3F000000"

definition mu_read_reg :: "Reg \<Rightarrow> device \<Rightarrow> u32 \<times> device" where
  "mu_read_reg r d = (case reg_read (MMIO_BASE + gpio_val r) d of (v, d') \<Rightarrow> (ucast v, d'))"

definition mu_write_reg :: "Reg \<Rightarrow> u32 \<Rightarrow> device \<Rightarrow> device" where
  "mu_write_reg r v d = reg_write (MMIO_BASE + gpio_val r) (ucast v) d"

section \<open>The mini UART\<close>

definition mu_init :: "device \<Rightarrow> device" where
  "mu_init d0 =
     (case mu_read_reg AUX_ENABLE d0 of (enable, d1) \<Rightarrow>
      let d2 = mu_write_reg AUX_ENABLE (enable OR 1) d1;
          d3 = mu_write_reg AUX_MU_CNTL 0 d2;
          d4 = mu_write_reg AUX_MU_LCR 3 d3;
          d5 = mu_write_reg AUX_MU_MCR 0 d4;
          d6 = mu_write_reg AUX_MU_IER 0 d5;
          d7 = mu_write_reg AUX_MU_IIR 0xc6 d6;
          d8 = mu_write_reg AUX_MU_BAUD 270 d7
      in case mu_read_reg GPFSEL1 d8 of (r, d9) \<Rightarrow>
         let r = r AND NOT (push_bit 12 7 OR push_bit 15 7);
             r = r OR (push_bit 12 2 OR push_bit 15 2);
             d10 = mu_write_reg GPFSEL1 r d9;
             d11 = mu_write_reg GPPUD 0 d10;
             d12 = mu_write_reg GPPUDCLK0 (push_bit 14 1 OR push_bit 15 1) d11;
             d13 = mu_write_reg GPPUDCLK0 0 d12
         in mu_write_reg AUX_MU_CNTL 3 d13)"

text \<open>The loop that waits until a bit of the line status is set.\<close>

partial_function (option) mu_wait :: "u32 \<Rightarrow> device \<Rightarrow> device option" where
  "mu_wait flag d = (case mu_read_reg AUX_MU_LSR d of (lsr, d') \<Rightarrow> if lsr AND flag = 0 then mu_wait flag d' else Some d')"

definition mu_put :: "u8 \<Rightarrow> device \<Rightarrow> device option" where
  "mu_put c d = (case mu_wait 0x20 d of None \<Rightarrow> None | Some d' \<Rightarrow> Some (mu_write_reg AUX_MU_IO (ucast c) d'))"

definition mu_get :: "device \<Rightarrow> (u8 \<times> device) option" where
  "mu_get d = (case mu_wait 0x01 d of
       None \<Rightarrow> None
     | Some d1 \<Rightarrow> (case mu_read_reg AUX_MU_IO d1 of (v, d2) \<Rightarrow>
         let r = ucast v :: u8 in Some (if r = 13 then 10 else r, d2)))"

section \<open>Start\<close>

definition aarch64_init_all :: "device \<Rightarrow> device" where
  "aarch64_init_all d = mu_init d"

text \<open>\<open>start\<close> up to its endless loop.\<close>

definition aarch64_start :: "device \<Rightarrow> device option" where
  "aarch64_start d = serial_write_str mu_put (''Hello, world!'' @ CRLF) (aarch64_init_all d)"

text \<open>\<open>boot.S\<close>: every core but the first waits for ever (\<open>None\<close>); the first sets the stack pointer, clears \<open>__bss_size\<close> double words from
  \<open>__bss_start\<close> on, and calls \<open>start\<close> with that stack pointer and memory.\<close>

function clear_bss :: "u32 \<Rightarrow> usize \<Rightarrow> (usize \<Rightarrow> u64) \<Rightarrow> usize \<Rightarrow> u64" where
  "clear_bss w2 x1 ram = (if w2 = 0 then ram else clear_bss (w2 - 1) (x1 + 8) (ram(x1 := 0)))"
  by pat_completeness auto

termination clear_bss
  by (relation "measure (\<lambda>(w2, _). unat w2)") (simp_all add: unat_minus_one unat_gt_0)

declare clear_bss.simps [simp del]

definition aarch64_boot :: "u64 \<Rightarrow> usize \<Rightarrow> usize \<Rightarrow> u32 \<Rightarrow> (usize \<Rightarrow> u64) \<Rightarrow> (usize \<times> (usize \<Rightarrow> u64)) option" where
  "aarch64_boot mpidr stack_end bss_start bss_size ram =
     (if mpidr AND 3 = 0 then Some (stack_end, clear_bss bss_size bss_start ram) else None)"

section \<open>Waiting\<close>

abbreviation LSR :: usize where
  "LSR \<equiv> MMIO_BASE + gpio_val AUX_MU_LSR"

text \<open>The log after \<open>n\<close> polls of the line status.\<close>

primrec polled :: "(reg_access list \<Rightarrow> usize \<Rightarrow> u64) \<Rightarrow> nat \<Rightarrow> reg_access list \<Rightarrow> reg_access list" where
  "polled f 0 log = log"
| "polled f (Suc n) log = polled f n (log @ [RegRead LSR (f log LSR)])"

text \<open>Whatever has happened to it, the device sets the flag after finitely many polls.\<close>

definition gets_ready :: "u32 \<Rightarrow> (reg_access list \<Rightarrow> usize \<Rightarrow> u64) \<Rightarrow> bool" where
  "gets_ready flag f \<longleftrightarrow> (\<forall>log. \<exists>n. ucast (f (polled f n log) LSR) AND flag \<noteq> 0)"

lemma mu_wait_step:
  "mu_wait flag d =
     (let v = dv_read d (dv_log d) LSR; d' = d\<lparr>dv_log := dv_log d @ [RegRead LSR v]\<rparr>
      in if ucast v AND flag = 0 then mu_wait flag d' else Some d')"
  by (subst mu_wait.simps) (simp add: mu_read_reg_def reg_read_def Let_def)

lemma mu_wait_polls:
  assumes "ucast (dv_read d (polled (dv_read d) n (dv_log d)) LSR) AND flag \<noteq> 0"
  shows "\<exists>k \<le> n. mu_wait flag d = Some (d\<lparr>dv_log := polled (dv_read d) (Suc k) (dv_log d)\<rparr>)"
  using assms
proof (induction n arbitrary: d)
  case 0
  then show ?case by (subst mu_wait_step) (simp add: Let_def)
next
  case (Suc n)
  let ?d = "d\<lparr>dv_log := dv_log d @ [RegRead LSR (dv_read d (dv_log d) LSR)]\<rparr>"
  show ?case
  proof (cases "ucast (dv_read d (dv_log d) LSR) AND flag = 0")
    case True
    obtain k where k: "k \<le> n" "mu_wait flag ?d = Some (?d\<lparr>dv_log := polled (dv_read d) (Suc k) (dv_log ?d)\<rparr>)"
      using Suc.IH [of ?d] Suc.prems by auto
    then show ?thesis using True by (intro exI [of _ "Suc k"]) (subst mu_wait_step, simp add: Let_def)
  next
    case False
    then show ?thesis by (intro exI [of _ 0]) (subst mu_wait_step, simp add: Let_def)
  qed
qed

lemma sent_polled: "sent a (polled f n log) = sent a log"
  by (induction n arbitrary: log) (simp_all add: sent_append, simp add: sent_def)

lemma mu_wait_ready:
  assumes "gets_ready flag (dv_read d)"
  shows "\<exists>d'. mu_wait flag d = Some d' \<and> dv_read d' = dv_read d \<and> (\<forall>a. sent a (dv_log d') = sent a (dv_log d))"
proof -
  obtain n where "ucast (dv_read d (polled (dv_read d) n (dv_log d)) LSR) AND flag \<noteq> 0" using assms by (auto simp: gets_ready_def)
  from mu_wait_polls [OF this] show ?thesis by (auto simp: sent_polled simp del: polled.simps)
qed

abbreviation mu_out :: "device \<Rightarrow> u8 list" where
  "mu_out d \<equiv> sent (MMIO_BASE + gpio_val AUX_MU_IO) (dv_log d)"

lemma mu_put_sends:
  assumes "gets_ready 0x20 (dv_read d)"
  shows "\<exists>d'. mu_put c d = Some d' \<and> gets_ready 0x20 (dv_read d') \<and> mu_out d' = mu_out d @ [c]"
proof -
  have c: "ucast (ucast (ucast c :: u32) :: u64) = c" by (rule bit_word_eqI) (simp add: bit_ucast_iff)
  obtain d1 where d1: "mu_wait 0x20 d = Some d1" "dv_read d1 = dv_read d" "\<forall>a. sent a (dv_log d1) = sent a (dv_log d)"
    using mu_wait_ready [OF assms] by blast
  then show ?thesis using assms c by (simp add: mu_put_def mu_write_reg_def reg_write_def sent_append) (simp add: sent_def)
qed

interpretation mini_uart: serial_io mu_put mu_out "\<lambda>d. gets_ready 0x20 (dv_read d)"
  by unfold_locales (rule mu_put_sends)

section \<open>The port comes up\<close>

lemma mu_init_log:
  "dv_read (mu_init d) = dv_read d" "mu_out (mu_init d) = mu_out d"
  "last (dv_log (mu_init d)) = RegWrite (MMIO_BASE + gpio_val AUX_MU_CNTL) 3"
  by (simp_all add: mu_init_def mu_read_reg_def mu_write_reg_def reg_read_def reg_write_def sent_def Let_def MMIO_BASE_def)

text \<open>The AArch64 port comes up with its greeting. If the UART, however long it takes, becomes ready again
  after every byte, \<open>start\<close> comes to its final loop, and what the UART has been sent is the greeting, every byte after the
  transmitter was enabled as the last step of the initialisation.\<close>

theorem aarch64_start_greets:
  assumes "gets_ready 0x20 (dv_read d)" "dv_log d = []"
  shows "\<exists>d'. aarch64_start d = Some d' \<and> decode (mu_out d') = ''Hello, world!'' @ CRLF \<and> mu_out (mu_init d) = [] \<and>
    last (dv_log (mu_init d)) = RegWrite (MMIO_BASE + gpio_val AUX_MU_CNTL) 3"
proof -
  have "mu_out (mu_init d) = []" unfolding mu_init_log(2) using assms(2) by (simp add: sent_def)
  moreover obtain d' where "aarch64_start d = Some d'" "mu_out d' = mu_out (mu_init d) @ concat (map utf8 (''Hello, world!'' @ CRLF))"
    using mini_uart.write_str_sends [of "mu_init d" "''Hello, world!'' @ CRLF"] assms(1)
    unfolding aarch64_start_def aarch64_init_all_def by (auto simp: mu_init_log(1))
  ultimately show ?thesis by (simp add: mu_init_log(3) decode_utf8 decode_string)
qed

text \<open>A UART that is busy at every other poll.\<close>

definition slow_uart :: device where
  "slow_uart = \<lparr>dv_read = (\<lambda>log a. if even (length log) then 0x20 else 0), dv_log = []\<rparr>"

lemma slow_uart_ready: "gets_ready 0x20 (dv_read slow_uart)"
proof -
  have "\<exists>n. ucast (f (polled f n log) LSR) AND (0x20 :: u32) \<noteq> 0" if "f = dv_read slow_uart" for f log
    by (cases "even (length log)"; rule exI [of _ "if even (length log) then 0 else Suc 0"]) (simp_all add: that slow_uart_def)
  then show ?thesis by (simp add: gets_ready_def)
qed

theorem aarch64_start_greets_witness:
  "\<exists>d'. aarch64_start slow_uart = Some d' \<and> decode (mu_out d') = ''Hello, world!'' @ CRLF"
  using aarch64_start_greets [OF slow_uart_ready] by (auto simp: slow_uart_def)

section \<open>The boot code\<close>

lemma clear_bss_clears:
  "clear_bss w2 x1 ram = (\<lambda>a. if a \<in> (\<lambda>i. x1 + 8 * of_nat i) ` {..< unat w2} then 0 else ram a)"
proof (induction w2 x1 ram rule: clear_bss.induct)
  case (1 w2 x1 ram)
  show ?case
  proof (cases "w2 = 0")
    case False
    then have u: "unat w2 = Suc (unat (w2 - 1))" by (simp add: unat_minus_one unat_gt_0)
    have "{..< unat w2} = insert 0 (Suc ` {..< unat (w2 - 1)})" unfolding u by (rule lessThan_Suc_eq_insert_0)
    then have "(\<lambda>i. x1 + 8 * of_nat i) ` {..< unat w2} = insert x1 ((\<lambda>i. x1 + 8 + 8 * of_nat i) ` {..< unat (w2 - 1)})"
      by (simp add: image_image algebra_simps)
    moreover have "clear_bss w2 x1 ram = clear_bss (w2 - 1) (x1 + 8) (ram(x1 := 0))" using False by (subst clear_bss.simps) simp
    ultimately show ?thesis unfolding 1 [OF False] by auto
  qed (simp add: clear_bss.simps)
qed

text \<open>When \<open>start\<close> is called, every double word of the section without initial values is 0, and the rest of memory is as it was
  loaded.\<close>

lemma aarch64_boot_zeroes_bss:
  assumes "mpidr AND 3 = 0"
  shows "\<exists>ram'. aarch64_boot mpidr stack_end bss_start bss_size ram = Some (stack_end, ram') \<and>
    (\<forall>i < unat bss_size. ram' (bss_start + 8 * of_nat i) = 0) \<and>
    (\<forall>a. (\<forall>i < unat bss_size. a \<noteq> bss_start + 8 * of_nat i) \<longrightarrow> ram' a = ram a)"
  using assms by (auto simp: aarch64_boot_def clear_bss_clears)

end
