(* ===== verification/Fw_Cfg.thy ===== *)
theory Fw_Cfg
  imports Console
begin

text \<open>
  The firmware configuration device (\<open>src/src/arch/riscv64/fw_cfg/fw.rs\<close>). The device is a parameter: how it answers a read of
  a number of bytes at an address, and how a write changes it. Reading the data register moves the device on to the
  next bytes of the selected item, so every read returns the device as well.
\<close>

section \<open>Data\<close>

record 'd fw_bus =
  fw_read :: "nat \<Rightarrow> usize \<Rightarrow> 'd \<Rightarrow> u64 \<times> 'd"
  fw_write16 :: "usize \<Rightarrow> u16 \<Rightarrow> 'd \<Rightarrow> 'd"

record FwCfgFile =
  ff_size :: u32
  ff_select :: u16

record FwCfg =
  base_addr :: usize

definition FwCfg_new :: "usize \<Rightarrow> FwCfg" where
  "FwCfg_new fw_cfg_start = \<lparr>base_addr = fw_cfg_start\<rparr>"

section \<open>Registers\<close>

definition read_data8 :: "'d fw_bus \<Rightarrow> FwCfg \<Rightarrow> 'd \<Rightarrow> u8 \<times> 'd" where
  "read_data8 bus fw d = (case fw_read bus 1 (base_addr fw) d of (v, d') \<Rightarrow> (ucast v, d'))"

definition read_data16 :: "'d fw_bus \<Rightarrow> FwCfg \<Rightarrow> 'd \<Rightarrow> u16 \<times> 'd" where
  "read_data16 bus fw d = (case fw_read bus 2 (base_addr fw) d of (v, d') \<Rightarrow> (ucast v, d'))"

definition read_data32 :: "'d fw_bus \<Rightarrow> FwCfg \<Rightarrow> 'd \<Rightarrow> u32 \<times> 'd" where
  "read_data32 bus fw d = (case fw_read bus 4 (base_addr fw) d of (v, d') \<Rightarrow> (ucast v, d'))"

definition read_data64 :: "'d fw_bus \<Rightarrow> FwCfg \<Rightarrow> 'd \<Rightarrow> u64 \<times> 'd" where
  "read_data64 bus fw d = fw_read bus 8 (base_addr fw) d"

definition read_dma_addr :: "'d fw_bus \<Rightarrow> FwCfg \<Rightarrow> 'd \<Rightarrow> u64 \<times> 'd" where
  "read_dma_addr bus fw d = fw_read bus 8 (base_addr fw + 16) d"

definition set_selector :: "'d fw_bus \<Rightarrow> FwCfg \<Rightarrow> u16 \<Rightarrow> 'd \<Rightarrow> 'd" where
  "set_selector bus fw selector d = fw_write16 bus (base_addr fw + 8) selector d"

section \<open>Items\<close>

text \<open>\<open>to_le_bytes\<close>, and the number with \<open>{:#018x}\<close>.\<close>

definition to_le_bytes :: "nat \<Rightarrow> u64 \<Rightarrow> u8 list" where
  "to_le_bytes n w = map (\<lambda>i. ucast (drop_bit (8 * i) w)) [0..<n]"

definition hex_digit :: "nat \<Rightarrow> char" where
  "hex_digit n = char_of (if n < 10 then 48 + n else 87 + n)"

definition hex018 :: "u64 \<Rightarrow> string" where
  "hex018 w = ''0x'' @ rev (map (\<lambda>i. hex_digit (unat (drop_bit (4 * i) w AND 15))) [0..<16])"

definition read_signature :: "'d fw_bus \<Rightarrow> usize \<Rightarrow> FwCfg \<Rightarrow> 'd \<times> device \<Rightarrow> u8 list \<times> ('d \<times> device)" where
  "read_signature bus uart fw s =
     (case s of (d, con) \<Rightarrow>
        let d1 = set_selector bus fw 0x0000 d
        in case read_data32 bus fw d1 of (signature, d2) \<Rightarrow>
           case read_dma_addr bus fw d2 of (dma_signature, d3) \<Rightarrow>
             (to_le_bytes 4 (ucast signature), (d3, println uart (hex018 dma_signature) con)))"

definition read_feature_bitmap :: "'d fw_bus \<Rightarrow> FwCfg \<Rightarrow> 'd \<Rightarrow> u32 \<times> 'd" where
  "read_feature_bitmap bus fw d = read_data32 bus fw (set_selector bus fw 0x0001 d)"

text \<open>The inner loop of \<open>map_files\<close> takes the characters of a name and skips the zeros; the outer loop takes the files.\<close>

primrec read_name :: "nat \<Rightarrow> 'd fw_bus \<Rightarrow> FwCfg \<Rightarrow> 'd \<Rightarrow> string \<times> 'd" where
  "read_name 0 bus fw d = ([], d)"
| "read_name (Suc n) bus fw d =
     (case read_data8 bus fw d of (c, d1) \<Rightarrow>
      case read_name n bus fw d1 of (name, d2) \<Rightarrow> (if c = 0 then name else as_char c # name, d2))"

primrec read_files :: "nat \<Rightarrow> 'd fw_bus \<Rightarrow> FwCfg \<Rightarrow> (string \<rightharpoonup> FwCfgFile) \<Rightarrow> 'd \<Rightarrow> (string \<rightharpoonup> FwCfgFile) \<times> 'd" where
  "read_files 0 bus fw files d = (files, d)"
| "read_files (Suc n) bus fw files d =
     (case read_data32 bus fw d of (file_size, d1) \<Rightarrow>
      case read_data16 bus fw d1 of (select, d2) \<Rightarrow>
      case read_data16 bus fw d2 of (_, d3) \<Rightarrow>
      case read_name 56 bus fw d3 of (name, d4) \<Rightarrow>
        read_files n bus fw (files(name \<mapsto> \<lparr>ff_size = file_size, ff_select = select\<rparr>)) d4)"

definition map_files :: "'d fw_bus \<Rightarrow> usize \<Rightarrow> FwCfg \<Rightarrow> 'd \<times> device \<Rightarrow> (string \<rightharpoonup> FwCfgFile) \<times> ('d \<times> device)" where
  "map_files bus uart fw s =
     (case s of (d, con) \<Rightarrow>
        let d1 = set_selector bus fw 0x0019 d
        in case read_data32 bus fw d1 of (cnt, d2) \<Rightarrow>
           let con1 = println uart (dec (unat cnt)) con
           in case read_files (unat cnt) bus fw Map.empty d2 of (files, d3) \<Rightarrow> (files, (d3, con1)))"

section \<open>A device that serves items\<close>

text \<open>What the device promises: a read of the data register delivers the next bytes of the selected item in the order of
  memory, and selecting an item starts it from its beginning. \<open>rest\<close> is what the device has still to deliver.\<close>

fun of_le :: "u8 list \<Rightarrow> u64" where
  "of_le [] = 0"
| "of_le (b # bs) = ucast b OR push_bit 8 (of_le bs)"

definition serves :: "'d fw_bus \<Rightarrow> usize \<Rightarrow> ('d \<Rightarrow> u8 list) \<Rightarrow> (u16 \<Rightarrow> u8 list) \<Rightarrow> bool" where
  "serves bus base rest item \<longleftrightarrow>
     (\<forall>w d. w \<le> length (rest d) \<longrightarrow> fst (fw_read bus w base d) = of_le (take w (rest d)) \<and> rest (snd (fw_read bus w base d)) = drop w (rest d)) \<and>
     (\<forall>s d. rest (fw_write16 bus (base + 8) s d) = item s)"

lemma serves_read:
  assumes "serves bus (base_addr fw) rest item" "rest d = bs @ after"
  shows "\<exists>d'. fw_read bus (length bs) (base_addr fw) d = (of_le bs, d') \<and> rest d' = after"
  using assms by (cases "fw_read bus (length bs) (base_addr fw) d") (auto simp: serves_def dest!: spec [of _ "length bs"] spec [of _ d])

text \<open>Numbers in the order of memory.\<close>

lemma bit_of_le: "bit (of_le bs) i \<longleftrightarrow> i < 64 \<and> i div 8 < length bs \<and> bit (bs ! (i div 8)) (i mod 8)"
proof (induction bs arbitrary: i)
  case (Cons b bs)
  show ?case
  proof (cases "i < 8")
    case True
    then show ?thesis using bit_imp_le_length [of b i] by (auto simp: bit_or_iff bit_ucast_iff bit_push_bit_iff)
  next
    case False
    then have d: "i div 8 = Suc ((i - 8) div 8)" "i mod 8 = (i - 8) mod 8" by (simp_all add: le_div_geq le_mod_geq)
    show ?thesis using False Cons.IH [of "i - 8"] bit_imp_le_length [of b i] by (auto simp: bit_or_iff bit_ucast_iff bit_push_bit_iff d)
  qed
qed simp

lemma of_le_bytes: "n \<le> 8 \<Longrightarrow> of_le (to_le_bytes n w) = take_bit (8 * n) w"
proof (rule bit_word_eqI)
  fix i assume "n \<le> 8" "i < LENGTH(64)"
  then show "bit (of_le (to_le_bytes n w)) i = bit (take_bit (8 * n) w) i"
    by (cases "i div 8 < n") (auto simp: bit_of_le to_le_bytes_def bit_take_bit_iff bit_ucast_iff bit_drop_bit_eq less_mult_imp_div_less div_less_iff_less_mult mult.commute)
qed

section \<open>The directory\<close>

text \<open>A directory of files with its fields in the order of memory.\<close>

definition file_bytes :: "string \<times> FwCfgFile \<Rightarrow> u8 list" where
  "file_bytes = (\<lambda>(name, f). to_le_bytes 4 (ucast (ff_size f)) @ to_le_bytes 2 (ucast (ff_select f)) @ [0, 0] @
     map of_char name @ replicate (56 - length name) 0)"

definition directory_bytes :: "(string \<times> FwCfgFile) list \<Rightarrow> u8 list" where
  "directory_bytes files = to_le_bytes 4 (of_nat (length files)) @ concat (map file_bytes files)"

definition file_name_ok :: "string \<Rightarrow> bool" where
  "file_name_ok name \<longleftrightarrow> length name \<le> 56 \<and> char_of (0 :: nat) \<notin> set name"

lemma length_le_bytes [simp]: "length (to_le_bytes n w) = n"
  by (simp add: to_le_bytes_def)

lemma le_bytes_0: "to_le_bytes 2 0 = [0, 0]"
  by (simp add: to_le_bytes_def numeral_2_eq_2)

lemma read_data_serves:
  assumes "serves bus (base_addr fw) rest item"
  shows "rest d = to_le_bytes 4 (ucast v) @ after \<Longrightarrow> \<exists>d'. read_data32 bus fw d = (v, d') \<and> rest d' = after"
    "rest d = to_le_bytes 2 (ucast u) @ after \<Longrightarrow> \<exists>d'. read_data16 bus fw d = (u, d') \<and> rest d' = after"
    "rest d = c # after \<Longrightarrow> \<exists>d'. read_data8 bus fw d = (c, d') \<and> rest d' = after"
proof -
  have v: "ucast (take_bit 32 (ucast v :: u64)) = v" by (rule bit_word_eqI) (simp add: bit_ucast_iff bit_take_bit_iff)
  have u: "ucast (take_bit 16 (ucast u :: u64)) = u" by (rule bit_word_eqI) (simp add: bit_ucast_iff bit_take_bit_iff)
  have c: "ucast (of_le [c]) = c" by (rule bit_word_eqI) (simp add: bit_ucast_iff bit_or_iff)
  show "rest d = to_le_bytes 4 (ucast v) @ after \<Longrightarrow> \<exists>d'. read_data32 bus fw d = (v, d') \<and> rest d' = after"
    using serves_read [OF assms, of d "to_le_bytes 4 (ucast v)" after] v by (auto simp: of_le_bytes read_data32_def)
  show "rest d = to_le_bytes 2 (ucast u) @ after \<Longrightarrow> \<exists>d'. read_data16 bus fw d = (u, d') \<and> rest d' = after"
    using serves_read [OF assms, of d "to_le_bytes 2 (ucast u)" after] u by (auto simp: of_le_bytes read_data16_def)
  show "rest d = c # after \<Longrightarrow> \<exists>d'. read_data8 bus fw d = (c, d') \<and> rest d' = after"
    using serves_read [OF assms, of d "[c]" after] c by (auto simp: read_data8_def simp del: of_le.simps)
qed

lemma read_name_serves:
  assumes "serves bus (base_addr fw) rest item" "rest d = bs @ after"
  shows "\<exists>d'. read_name (length bs) bus fw d = (map as_char (filter (\<lambda>c. c \<noteq> 0) bs), d') \<and> rest d' = after"
  using assms(2)
proof (induction bs arbitrary: d)
  case (Cons c bs)
  obtain d1 where d1: "read_data8 bus fw d = (c, d1)" "rest d1 = bs @ after" using read_data_serves(3) [OF assms(1)] Cons.prems by fastforce
  then show ?case using Cons.IH [OF d1(2)] by auto
qed simp

lemma padded_name:
  assumes "file_name_ok name"
  shows "map as_char (filter (\<lambda>c. c \<noteq> 0) (map of_char name @ replicate (56 - length name) (0 :: u8))) = name"
    "length (map of_char name @ replicate (56 - length name) (0 :: u8)) = 56"
proof -
  have "(of_char c :: u8) \<noteq> 0" if "c \<in> set name" for c
  proof
    assume "(of_char c :: u8) = 0"
    then have "c = as_char 0" using as_char_of_char [of c] by simp
    then show False using assms that by (simp add: file_name_ok_def as_char_def)
  qed
  then have "filter (\<lambda>c. c \<noteq> 0) (map of_char name) = (map of_char name :: u8 list)" by (auto simp: filter_id_conv)
  then show "map as_char (filter (\<lambda>c. c \<noteq> 0) (map of_char name @ replicate (56 - length name) (0 :: u8))) = name"
    by (simp add: as_char_of_char o_def)
qed (use assms in \<open>simp add: file_name_ok_def\<close>)

lemma read_files_serves:
  assumes "serves bus (base_addr fw) rest item" "rest d = concat (map file_bytes files) @ after" "\<forall>(name, f) \<in> set files. file_name_ok name"
  shows "\<exists>d'. read_files (length files) bus fw acc d = (acc ++ map_of (rev files), d')"
  using assms(2,3)
proof (induction files arbitrary: acc d)
  case (Cons nf files)
  obtain name f where nf: "nf = (name, f)" by fastforce
  note serves = assms(1)
  let ?rest = "concat (map file_bytes files) @ after" and ?name = "map of_char name @ replicate (56 - length name) (0 :: u8)"
  have ok: "file_name_ok name" using Cons.prems(2) by (simp add: nf)
  have r0: "rest d = to_le_bytes 4 (ucast (ff_size f)) @ to_le_bytes 2 (ucast (ff_select f)) @ to_le_bytes 2 (ucast (0 :: u16)) @ ?name @ ?rest"
    using Cons.prems(1) by (simp add: nf file_bytes_def le_bytes_0)
  obtain d1 where d1: "read_data32 bus fw d = (ff_size f, d1)"
    "rest d1 = to_le_bytes 2 (ucast (ff_select f)) @ to_le_bytes 2 (ucast (0 :: u16)) @ ?name @ ?rest" using read_data_serves(1) [OF serves r0] by blast
  obtain d2 where d2: "read_data16 bus fw d1 = (ff_select f, d2)" "rest d2 = to_le_bytes 2 (ucast (0 :: u16)) @ ?name @ ?rest"
    using read_data_serves(2) [OF serves d1(2)] by blast
  obtain d3 where d3: "read_data16 bus fw d2 = (0, d3)" "rest d3 = ?name @ ?rest" using read_data_serves(2) [OF serves d2(2)] by blast
  obtain d4 where d4: "read_name 56 bus fw d3 = (name, d4)" "rest d4 = ?rest"
    using read_name_serves [OF serves d3(2)] unfolding padded_name [OF ok] by blast
  have "\<forall>(name, f) \<in> set files. file_name_ok name" using Cons.prems(2) by simp
  from Cons.IH [OF d4(2) this] obtain d5 where
    d5: "read_files (length files) bus fw (acc(name \<mapsto> f)) d4 = (acc(name \<mapsto> f) ++ map_of (rev files), d5)" by blast
  have "read_files (length (nf # files)) bus fw acc d = read_files (length files) bus fw (acc(name \<mapsto> f)) d4"
    using d1(1) d2(1) d3(1) d4(1) by (cases f) simp
  then show ?case unfolding d5 by (simp add: nf)
qed simp


text \<open>A device that holds one directory; its state is what it has still to deliver.\<close>

definition demo_bus :: "u8 list fw_bus" where
  "demo_bus = \<lparr>fw_read = (\<lambda>w a d. (of_le (take w d), drop w d)),
     fw_write16 = (\<lambda>a s d. if s = 0x19 then directory_bytes [(''etc/acpi'', \<lparr>ff_size = 300, ff_select = 0x20\<rparr>)] else [])\<rparr>"


text \<open>A number that the device stores with its highest byte first comes out reversed.\<close>

lemma big_endian_count: "of_le (rev (to_le_bytes 4 1)) = 0x01000000"
  by (simp add: to_le_bytes_def numeral_eq_Suc)

end
