(* ===== verification/Fat_List.thy ===== *)
theory Fat_List
  imports Fat Console
begin

text \<open>
  The listing of a directory on the console (\<open>list_all_files_in_dir\<close> of \<open>src/src/fs/fat.rs\<close>). Its loop goes on to the next
  cluster after 128 entries, but its buffer holds 16; a read beyond the buffer is a \<open>Panic\<close>.
\<close>

section \<open>The operation\<close>

definition is_unused :: "u8 list \<Rightarrow> bool" where
  "is_unused e \<longleftrightarrow> u8_at 0 e = 0xE5"

definition list_advance :: "disk \<Rightarrow> cursor \<Rightarrow> Fat32 \<Rightarrow> ('e, cursor option) result \<times> Fat32" where
  "list_advance d c f =
     (case c of (buf, idx, cluster_num) \<Rightarrow>
        if idx + 1 \<ge> 128 then
          and_then (next_cluster d cluster_num f) (\<lambda>nxt f'.
            case nxt of
              None \<Rightarrow> (Ok None, f')
            | Some cluster \<Rightarrow>
                (case read_cluster d f' cluster buf of
                   Ok buf' \<Rightarrow> (Ok (Some (buf', (idx + 1) mod 128, cluster)), f')
                 | Err e \<Rightarrow> (Err e, f')
                 | Panic m \<Rightarrow> (Panic m, f')))
        else (Ok (Some (buf, idx + 1, cluster_num)), f))"

text \<open>The loop, with fuel for its iterations. The name of a long entry stands for the short entry behind it, which is
  passed over.\<close>

fun list_loop :: "nat \<Rightarrow> disk \<Rightarrow> usize \<Rightarrow> cursor \<Rightarrow> Fat32 \<Rightarrow> device \<Rightarrow> ('e, unit) result \<times> Fat32 \<times> device" where
  "list_loop 0 d uart c f con = (Panic ''out of fuel'', f, con)"
| "list_loop (Suc n) d uart c f con =
     (case c of (buf, idx, _) \<Rightarrow>
      let entry = entry_of c
      in if length buf < 32 * idx + 32 then (Panic ''read beyond the buffer'', f, con)
         else if is_end entry \<or> is_unused entry then (Ok (), f, con)
         else if is_lfn entry then
           (let con1 = println uart (lfn_to_string (as_LFNEntry entry)) con
            in case list_advance d c f of
                 (Ok None, f1) \<Rightarrow> (Ok (), f1, con1)
               | (Ok (Some c1), f1) \<Rightarrow>
                   (case list_advance d c1 f1 of
                      (Ok None, f2) \<Rightarrow> (Ok (), f2, con1)
                    | (Ok (Some c2), f2) \<Rightarrow> list_loop n d uart c2 f2 con1
                    | (Err e, f2) \<Rightarrow> (Err e, f2, con1)
                    | (Panic m, f2) \<Rightarrow> (Panic m, f2, con1))
               | (Err e, f1) \<Rightarrow> (Err e, f1, con1)
               | (Panic m, f1) \<Rightarrow> (Panic m, f1, con1))
         else
           (let con1 = println uart (dir_entry_name (as_DirEntry entry)) con
            in case list_advance d c f of
                 (Ok None, f1) \<Rightarrow> (Ok (), f1, con1)
               | (Ok (Some c1), f1) \<Rightarrow> list_loop n d uart c1 f1 con1
               | (Err e, f1) \<Rightarrow> (Err e, f1, con1)
               | (Panic m, f1) \<Rightarrow> (Panic m, f1, con1)))"

definition list_all_files_in_dir ::
  "nat \<Rightarrow> disk \<Rightarrow> usize \<Rightarrow> u32 \<Rightarrow> Fat32 \<times> machine \<times> device \<Rightarrow> ('e, unit) result \<times> (Fat32 \<times> machine \<times> device)" where
  "list_all_files_in_dir n d uart cluster_num s =
     (case s of (f, m, con) \<Rightarrow>
        case alloc_zeroed (512, 8) m of (buffer, m1) \<Rightarrow>
          if buffer = 0 then (Panic ''null buffer'', (f, m1, con))
          else case read_cluster d f cluster_num (replicate 512 0) of
                 Err e \<Rightarrow> (Err e, (f, m1, con))
               | Panic msg \<Rightarrow> (Panic msg, (f, m1, con))
               | Ok buf \<Rightarrow>
                   (case list_loop n d uart (buf, 0, cluster_num) f con of
                      (Ok r, f', con') \<Rightarrow> (Ok r, (f', dealloc buffer (512, 8) m1, con'))
                    | (Err e, f', con') \<Rightarrow> (Err e, (f', m1, con'))
                    | (Panic msg, f', con') \<Rightarrow> (Panic msg, (f', m1, con'))))"

section \<open>What it lists\<close>

text \<open>The names in a sequence of entries, and whether it comes to an end marker.\<close>

fun listing :: "u8 list list \<Rightarrow> string list \<times> bool" where
  "listing [] = ([], False)"
| "listing (e # es) =
     (if is_end e \<or> is_unused e then ([], True)
      else if is_lfn e then
        (case listing (drop 1 es) of (names, ended) \<Rightarrow> (lfn_to_string (as_LFNEntry e) # names, ended))
      else (case listing es of (names, ended) \<Rightarrow> (dir_entry_name (as_DirEntry e) # names, ended)))"

definition entries_from :: "nat \<Rightarrow> u8 list \<Rightarrow> u8 list list" where
  "entries_from i buf = map (\<lambda>k. bytes_at (32 * k) 32 buf) [i..<16]"

lemma entries_from_step: "i < 16 \<Longrightarrow> entries_from i buf = bytes_at (32 * i) 32 buf # entries_from (Suc i) buf"
  by (simp add: entries_from_def upt_conv_Cons)

lemma entries_from_drop: "drop (Suc 0) (entries_from i buf) = entries_from (Suc i) buf"
  by (simp add: entries_from_def drop_map)

lemma list_advance_first: "idx < 20 \<Longrightarrow> list_advance d (buf, idx, cl) f = (Ok (Some (buf, Suc idx, cl)), f)"
  by (simp add: list_advance_def)

lemma list_loop_lists:
  assumes "length buf = 512" "16 - idx < n" "idx \<le> 17"
  shows "(list_loop n d uart (buf, idx, cl) f con :: ('e, unit) result \<times> Fat32 \<times> device) =
    (if snd (listing (entries_from idx buf)) then Ok () else Panic ''read beyond the buffer'', f,
     fold (println uart) (fst (listing (entries_from idx buf))) con)"
  using assms(2,3)
proof (induction n arbitrary: idx con)
  case (Suc n)
  show ?case
  proof (cases "idx < 16")
    case False
    then have "entries_from idx buf = []" by (simp add: entries_from_def)
    then show ?thesis using False assms(1) by (simp add: Let_def)
  next
    case True
    let ?e = "bytes_at (32 * idx) 32 buf"
    have e: "entry_of (buf, idx, cl) = ?e" by (simp add: entry_of_def)
    have in_buf: "\<not> length buf < 32 * idx + 32" using True assms(1) by simp
    have IH: "(list_loop n d uart (buf, i, cl) f con' :: ('e, unit) result \<times> Fat32 \<times> device) =
        (if snd (listing (entries_from i buf)) then Ok () else Panic ''read beyond the buffer'', f,
         fold (println uart) (fst (listing (entries_from i buf))) con')" if "i = Suc idx \<or> i = Suc (Suc idx)" for i con'
      by (rule Suc.IH) (use Suc.prems True that in auto)
    show ?thesis
      using True IH in_buf unfolding entries_from_step [OF True]
      by (simp add: Let_def e list_advance_first entries_from_drop case_prod_beta)
  qed
qed simp

text \<open>The listing of a directory. The console shows, one per line, the names of the entries of the directory's first
  cluster up to the first free one, the long name of an entry in place of its short one; the buffer is given back, and
  nothing else has changed. When none of the sixteen entries is free, the loop runs behind the end of its buffer.\<close>

theorem list_all_files_lists:
  assumes "read_cluster d f cl (replicate 512 0) = (Ok buf :: ('e, u8 list) result)" "length buf = 512" "16 < n"
    "alloc_zeroed (512, 8) m = (buffer, m1)" "buffer \<noteq> 0"
  shows "(list_all_files_in_dir n d uart cl (f, m, con) :: ('e, unit) result \<times> _) =
    (let (names, ended) = listing (entries_from 0 buf); con1 = fold (println uart) names con
     in if ended then (Ok (), (f, dealloc buffer (512, 8) m1, con1)) else (Panic ''read beyond the buffer'', (f, m1, con1)))"
  using assms list_loop_lists [OF assms(2), of 0 n d uart cl f con, where ?'e = 'e]
  by (simp add: list_all_files_in_dir_def Let_def split: prod.split)

end
