(* ===== verification/Spec2Isabelle.thy ===== *)
theory Spec2Isabelle
  imports Process_Props Sleep_Queue Assembly File_System Layer_Props Virtio_Props Input_Ring Trap_Props Loader_Props Syscall_Props
    Boot_Props Spin_Lock Page_Clone Program_Start Gpu_Props Interrupt_Props Boot_Start Boot_Stack Aarch64 Fw_Cfg Fat_List Input_Keys
begin

text \<open>
  A verification development for Citron (\<open>src/src\<close>), an operating system kernel for RISC-V in Rust.

  \<^bold>\<open>The program.\<close> The hart starts in \<open>start.rs\<close>, which drops to supervisor mode and enters \<open>kmain\<close>. \<open>kmain\<close> initialises the
  allocator, the process manager, the console, the interrupt controller, paging and the virtio devices, creates two
  kernel processes and goes on as the idle process. The process \<open>kproc\<close> draws the desktop and follows the mouse; the
  process \<open>fs_proc\<close> mounts the FAT32 volume and starts the first two programs. User programs enter the kernel through
  the trampoline (\<open>uservec\<close>, \<open>user_trap\<close>) by system calls and interrupts, and leave it through \<open>userret\<close>. The timer
  calls \<open>wakeup\<close> and \<open>schedule\<close>; the devices wake the processes that wait for them.

  \<^bold>\<open>Where it is modelled.\<close> Paths are relative to \<open>src/src\<close>.

  \<^item> \<open>Prelude\<close>: machine integers, results with errors and panics, kernel calls as resumptions.
  \<^item> \<open>Machine\<close>: control registers (\<open>arch/riscv64/csr.rs\<close>), the interrupt mask (\<open>interrupt.rs\<close>), \<open>alloc\<close> and \<open>dealloc\<close>
    (\<open>allocator.rs\<close>).
  \<^item> \<open>Paging\<close>, \<open>Page_Map\<close>, \<open>Kernel_Space\<close>, \<open>Page_Clone\<close>: the Sv39 tables of \<open>arch/riscv64/paging.rs\<close> in memory, the tree they represent,
    and the address spaces built from them. \<open>map\<close> is \<open>map_pt\<close>, \<open>init\<close> is \<open>paging_init\<close>; the locale \<open>page_map\<close> states what a
    single mapping promises and derives the mapping of ranges.
  \<^item> \<open>Arch_Process\<close>: context, trap frame, creation, page table and release of a process (\<open>arch/riscv64/process.rs\<close>).
  \<^item> \<open>Binary_Heap\<close>: the ready list, Rust's binary heap on a list, over any total preorder (locales \<open>total_preorder\<close> and
    \<open>max_pqueue\<close>, interpreted on process descriptors).
  \<^item> \<open>Process\<close>: every operation of the process manager (\<open>process.rs\<close>); \<open>Process_Inv\<close> and \<open>Process_Life\<close>: its invariant and
    that every operation keeps it; \<open>Process_System\<close>: any number of processes that call it; \<open>Process_Props\<close> and
    \<open>Sleep_Queue\<close>: scheduling, semaphores, interrupts, sleeping.
  \<^item> \<open>Assembly\<close>: \<open>context_switch\<close>, \<open>uservec\<close>, \<open>userret\<close>, \<open>kernelvec\<close>, \<open>timervec\<close> as lists of instructions and their execution;
    \<open>Boot_Stack\<close>: the boot code (\<open>arch/riscv64/boot.S\<close>).
  \<^item> \<open>Fat\<close>, \<open>Fat_Props\<close>, \<open>Fat_Files\<close>, \<open>File_System\<close>: the FAT32 driver (\<open>fs/fat.rs\<close>) and the table of open files (\<open>fs.rs\<close>)
    over any backing file system (locale \<open>backing_fs\<close>, interpreted on FAT32); \<open>Fat_List\<close>: the listing of a directory on the console.
  \<^item> \<open>Graphics\<close>, \<open>Layers\<close>, \<open>Layer_Props\<close>: frame buffers, objects, layers and windows (\<open>graphics.rs\<close>,
    \<open>arch/riscv64/graphics.rs\<close>) over any painter (locale \<open>painter_laws\<close>, interpreted on the display).
  \<^item> \<open>Virtio\<close>, \<open>Virtio_Blk\<close>, \<open>Virtio_Gpu\<close>, \<open>Virtio_Input\<close>, \<open>Virtio_Bus\<close>: the queues and the drivers (\<open>arch/riscv64/virtio.rs\<close> and
    \<open>virtio/\<close>); \<open>Virtio_Props\<close>, \<open>Input_Ring\<close>: descriptors, requests, acknowledgements and the ring of input events;
    \<open>Gpu_Props\<close>: the commands of the display driver; \<open>Input_Keys\<close>: the table of key codes.
  \<^item> \<open>Serial\<close>: the console (\<open>arch/riscv64/uart.rs\<close>, \<open>arch/serial.rs\<close>) and the end of an emulation (\<open>arch/riscv64/debug.rs\<close>).
    \<open>Serial_Port\<close>: output over any port (locale \<open>serial_io\<close>, interpreted on the UART and on the mini UART of \<open>Aarch64\<close>).
  \<^item> \<open>Console\<close>: \<open>print!\<close>, \<open>println!\<close>, the panic handlers and the test runner (\<open>lib.rs\<close>, \<open>main.rs\<close>).
  \<^item> \<open>Aarch64\<close>: the second target (\<open>arch/aarch64\<close>), its boot code included. \<open>Fw_Cfg\<close>: the firmware's directory (\<open>arch/riscv64/fw_cfg/fw.rs\<close>).
  \<^item> \<open>Kernel_State\<close>, \<open>Kernel_Memory\<close>: the global variables of the kernel in one record, how the components' calls run in it,
    and the bytes of memory.
  \<^item> \<open>Trap\<close>, \<open>Trap_Props\<close>: \<open>plic.rs\<close>, \<open>clint.rs\<close>, \<open>start.rs\<close> and the handlers of \<open>trap.rs\<close> and \<open>process.rs\<close>;
    \<open>Interrupt_Props\<close>: an interrupt of the mouse, from the controller to the waiting process.
  \<^item> \<open>Loader\<close>, \<open>Loader_Props\<close>: \<open>arch/riscv64/loader.rs\<close>. \<open>Syscall\<close>, \<open>Syscall_Props\<close>: \<open>arch/riscv64/syscall.rs\<close>.
  \<^item> \<open>Program_Start\<close>: from the executable file to the first instruction of a program.
  \<^item> \<open>Boot\<close>, \<open>Boot_Props\<close>, \<open>Boot_Start\<close>: \<open>kmain.rs\<close>, \<open>init.rs\<close>, \<open>arch/riscv64/init.rs\<close>.
  \<^item> \<open>Spin_Lock\<close>: \<open>spinlock.rs\<close>.

  \<^bold>\<open>How it is modelled.\<close> Integers are words of their width and wrap around, as in a release build; \<open>usize\<close> has 64 bits.
  A call that can fail returns \<open>Ok\<close>, \<open>Err\<close> or \<open>Panic\<close>; a loop that never ends and an access through a raw pointer outside
  its buffer are a \<open>Panic\<close> as well. \<open>BTreeMap\<close> and \<open>HashMap\<close> are maps, \<open>Vec\<close> and \<open>VecDeque\<close> lists. Memory is a
  function from the addresses of double words; bytes are read and written in it. A call that may switch to another
  process is a resumption: \<open>Switch p s k\<close> gives the state \<open>s\<close> to the other processes, and \<open>k\<close> goes on in whatever state they
  hand back. \<open>sat R G Q\<close> states, in the manner of rely and guarantee, that a call keeps \<open>G\<close> at every switch and ends in
  \<open>Q\<close> if the others keep \<open>R\<close>. A jump that does not return (to user mode) is the value of the model.

  \<^bold>\<open>Parameters.\<close> What is not in the repository is an argument: the addresses of the linker script and of code, the answers
  of the third-party heap (\<open>heap_script\<close>), the contents of the disk, the parser of executables (\<open>goblin\<close>), the drawing
  library (\<open>embedded_graphics\<close>), the reader-writer lock of \<open>spin\<close>, and what a device answers to a register read
  (\<open>dv_read\<close>; for the firmware device \<open>fw_bus\<close>); what is written to a device is a log. The test runner takes any list of tests.

  \<^bold>\<open>What the theorems show.\<close> In every reachable state the tables of the process manager are consistent, whatever the
  interleaving; the scheduler, semaphores and sleepers do what they promise, and calls restore the interrupt state. Page
  tables translate what was mapped and nothing else, the kernel's address space is the identity on its regions, the
  address space of a process has its four mappings, freeing returns every table once, and a copy translates like its original. A trap, a context switch, a
  timer interrupt and a whole system call give the registers back. Opening and reading a file delivers its bytes, also
  through the system call and into the caller's memory, and a loaded executable is the
  file, is seen by its program at its addresses and is entered at its entry point.
  \<open>kmain\<close> starts its two processes before it lets go of the processor.
  The display shows the stack of layers after an update, an interrupt of the mouse queues its events and wakes the desktop,
  and the desktop follows the events in order. The drivers publish
  well-formed requests before they wait, free each once and start their devices in the order of the specification. Several theorems
  pin down where the code fails: errors that leave interrupts off, bad system calls that stop the kernel, a lock that
  does not exclude.

  \<^bold>\<open>Bounds.\<close> The loops over cluster chains and directories take a bound \<open>n\<close>; the theorems assume chains within it, and a
  chain of a volume has no more clusters than the allocation table entries. The search for the end of a string looks at
  \<open>2 ^ 64\<close> bytes, the whole address space. The loops over used rings end by a measure, the distance of the indices. A
  round of the desktop's process takes the events that are queued when it starts: none arrives while it runs.

  \<^bold>\<open>Not modelled.\<close> The 32-bit configuration; debug output
  inside the drivers; constants and fields that no code uses. The kernel's data are used
  without the wrapper of \<open>spinlock.rs\<close>, which is modelled by itself. On AArch64 a wait for the UART that never ends is \<open>None\<close>.
\<close>

end
